theory Spec2Isabelle
  imports Complex_Main "HOL-Library.Word" "HOL-Library.Signed_Division"
begin

chapter \<open>The AMCL node of amcl_doris: laser and marker localisation\<close>

text \<open>
  A shallow embedding of \<^verbatim>\<open>src/amcl_doris/src/amcl_node.cpp\<close>. A C++ \<^verbatim>\<open>double\<close> or
  \<^verbatim>\<open>float\<close> is a real number here: the rounding of arithmetic is not part of the model,
  nor are infinite values and NaN in messages; the cast of a \<^verbatim>\<open>double\<close> to \<^verbatim>\<open>float\<close>, where
  the source writes one, rounds to single precision. Integers keep their width where the
  source converts between widths. Calls into the transform
  library, the particle filter and the publishers are recorded as events, in the order
  the source makes them; what those calls hand back is an argument of the callback.
\<close>

section \<open>Definitions\<close>

subsection \<open>Angles\<close>

text \<open>
  The C library's \<^verbatim>\<open>atan2(y, x)\<close> on reals: the angle of the point \<open>(x, y)\<close>, in
  \<open>(-\<pi>, \<pi>]\<close>, and \<open>0\<close> at the origin.
\<close>

definition atan2 :: "real \<Rightarrow> real \<Rightarrow> real" where
  "atan2 y x =
     (if 0 < x then arctan (y / x)
      else if x < 0 then (if 0 \<le> y then arctan (y / x) + pi else arctan (y / x) - pi)
      else if 0 < y then pi / 2
      else if y < 0 then - (pi / 2)
      else 0)"

text \<open>\<^verbatim>\<open>normalize(z)\<close>: \<^verbatim>\<open>return atan2(sin(z),cos(z));\<close>\<close>

definition normalize_z :: "real \<Rightarrow> real" where
  "normalize_z z = atan2 (sin z) (cos z)"

text \<open>
  \<^verbatim>\<open>angle_diff(a, b)\<close>: both angles are normalised, \<open>d1\<close> is their difference and
  \<open>d2\<close> the way round the other side of the circle, with the opposite sign; the one of
  strictly smaller magnitude is returned, \<open>d2\<close> on a tie.
\<close>

definition angle_diff :: "real \<Rightarrow> real \<Rightarrow> real" where
  "angle_diff a b =
     (let a' = normalize_z a;
          b' = normalize_z b;
          d1 = a' - b';
          d2 = 2 * pi - \<bar>d1\<bar>;
          d2' = (if d1 > 0 then d2 * (- 1) else d2)
      in if \<bar>d1\<bar> < \<bar>d2'\<bar> then d1 else d2')"

subsection \<open>Undefined behaviour\<close>

text \<open>
  Where C++ leaves the behaviour undefined the model stops with a fault: an \<^verbatim>\<open>int\<close>
  computation that leaves the 32-bit range, \<^verbatim>\<open>operator[]\<close> at index \<open>i\<close> of a vector of
  \<open>n \<le> i\<close> elements (\<open>ReadPastEnd i n\<close>), and an integer remainder by zero. None of
  them is an exception: the source has no handler for any, and the program is not
  required to stop.
\<close>

datatype fault =
    SignedOverflow
  | ReadPastEnd nat nat
  | DivisionByZero

subsection \<open>Vectors, poses and messages\<close>

text \<open>
  \<^verbatim>\<open>pf_vector_t\<close> is \<^verbatim>\<open>double v[3]\<close>, here the triple \<open>(v[0], v[1], v[2])\<close>, a pose
  \<open>(x, y, yaw)\<close>; \<^verbatim>\<open>pf_matrix_t\<close> is the triple of its rows.
\<close>

type_synonym pf_vector_t = "real \<times> real \<times> real"
type_synonym pf_matrix_t = "pf_vector_t \<times> pf_vector_t \<times> pf_vector_t"

definition v0 :: "pf_vector_t \<Rightarrow> real" where "v0 p = fst p"
definition v1 :: "pf_vector_t \<Rightarrow> real" where "v1 p = fst (snd p)"
definition v2 :: "pf_vector_t \<Rightarrow> real" where "v2 p = snd (snd p)"

definition pf_vector_zero :: pf_vector_t where
  "pf_vector_zero = (0, 0, 0)"

definition pf_matrix_zero :: pf_matrix_t where
  "pf_matrix_zero = ((0, 0, 0), (0, 0, 0), (0, 0, 0))"

definition m_at :: "pf_matrix_t \<Rightarrow> nat \<Rightarrow> nat \<Rightarrow> real" where
  "m_at c i j =
     (let r = (if i = 0 then fst c else if i = 1 then fst (snd c) else snd (snd c))
      in if j = 0 then v0 r else if j = 1 then v1 r else v2 r)"

text \<open>
  \<^verbatim>\<open>ros::Time\<close> and \<^verbatim>\<open>ros::Duration\<close> count nanoseconds; \<open>stamp + tolerance\<close> is their sum.
  A \<^verbatim>\<open>tf::Pose\<close> (the same type as \<^verbatim>\<open>tf::Transform\<close>) is a rotation quaternion
  \<open>(x, y, z, w)\<close> and an origin. The transform handed to the broadcaster is a pose or the
  library's \<^verbatim>\<open>inverse()\<close> of one; the inverse is not computed here, only named.
\<close>

type_synonym ros_time = int
type_synonym ros_duration = int

record tf_Pose =
  rotation :: "real \<times> real \<times> real \<times> real"
  origin :: "real \<times> real \<times> real"

definition origin_x_of :: "tf_Pose \<Rightarrow> real" where "origin_x_of t = fst (origin t)"
definition origin_y_of :: "tf_Pose \<Rightarrow> real" where "origin_y_of t = fst (snd (origin t))"

definition tf_identity :: tf_Pose where
  "tf_identity = \<lparr>rotation = (0, 0, 0, 1), origin = (0, 0, 0)\<rparr>"

definition createQuaternionFromYaw :: "real \<Rightarrow> real \<times> real \<times> real \<times> real" where
  "createQuaternionFromYaw yaw = (0, 0, sin (yaw / 2), cos (yaw / 2))"

datatype tf_Transform = Plain tf_Pose | Inverse tf_Pose

record StampedTransform =
  st_transform :: tf_Transform
  st_stamp :: ros_time
  st_frame_id :: string
  st_child_frame_id :: string

text \<open>
  The functions of the transform library and of \<^verbatim>\<open>ros::Duration\<close> that the source calls and
  that are no part of it: \<^verbatim>\<open>tf_->resolve\<close>, the yaw of a pose (\<^verbatim>\<open>getYaw\<close>,
  \<^verbatim>\<open>getEulerYPR\<close>), the product of two poses, \<^verbatim>\<open>fromSec\<close> and
  \<^verbatim>\<open>ros::Duration(1.0/rate)\<close>. Every definition below takes them as the argument \<open>L\<close>, and
  every theorem holds for all of them.
\<close>

record ros_lib =
  resolve :: "string \<Rightarrow> string"
  getYaw :: "tf_Pose \<Rightarrow> real"
  compose :: "tf_Pose \<Rightarrow> tf_Pose \<Rightarrow> tf_Pose"
  fromSec :: "real \<Rightarrow> ros_duration"
  period_of_rate :: "real \<Rightarrow> ros_duration"

text \<open>
  The messages, with the fields the source reads. A covariance is the 36 entries of the
  message's fixed array, row by row. A detected marker is its map, sector and marker id
  and its corners in the image.
\<close>

record PoseWithCovarianceStamped =
  msg_frame_id :: string
  msg_stamp :: ros_time
  msg_pose :: tf_Pose
  msg_covariance :: "real list"

record LaserScan =
  scan_frame_id :: string
  scan_stamp :: ros_time
  angle_min :: real
  angle_increment :: real
  range_min :: real
  range_max :: real
  ranges :: "real list"

type_synonym Marcador = "int \<times> int \<times> int \<times> (real \<times> real) list"

record messagedet =
  det_frame_id :: string
  det_stamp :: ros_time
  DetectedMarkers :: "Marcador list"

record AMCLLaserData =
  ld_sensor :: nat
  ld_range_count :: nat
  ld_range_max :: real
  ld_ranges :: "(real \<times> real) list"

subsection \<open>The map\<close>

text \<open>
  \<^verbatim>\<open>map_t\<close> with the fields the node reads; \<open>cells\<close> holds each cell's
  \<^verbatim>\<open>occ_state\<close>. In the message, width and height are \<^verbatim>\<open>uint32\<close> and the occupancy
  values \<^verbatim>\<open>int8\<close>.
\<close>

record map_t =
  origin_x :: real
  origin_y :: real
  scale :: real
  size_x :: int
  size_y :: int
  cells :: "int list"

record OccupancyGrid =
  grid_frame_id :: string
  info_width :: "32 word"
  info_height :: "32 word"
  info_resolution :: real
  info_origin_x :: real
  info_origin_y :: real
  data :: "8 word list"

text \<open>
  \<^verbatim>\<open>convertMap\<close> (lines 1114-1139). The sizes are stored in \<^verbatim>\<open>int\<close> fields, so a width
  is read as a signed 32-bit value; \<^verbatim>\<open>(map->size_x / 2)\<close> divides two \<^verbatim>\<open>int\<close>s and
  truncates; the loop runs over \<^verbatim>\<open>size_x * size_y\<close> cells and reads the message's data at
  each index. Allocation is taken to succeed.
\<close>

definition int_fits :: "int \<Rightarrow> bool" where
  "int_fits k = (- (2 ^ 31) \<le> k \<and> k < 2 ^ 31)"

definition convertMap_cell :: "8 word \<Rightarrow> int" where
  "convertMap_cell b = (if b = 0 then - 1 else if b = 100 then 1 else 0)"

definition convertMap :: "OccupancyGrid \<Rightarrow> fault + map_t" where
  "convertMap map_msg =
     (let sx = sint (info_width map_msg);
          sy = sint (info_height map_msg);
          sc = info_resolution map_msg;
          n = sx * sy
      in if \<not> int_fits n then Inl SignedOverflow
         else if int (length (data map_msg)) < n
           then Inl (ReadPastEnd (length (data map_msg)) (length (data map_msg)))
         else Inr \<lparr>origin_x = info_origin_x map_msg + of_int (sx sdiv 2) * sc,
                   origin_y = info_origin_y map_msg + of_int (sy sdiv 2) * sc,
                   scale = sc, size_x = sx, size_y = sy,
                   cells = map convertMap_cell (take (nat n) (data map_msg))\<rparr>)"

text \<open>
  Modelled from the spec: the macros of \<^verbatim>\<open>map.h\<close>, which is not among the sources. The
  grid is row-major (section 6) and the origin is the world coordinate of the cell-grid
  centre (section 4.1), so cell \<open>i\<close> lies \<open>i - size_x / 2\<close> cells from the origin, the
  quotient being that of two \<^verbatim>\<open>int\<close>s as in \<^verbatim>\<open>convertMap\<close>.
\<close>

definition MAP_INDEX :: "map_t \<Rightarrow> int \<Rightarrow> int \<Rightarrow> int" where
  "MAP_INDEX m i j = i + j * size_x m"

definition MAP_WXGX :: "map_t \<Rightarrow> int \<Rightarrow> real" where
  "MAP_WXGX m i = origin_x m + of_int (i - size_x m sdiv 2) * scale m"

definition MAP_WYGY :: "map_t \<Rightarrow> int \<Rightarrow> real" where
  "MAP_WYGY m j = origin_y m + of_int (j - size_y m sdiv 2) * scale m"

text \<open>
  The index of free space that \<^verbatim>\<open>handleMapMessage\<close> builds (lines 1015-1019): the cells
  with \<^verbatim>\<open>occ_state == -1\<close>, column by column.
\<close>

definition free_space_of :: "map_t \<Rightarrow> (int \<times> int) list" where
  "free_space_of m =
     [(i, j). i \<leftarrow> [0..size_x m - 1], j \<leftarrow> [0..size_y m - 1],
              cells m ! nat (MAP_INDEX m i j) = - 1]"

text \<open>
  \<^verbatim>\<open>uniformPoseGenerator\<close> (lines 1196-1232, \<^verbatim>\<open>NEW_UNIFORM_SAMPLING\<close>). \<open>u1\<close> and \<open>u2\<close>
  are the two values \<^verbatim>\<open>drand48()\<close> returns, each in \<open>[0, 1)\<close>. The index is the product
  truncated to \<^verbatim>\<open>unsigned int\<close>; the vector is read there without a test.
\<close>

definition uniformPoseGenerator ::
    "(int \<times> int) list \<Rightarrow> map_t \<Rightarrow> real \<Rightarrow> real \<Rightarrow> fault + pf_vector_t" where
  "uniformPoseGenerator free_space_indices m u1 u2 =
     (let rand_index = nat \<lfloor>u1 * real (length free_space_indices)\<rfloor>
      in if length free_space_indices \<le> rand_index
           then Inl (ReadPastEnd rand_index (length free_space_indices))
         else let free_point = free_space_indices ! rand_index
              in Inr (MAP_WXGX m (fst free_point), MAP_WYGY m (snd free_point),
                      u2 * 2 * pi - pi))"

subsection \<open>Outside the node: parameters, library calls, effects\<close>

text \<open>
  \<^verbatim>\<open>private_nh_.param(key, variable, default)\<close>: what the parameter server answers for a
  key and a default, for each type of variable.
\<close>

record param_server =
  param_double :: "string \<Rightarrow> real \<Rightarrow> real"
  param_int :: "string \<Rightarrow> int \<Rightarrow> int"
  param_bool :: "string \<Rightarrow> bool \<Rightarrow> bool"
  param_string :: "string \<Rightarrow> string \<Rightarrow> string"

datatype laser_model_t =
    LASER_MODEL_BEAM
  | LASER_MODEL_LIKELIHOOD_FIELD
  | LASER_MODEL_LIKELIHOOD_FIELD_PROB

text \<open>
  What a handler does to the world outside the node, in the order it does it: the
  warnings and errors it logs, its calls into the particle filter and the sensor models,
  what it publishes and the transforms it broadcasts. \<open>PublishPaths\<close> stands for the two
  path publications that end a sensor callback.
\<close>

datatype event =
    ROS_WARN string
  | ROS_ERROR string
  | PfAlloc
  | PfInit pf_vector_t pf_matrix_t
  | PfInitModel "pf_vector_t list"
  | OdomSetModel
  | LaserSetModelBeam
  | LaserSetModelLikelihoodFieldProb
  | LaserSetModelLikelihoodField real
  | MarkerSetModelLikelihoodField real
  | SetLaserPose nat pf_vector_t
  | OdomUpdateAction pf_vector_t pf_vector_t
  | LaserUpdateSensor AMCLLaserData
  | MarkerUpdateSensor "Marcador list"
  | PfUpdateResample
  | PfClusterStats
  | PublishParticleCloud "pf_vector_t list"
  | PublishPose PoseWithCovarianceStamped
  | PublishPoseError nat
  | PublishYaw real
  | SendTransform StampedTransform
  | SavePoseToServer
  | PublishPaths

text \<open>
  What the outside world hands back during one sensor callback: the laser's pose in the
  base frame and the robot's pose in the odometry frame (\<open>None\<close> when the transform
  library throws), the yaws of the scan's first two beams in the base frame, the sample
  poses and the cluster statistics of the filter's current set
  (\<^verbatim>\<open>pf_get_cluster_stats\<close> per cluster, \<open>None\<close> where it fails), the set's covariance,
  the odometry-to-map pose, and the clock.
\<close>

record callback_env =
  env_laser_pose :: "tf_Pose option"
  env_odom_pose :: "tf_Pose option"
  env_base_angles :: "(real \<times> real) option"
  env_samples :: "pf_vector_t list"
  env_clusters :: "(real \<times> pf_vector_t \<times> pf_matrix_t) option list"
  env_set_cov :: pf_matrix_t
  env_odom_to_map :: "tf_Pose option"
  env_now :: ros_time

subsection \<open>The node\<close>

text \<open>
  The members of \<^verbatim>\<open>AmclNode\<close> that the handlers below read or write, under their names
  without the trailing underscore (\<open>cur_map\<close> is \<^verbatim>\<open>map_\<close>, \<open>lasers_vec\<close> is
  \<^verbatim>\<open>lasers_\<close>); \<open>free_space_indices\<close> is the static member. \<open>lasers_vec\<close> keeps each
  laser's pose once \<^verbatim>\<open>SetLaserPose\<close> has set it. \<^verbatim>\<open>AMCLConfig\<close> has the fields of the
  dynamic configuration that reach those members.
\<close>

record AMCLConfig =
  cfg_restore_defaults :: bool
  cfg_update_min_d :: real
  cfg_update_min_a :: real
  cfg_resample_interval :: int
  cfg_laser_min_range :: real
  cfg_laser_max_range :: real
  cfg_save_pose_rate :: real
  cfg_transform_tolerance :: real
  cfg_laser_model_type :: string
  cfg_tf_broadcast :: bool
  cfg_odom_frame_id :: string
  cfg_base_frame_id :: string
  cfg_global_frame_id :: string

definition AMCLConfig_zero :: AMCLConfig where
  "AMCLConfig_zero =
     \<lparr>cfg_restore_defaults = False, cfg_update_min_d = 0, cfg_update_min_a = 0,
      cfg_resample_interval = 0, cfg_laser_min_range = 0, cfg_laser_max_range = 0,
      cfg_save_pose_rate = 0, cfg_transform_tolerance = 0, cfg_laser_model_type = [],
      cfg_tf_broadcast = False, cfg_odom_frame_id = [], cfg_base_frame_id = [],
      cfg_global_frame_id = []\<rparr>"

record AmclNode =
  first_map_only :: bool
  save_pose_period :: ros_duration
  marker_coeff :: real
  laser_coeff :: real
  laser_min_range :: real
  laser_max_range :: real
  laser_model_type :: laser_model_t
  marker_model_likelihood :: bool
  d_thresh :: real
  a_thresh :: real
  odom_frame_id :: string
  base_frame_id :: string
  global_frame_id :: string
  resample_interval :: int
  transform_tolerance :: ros_duration
  tf_broadcast :: bool
  simulation :: int
  cur_map :: "map_t option"
  free_space_indices :: "(int \<times> int) list"
  lasers_vec :: "pf_vector_t option list"
  lasers_update :: "bool list"
  frame_to_laser :: "(string \<times> nat) list"
  frame_to_camera :: string
  marker_update :: bool
  pf_init :: bool
  pf_init_scan :: bool
  pf_init_cam :: bool
  pf_odom_pose :: pf_vector_t
  latest_odom_pose_scan :: pf_vector_t
  latest_odom_pose_camera :: pf_vector_t
  latest_odom_pose :: tf_Pose
  resample_count_cam :: int
  resample_count_scan :: int
  m_force_update_cam :: bool
  m_force_update_scan :: bool
  updated_scan :: bool
  updated_camera :: bool
  latest_tf :: tf_Pose
  latest_tf_valid :: bool
  sent_first_transform :: bool
  save_pose_last_time :: ros_time
  last_published_pose :: PoseWithCovarianceStamped
  initial_pose_hyp :: "(pf_vector_t \<times> pf_matrix_t) option"
  first_map_received :: bool
  first_reconfigure_call :: bool
  default_config :: AMCLConfig
  pose_ini :: tf_Pose

text \<open>
  The constructor (lines 375-628), as far as it sets the members above. Members it leaves
  unset are given a value here; each is written before it is read.
\<close>

definition laser_model_of :: "string \<Rightarrow> laser_model_t" where
  "laser_model_of tmp_model_type =
     (if tmp_model_type = ''beam'' then LASER_MODEL_BEAM
      else if tmp_model_type = ''likelihood_field'' then LASER_MODEL_LIKELIHOOD_FIELD
      else if tmp_model_type = ''likelihood_field_prob'' then LASER_MODEL_LIKELIHOOD_FIELD_PROB
      else LASER_MODEL_LIKELIHOOD_FIELD)"

definition AmclNode_new :: "ros_lib \<Rightarrow> param_server \<Rightarrow> AmclNode" where
  "AmclNode_new L P =
     \<lparr>first_map_only = param_bool P ''first_map_only'' False,
      save_pose_period = period_of_rate L (param_double P ''save_pose_rate'' 0.5),
      marker_coeff = param_double P ''camera_coeff'' 0.5,
      laser_coeff = param_double P ''camera_coeff'' 0.5,
      laser_min_range = param_double P ''laser_min_range'' (- 1.0),
      laser_max_range = param_double P ''laser_max_range'' (- 1.0),
      laser_model_type = laser_model_of (param_string P ''laser_model_type'' ''likelihood_field''),
      marker_model_likelihood =
        (param_string P ''marker_model_type'' ''observation_likelihood'' = ''observation_likelihood''),
      d_thresh = param_double P ''update_min_d'' 0.2,
      a_thresh = param_double P ''update_min_a'' (pi / 6.0),
      odom_frame_id = param_string P ''odom_frame_id'' ''odom'',
      base_frame_id = param_string P ''base_frame_id'' ''base_link'',
      global_frame_id = param_string P ''global_frame_id'' ''map'',
      resample_interval = param_int P ''resample_interval'' 2,
      transform_tolerance = fromSec L (param_double P ''transform_tolerance'' 0.1),
      tf_broadcast = param_bool P ''tf_broadcast'' True,
      simulation = param_int P ''/amcl_doris/simulation'' 0,
      cur_map = None,
      free_space_indices = [],
      lasers_vec = [],
      lasers_update = [],
      frame_to_laser = [],
      frame_to_camera = [],
      marker_update = False,
      pf_init = False,
      pf_init_scan = False,
      pf_init_cam = False,
      pf_odom_pose = pf_vector_zero,
      latest_odom_pose_scan = pf_vector_zero,
      latest_odom_pose_camera = pf_vector_zero,
      latest_odom_pose = tf_identity,
      resample_count_cam = 0,
      resample_count_scan = 0,
      m_force_update_cam = False,
      m_force_update_scan = False,
      updated_scan = False,
      updated_camera = False,
      latest_tf = tf_identity,
      latest_tf_valid = False,
      sent_first_transform = False,
      save_pose_last_time = 0,
      last_published_pose =
        \<lparr>msg_frame_id = [], msg_stamp = 0,
         msg_pose = \<lparr>rotation = (0, 0, 0, 0), origin = (0, 0, 0)\<rparr>,
         msg_covariance = replicate 36 0\<rparr>,
      initial_pose_hyp = None,
      first_map_received = False,
      first_reconfigure_call = True,
      default_config = AMCLConfig_zero,
      pose_ini = tf_identity\<rparr>"

subsection \<open>Initial pose, map and service handlers\<close>

text \<open>
  \<^verbatim>\<open>applyInitialPose\<close> (lines 1792-1806) and \<^verbatim>\<open>handleInitialPoseMessage\<close> (lines
  1711-1785). \<open>tx_lookup\<close> is what \<^verbatim>\<open>lookupTransform\<close> returns, \<open>None\<close> when it throws.
  \<open>acceptInitialPose\<close> is the part of the handler after the frame test.
\<close>

definition applyInitialPose :: "AmclNode \<Rightarrow> AmclNode \<times> event list" where
  "applyInitialPose s =
     (case initial_pose_hyp s of
        Some (pf_pose_mean, pf_pose_cov) \<Rightarrow>
          (if cur_map s \<noteq> None
           then (s\<lparr>pf_init := False, pf_init_scan := False, pf_init_cam := False,
                    initial_pose_hyp := None\<rparr>,
                 [PfInit pf_pose_mean pf_pose_cov])
           else (s, []))
      | None \<Rightarrow> (s, []))"

definition acceptInitialPose ::
    "ros_lib \<Rightarrow> AmclNode \<Rightarrow> PoseWithCovarianceStamped \<Rightarrow> tf_Pose option \<Rightarrow> AmclNode \<times> event list" where
  "acceptInitialPose L s msg tx_lookup =
     (let tx_odom = (case tx_lookup of Some t \<Rightarrow> t | None \<Rightarrow> tf_identity);
          ev1 = (case tx_lookup of
                   Some t \<Rightarrow> []
                 | None \<Rightarrow> (if sent_first_transform s
                              then [ROS_WARN ''Failed to transform initial pose in time (%s)'']
                              else []));
          pose_old = msg_pose msg;
          pose_new = compose L pose_old tx_odom;
          pf_init_pose_mean = (origin_x_of pose_new, origin_y_of pose_new, getYaw L pose_new);
          c = msg_covariance msg;
          pf_init_pose_cov = ((c ! 0, c ! 1, 0), (c ! 6, c ! 7, 0), (0, 0, c ! 35));
          s1 = s\<lparr>pose_ini := pose_new,
                 initial_pose_hyp := Some (pf_init_pose_mean, pf_init_pose_cov)\<rparr>;
          r = applyInitialPose s1
      in (fst r, ev1 @ snd r))"

definition handleInitialPoseMessage ::
    "ros_lib \<Rightarrow> AmclNode \<Rightarrow> PoseWithCovarianceStamped \<Rightarrow> tf_Pose option \<Rightarrow> AmclNode \<times> event list" where
  "handleInitialPoseMessage L s msg tx_lookup =
     (if msg_frame_id msg = []
      then (let r = acceptInitialPose L s msg tx_lookup
            in (fst r,
                ROS_WARN ''Received initial pose with empty frame_id.  You should always supply a frame_id.''
                  # snd r))
      else if resolve L (msg_frame_id msg) \<noteq> resolve L (global_frame_id s)
      then (s, [ROS_WARN ''Ignoring initial pose in frame; initial poses must be in the global frame''])
      else acceptInitialPose L s msg tx_lookup)"

text \<open>
  \<^verbatim>\<open>handleMapMessage\<close> (lines 990-1089), with \<^verbatim>\<open>updatePoseFromServer\<close> and the models it
  sets up, then \<^verbatim>\<open>mapReceived\<close> and \<^verbatim>\<open>setMapCallback\<close>.
\<close>

definition updatePoseFromServer :: "param_server \<Rightarrow> pf_vector_t \<times> pf_vector_t" where
  "updatePoseFromServer P =
     ((param_double P ''initial_pose_x'' 0.0,
       param_double P ''initial_pose_y'' 0.0,
       param_double P ''initial_pose_a'' 0.0),
      (param_double P ''initial_cov_xx'' (0.5 * 0.5),
       param_double P ''initial_cov_yy'' (0.5 * 0.5),
       param_double P ''initial_cov_aa'' ((pi / 12.0) * (pi / 12.0))))"

definition laser_model_events :: "AmclNode \<Rightarrow> event list" where
  "laser_model_events s =
     (if laser_model_type s = LASER_MODEL_BEAM then [LaserSetModelBeam]
      else if laser_model_type s = LASER_MODEL_LIKELIHOOD_FIELD_PROB
        then [LaserSetModelLikelihoodFieldProb]
      else [LaserSetModelLikelihoodField (laser_coeff s)])"

definition marker_model_events :: "AmclNode \<Rightarrow> event list" where
  "marker_model_events s =
     (if marker_model_likelihood s then [MarkerSetModelLikelihoodField (marker_coeff s)] else [])"

definition handleMapMessage ::
    "param_server \<Rightarrow> AmclNode \<Rightarrow> OccupancyGrid \<Rightarrow> fault + (AmclNode \<times> event list)" where
  "handleMapMessage P s msg =
     (let ev0 = (if grid_frame_id msg \<noteq> global_frame_id s
                 then [ROS_WARN ''Frame_id of map received does not match global_frame_id'']
                 else []);
          s1 = s\<lparr>cur_map := None, lasers_vec := [], lasers_update := [], frame_to_laser := []\<rparr>
      in case convertMap msg of
           Inl f \<Rightarrow> Inl f
         | Inr m \<Rightarrow>
             (let s2 = s1\<lparr>cur_map := Some m, free_space_indices := free_space_of m\<rparr>;
                  init = updatePoseFromServer P;
                  pf_init_pose_mean = fst init;
                  pf_init_pose_cov =
                    ((v0 (snd init), 0, 0), (0, v1 (snd init), 0), (0, 0, v2 (snd init)));
                  s3 = s2\<lparr>pf_init := False, pf_init_scan := False, pf_init_cam := False\<rparr>;
                  r = applyInitialPose s3
              in Inr (fst r,
                      ev0 @ [PfAlloc, PfInit pf_init_pose_mean pf_init_pose_cov, OdomSetModel]
                        @ laser_model_events s3 @ marker_model_events s3 @ snd r)))"

definition mapReceived ::
    "param_server \<Rightarrow> AmclNode \<Rightarrow> OccupancyGrid \<Rightarrow> fault + (AmclNode \<times> event list)" where
  "mapReceived P s msg =
     (if first_map_only s \<and> first_map_received s then Inr (s, [])
      else case handleMapMessage P s msg of
             Inl f \<Rightarrow> Inl f
           | Inr r \<Rightarrow> Inr ((fst r)\<lparr>first_map_received := True\<rparr>, snd r))"

definition setMapCallback ::
    "ros_lib \<Rightarrow> param_server \<Rightarrow> AmclNode \<Rightarrow> OccupancyGrid \<Rightarrow> PoseWithCovarianceStamped
      \<Rightarrow> tf_Pose option \<Rightarrow> fault + (AmclNode \<times> event list)" where
  "setMapCallback L P s req_map req_initial_pose tx_lookup =
     (case handleMapMessage P s req_map of
        Inl f \<Rightarrow> Inl f
      | Inr r \<Rightarrow>
          (let r' = handleInitialPoseMessage L (fst r) req_initial_pose tx_lookup
           in Inr (fst r', snd r @ snd r')))"

text \<open>
  Modelled from the spec: \<^verbatim>\<open>pf_init_model\<close> (\<^verbatim>\<open>pf.c\<close>) is not among the sources. It draws
  each sample of the set from the generator (section 4.2, \<open>init_from_fn\<close>); \<open>draws\<close>
  holds the pair of \<^verbatim>\<open>drand48()\<close> values of each draw.
  \<^verbatim>\<open>globalLocalizationCallback\<close> is lines 1234-1250, \<^verbatim>\<open>nomotionUpdateCallback\<close> lines
  1253-1261.
\<close>

fun pf_init_model :: "(int \<times> int) list \<Rightarrow> map_t \<Rightarrow> (real \<times> real) list \<Rightarrow> fault + pf_vector_t list" where
  "pf_init_model fsi m [] = Inr []"
| "pf_init_model fsi m (u # us) =
     (case uniformPoseGenerator fsi m (fst u) (snd u) of
        Inl f \<Rightarrow> Inl f
      | Inr p \<Rightarrow>
          (case pf_init_model fsi m us of
             Inl f \<Rightarrow> Inl f
           | Inr ps \<Rightarrow> Inr (p # ps)))"

definition globalLocalizationCallback ::
    "AmclNode \<Rightarrow> (real \<times> real) list \<Rightarrow> fault + (bool \<times> AmclNode \<times> event list)" where
  "globalLocalizationCallback s draws =
     (case cur_map s of
        None \<Rightarrow> Inr (True, s, [])
      | Some m \<Rightarrow>
          (case pf_init_model (free_space_indices s) m draws of
             Inl f \<Rightarrow> Inl f
           | Inr samples \<Rightarrow>
               Inr (True,
                    s\<lparr>pf_init := False, pf_init_scan := False, pf_init_cam := False\<rparr>,
                    [PfInitModel samples])))"

definition nomotionUpdateCallback :: "AmclNode \<Rightarrow> bool \<times> AmclNode" where
  "nomotionUpdateCallback s = (True, s\<lparr>m_force_update_scan := True, m_force_update_cam := True\<rparr>)"

text \<open>
  \<^verbatim>\<open>reconfigureCB\<close> (lines 630-792).
\<close>

definition reconfigureCB :: "ros_lib \<Rightarrow> AmclNode \<Rightarrow> AMCLConfig \<Rightarrow> AmclNode \<times> event list" where
  "reconfigureCB L s config0 =
     (if first_reconfigure_call s
      then (s\<lparr>first_reconfigure_call := False, default_config := config0\<rparr>, [])
      else
        (let config = (if cfg_restore_defaults config0
                       then (default_config s)\<lparr>cfg_restore_defaults := False\<rparr>
                       else config0);
             s1 = s\<lparr>d_thresh := cfg_update_min_d config,
                    a_thresh := cfg_update_min_a config,
                    resample_interval := cfg_resample_interval config,
                    laser_min_range := cfg_laser_min_range config,
                    laser_max_range := cfg_laser_max_range config,
                    save_pose_period := period_of_rate L (cfg_save_pose_rate config),
                    transform_tolerance := fromSec L (cfg_transform_tolerance config),
                    laser_model_type :=
                      (if cfg_laser_model_type config = ''beam'' then LASER_MODEL_BEAM
                       else if cfg_laser_model_type config = ''likelihood_field''
                         then LASER_MODEL_LIKELIHOOD_FIELD
                       else if cfg_laser_model_type config = ''likelihood_field_prob''
                         then LASER_MODEL_LIKELIHOOD_FIELD_PROB
                       else laser_model_type s),
                    tf_broadcast := cfg_tf_broadcast config\<rparr>;
             p = last_published_pose s1;
             c = msg_covariance p;
             pf_init_pose_mean =
               (origin_x_of (msg_pose p), origin_y_of (msg_pose p), getYaw L (msg_pose p));
             pf_init_pose_cov = ((c ! 0, 0, 0), (0, c ! 7, 0), (0, 0, c ! 35));
             s2 = s1\<lparr>pf_init_scan := False, pf_init_cam := False\<rparr>;
             s3 = s2\<lparr>odom_frame_id := cfg_odom_frame_id config,
                     base_frame_id := cfg_base_frame_id config,
                     global_frame_id := cfg_global_frame_id config\<rparr>
         in (s3,
             [PfAlloc, PfInit pf_init_pose_mean pf_init_pose_cov, OdomSetModel]
               @ laser_model_events s2 @ marker_model_events s3)))"

subsection \<open>What the two sensor callbacks share\<close>

text \<open>
  A block of a callback ends in a fault, in a \<^verbatim>\<open>return\<close> out of the callback, or runs on
  with its local variables.
\<close>

datatype 'a flow =
    Fault fault
  | Return AmclNode "event list"
  | Running AmclNode "event list" 'a

text \<open>
  \<^verbatim>\<open>getOdomPose\<close> (lines 1154-1193); the test of the update thresholds and the pose
  difference both callbacks compute; the loop that reads the cluster statistics and keeps
  the heaviest (it stops at the first cluster whose statistics cannot be read); the pose
  message; the periodic save of the pose.
\<close>

definition getOdomPose ::
    "ros_lib \<Rightarrow> AmclNode \<Rightarrow> tf_Pose option \<Rightarrow> AmclNode \<times> event list \<times> pf_vector_t option" where
  "getOdomPose L s tf_result =
     (case tf_result of
        None \<Rightarrow> (s, [ROS_WARN ''Failed to compute odom pose, skipping scan (%s)''], None)
      | Some odom_pose \<Rightarrow>
          (s\<lparr>latest_odom_pose := odom_pose\<rparr>, [],
           Some (origin_x_of odom_pose, origin_y_of odom_pose, getYaw L odom_pose)))"

definition exceeds_thresholds :: "AmclNode \<Rightarrow> pf_vector_t \<Rightarrow> bool" where
  "exceeds_thresholds s delta_update =
     (\<bar>v0 delta_update\<bar> > d_thresh s \<or> \<bar>v1 delta_update\<bar> > d_thresh s
      \<or> \<bar>v2 delta_update\<bar> > a_thresh s)"

definition pose_delta :: "pf_vector_t \<Rightarrow> pf_vector_t \<Rightarrow> pf_vector_t" where
  "pose_delta pose last_pose =
     (v0 pose - v0 last_pose, v1 pose - v1 last_pose, angle_diff (v2 pose) (v2 last_pose))"

fun read_hyps ::
    "(real \<times> pf_vector_t \<times> pf_matrix_t) option list \<Rightarrow> real \<Rightarrow> (pf_vector_t \<times> pf_matrix_t) option
      \<Rightarrow> real \<times> (pf_vector_t \<times> pf_matrix_t) option \<times> event list" where
  "read_hyps [] max_weight best = (max_weight, best, [])"
| "read_hyps (None # cs) max_weight best =
     (max_weight, best, [ROS_ERROR ''Couldn't get stats on cluster %d''])"
| "read_hyps (Some (weight, pose_mean, pose_cov) # cs) max_weight best =
     (if weight > max_weight then read_hyps cs weight (Some (pose_mean, pose_cov))
      else read_hyps cs max_weight best)"

definition pose_message ::
    "AmclNode \<Rightarrow> ros_time \<Rightarrow> pf_vector_t \<Rightarrow> pf_matrix_t \<Rightarrow> PoseWithCovarianceStamped" where
  "pose_message s stamp pf_pose_mean cov =
     \<lparr>msg_frame_id = global_frame_id s,
      msg_stamp = stamp,
      msg_pose = \<lparr>rotation = createQuaternionFromYaw (v2 pf_pose_mean),
                  origin = (v0 pf_pose_mean, v1 pf_pose_mean, 0)\<rparr>,
      msg_covariance =
        (replicate 36 0)[0 := m_at cov 0 0, 1 := m_at cov 0 1, 6 := m_at cov 1 0,
                         7 := m_at cov 1 1, 35 := m_at cov 2 2]\<rparr>"

definition save_pose_if_due :: "AmclNode \<Rightarrow> ros_time \<Rightarrow> AmclNode \<times> event list" where
  "save_pose_if_due s now =
     (if save_pose_period s > 0 \<and> now - save_pose_last_time s \<ge> save_pose_period s
      then (s\<lparr>save_pose_last_time := now\<rparr>, [SavePoseToServer])
      else (s, []))"

subsection \<open>The laser callback\<close>

text \<open>
  \<^verbatim>\<open>laserReceived\<close> (lines 1273-1692), block by block: the laser's index (lines
  1281-1323), the update test (1337-1360), the first cycle or the motion update
  (1362-1398), the sensor update with resampling (1400-1500), the publication
  (1502-1672).
\<close>

definition laser_lookup :: "AmclNode \<Rightarrow> LaserScan \<Rightarrow> callback_env \<Rightarrow> nat flow" where
  "laser_lookup s laser_scan env =
     (case map_of (frame_to_laser s) (scan_frame_id laser_scan) of
        None \<Rightarrow>
          (let s1 = s\<lparr>lasers_vec := lasers_vec s @ [None],
                       lasers_update := lasers_update s @ [True]\<rparr>;
               laser_index = length (frame_to_laser s)
           in case env_laser_pose env of
                None \<Rightarrow>
                  Return s1 [ROS_ERROR ''Couldn't transform from %s to %s, even though the message notifier is in use'']
              | Some laser_pose \<Rightarrow>
                  (let laser_pose_v = (origin_x_of laser_pose, origin_y_of laser_pose, 0)
                   in if length (lasers_vec s1) \<le> laser_index
                        then Fault (ReadPastEnd laser_index (length (lasers_vec s1)))
                      else Running
                             (s1\<lparr>lasers_vec := (lasers_vec s1)[laser_index := Some laser_pose_v],
                                 frame_to_laser :=
                                   frame_to_laser s1 @ [(scan_frame_id laser_scan, laser_index)]\<rparr>)
                             [SetLaserPose laser_index laser_pose_v]
                             laser_index))
      | Some laser_index \<Rightarrow> Running s [] laser_index)"

definition laser_gate :: "AmclNode \<Rightarrow> pf_vector_t \<Rightarrow> AmclNode \<times> pf_vector_t" where
  "laser_gate s pose =
     (if pf_init_scan s
      then (let delta = pose_delta pose (pf_odom_pose s);
                delta_update = pose_delta pose (latest_odom_pose_scan s);
                update = (exceeds_thresholds s delta_update \<or> m_force_update_scan s);
                s1 = s\<lparr>m_force_update_scan := False\<rparr>
            in (if update
                then s1\<lparr>lasers_update := map (\<lambda>b. True) (lasers_update s1)\<rparr>
                else s1,
                delta))
      else (s, pf_vector_zero))"

definition laser_init_or_motion ::
    "AmclNode \<Rightarrow> nat \<Rightarrow> pf_vector_t \<Rightarrow> pf_vector_t \<Rightarrow> bool flow" where
  "laser_init_or_motion s laser_index pose delta =
     (if \<not> pf_init_scan s
      then Running
             (s\<lparr>pf_odom_pose := pose, latest_odom_pose_scan := pose, pf_init_scan := True,
                lasers_update := map (\<lambda>b. True) (lasers_update s),
                resample_count_scan := 0\<rparr>)
             [] True
      else if length (lasers_update s) \<le> laser_index
        then Fault (ReadPastEnd laser_index (length (lasers_update s)))
      else if lasers_update s ! laser_index
        then Running s [OdomUpdateAction pose delta] False
      else Running s [] False)"

definition fmod :: "real \<Rightarrow> real \<Rightarrow> real" where
  "fmod x y = x - y * of_int (if 0 \<le> x / y then \<lfloor>x / y\<rfloor> else \<lceil>x / y\<rceil>)"

text \<open>
  The cast \<^verbatim>\<open>(float)\<close> of a \<^verbatim>\<open>double\<close>: the nearest single-precision value, a multiple of
  the unit in the last place of the value's binade (24 bits of precision, exponents from
  -126 to 127, smaller values on the subnormal grid), ties to the even multiple. A value
  beyond the finite floats is cast to an infinity, which is \<open>None\<close> here.
\<close>

fun float_exponent_from :: "nat \<Rightarrow> int \<Rightarrow> real \<Rightarrow> int" where
  "float_exponent_from 0 e x = e"
| "float_exponent_from (Suc n) e x =
     (if 2 powi (e + 1) \<le> x then float_exponent_from n (e + 1) x else e)"

definition float_exponent :: "real \<Rightarrow> int" where
  "float_exponent x = float_exponent_from 253 (- 126) \<bar>x\<bar>"

definition round_half_even :: "real \<Rightarrow> int" where
  "round_half_even q =
     (let f = \<lfloor>q\<rfloor>; d = q - of_int f
      in if d < 1 / 2 then f else if d > 1 / 2 then f + 1 else if even f then f else f + 1)"

definition float_cast :: "real \<Rightarrow> real option" where
  "float_cast x =
     (let ulp = 2 powi (float_exponent x - 23);
          f = of_int (round_half_even (x / ulp)) * ulp
      in if \<bar>f\<bar> < 2 ^ 128 then Some f else None)"

text \<open>
  The range limits of lines 1440-1448. The configured limits are doubles and are cast to
  \<^verbatim>\<open>float\<close> before \<^verbatim>\<open>std::min\<close> and \<^verbatim>\<open>std::max\<close> compare them with the scan's limits,
  which are floats. A configured maximum whose cast is infinite leaves the scan's maximum;
  a configured minimum whose cast is infinite gives an infinite \<^verbatim>\<open>range_min\<close>, \<open>None\<close> here,
  and every reading is at most that.
\<close>

definition effective_range_max :: "AmclNode \<Rightarrow> LaserScan \<Rightarrow> real" where
  "effective_range_max s laser_scan =
     (if laser_max_range s > 0.0
      then (case float_cast (laser_max_range s) of
              Some laser_max_range_f \<Rightarrow> min (range_max laser_scan) laser_max_range_f
            | None \<Rightarrow> range_max laser_scan)
      else range_max laser_scan)"

definition effective_range_min :: "AmclNode \<Rightarrow> LaserScan \<Rightarrow> real option" where
  "effective_range_min s laser_scan =
     (if laser_min_range s > 0.0
      then (case float_cast (laser_min_range s) of
              Some laser_min_range_f \<Rightarrow> Some (max (range_min laser_scan) laser_min_range_f)
            | None \<Rightarrow> None)
      else Some (range_min laser_scan))"

definition at_most_range_min :: "real \<Rightarrow> real option \<Rightarrow> bool" where
  "at_most_range_min r rmin = (case rmin of Some m \<Rightarrow> r \<le> m | None \<Rightarrow> True)"

definition laser_data ::
    "AmclNode \<Rightarrow> LaserScan \<Rightarrow> nat \<Rightarrow> real \<Rightarrow> real \<Rightarrow> AMCLLaserData" where
  "laser_data s laser_scan laser_index angle_min_base angle_increment_base =
     (let ld_max = effective_range_max s laser_scan;
          rmin = effective_range_min s laser_scan
      in \<lparr>ld_sensor = laser_index,
          ld_range_count = length (ranges laser_scan),
          ld_range_max = ld_max,
          ld_ranges =
            map (\<lambda>ir. (if at_most_range_min (snd ir) rmin then ld_max else snd ir,
                        angle_min_base + real (fst ir) * angle_increment_base))
                (enumerate 0 (ranges laser_scan))\<rparr>)"

definition laser_sensor_update ::
    "AmclNode \<Rightarrow> LaserScan \<Rightarrow> callback_env \<Rightarrow> nat \<Rightarrow> pf_vector_t \<Rightarrow> bool flow" where
  "laser_sensor_update s laser_scan env laser_index pose =
     (if length (lasers_update s) \<le> laser_index
        then Fault (ReadPastEnd laser_index (length (lasers_update s)))
      else if lasers_update s ! laser_index
        then (case env_base_angles env of
                None \<Rightarrow>
                  Return s [ROS_WARN ''Unable to transform min/max laser angles into base frame: %s'']
              | Some yaws \<Rightarrow>
                  (let angle_min_base = fst yaws;
                       angle_increment_base =
                         fmod (snd yaws - angle_min_base + 5 * pi) (2 * pi) - pi;
                       ldata = laser_data s laser_scan laser_index angle_min_base angle_increment_base;
                       s1 = s\<lparr>updated_scan := True,
                              lasers_update := (lasers_update s)[laser_index := False],
                              latest_odom_pose_scan := pose,
                              pf_odom_pose := pose\<rparr>
                   in Running s1
                        ([LaserUpdateSensor ldata, PfUpdateResample]
                           @ (if \<not> m_force_update_scan s1
                              then [PublishParticleCloud (env_samples env)] else []))
                        True))
      else Running s [] False)"

definition laser_publish ::
    "AmclNode \<Rightarrow> LaserScan \<Rightarrow> callback_env \<Rightarrow> bool \<Rightarrow> bool \<Rightarrow> unit flow" where
  "laser_publish s laser_scan env resampled force_publication =
     (if resampled \<or> force_publication
      then (let ev0 = (if \<not> resampled then [PfClusterStats] else []);
                h = read_hyps (env_clusters env) 0.0 None;
                max_weight = fst h;
                ev1 = snd (snd h)
            in if max_weight > 0.0
               then (case fst (snd h) of
                       None \<Rightarrow> Running s (ev0 @ ev1) ()
                     | Some hyp \<Rightarrow>
                         (let p = pose_message s (scan_stamp laser_scan) (fst hyp) (env_set_cov env);
                              s1 = s\<lparr>last_published_pose := p\<rparr>;
                              ev2 = [PublishPoseError 0, PublishPose p]
                          in case env_odom_to_map env of
                               None \<Rightarrow> Return s1 (ev0 @ ev1 @ ev2)
                             | Some odom_to_map \<Rightarrow>
                                 (let s2 = s1\<lparr>latest_tf := odom_to_map, latest_tf_valid := True\<rparr>
                                  in if tf_broadcast s2
                                     then (let transform_expiration =
                                                 scan_stamp laser_scan + transform_tolerance s2;
                                               tmp_tf_stamped =
                                                 \<lparr>st_transform = Inverse (latest_tf s2),
                                                  st_stamp = transform_expiration,
                                                  st_frame_id = global_frame_id s2,
                                                  st_child_frame_id = odom_frame_id s2\<rparr>
                                           in Running (s2\<lparr>sent_first_transform := True\<rparr>)
                                                (ev0 @ ev1 @ ev2 @ [SendTransform tmp_tf_stamped]) ())
                                     else Running s2 (ev0 @ ev1 @ ev2) ())))
               else Running s (ev0 @ ev1 @ [ROS_ERROR ''No pose!'']) ())
      else if latest_tf_valid s
      then (let ev0 = (if tf_broadcast s
                       then [SendTransform
                               \<lparr>st_transform = Inverse (latest_tf s),
                                st_stamp = scan_stamp laser_scan + transform_tolerance s,
                                st_frame_id = global_frame_id s,
                                st_child_frame_id = odom_frame_id s\<rparr>]
                       else []);
                r = save_pose_if_due s (env_now env)
            in Running (fst r) (ev0 @ snd r) ())
      else Running s [] ())"

definition laserReceived ::
    "ros_lib \<Rightarrow> AmclNode \<Rightarrow> LaserScan \<Rightarrow> callback_env \<Rightarrow> fault + (AmclNode \<times> event list)" where
  "laserReceived L s laser_scan env =
     (if cur_map s = None then Inr (s, [])
      else
        (case laser_lookup s laser_scan env of
           Fault f \<Rightarrow> Inl f
         | Return s1 ev1 \<Rightarrow> Inr (s1, ev1)
         | Running s1 ev1 laser_index \<Rightarrow>
             (case getOdomPose L s1 (env_odom_pose env) of
                (s2, ev2, None) \<Rightarrow>
                  Inr (s2, ev1 @ ev2
                         @ [ROS_ERROR ''Couldn't determine robot's pose associated with laser scan''])
              | (s2, ev2, Some pose) \<Rightarrow>
                  (case laser_gate s2 pose of
                     (s3, delta) \<Rightarrow>
                       (case laser_init_or_motion s3 laser_index pose delta of
                          Fault f \<Rightarrow> Inl f
                        | Return s4 ev4 \<Rightarrow> Inr (s4, ev1 @ ev2 @ ev4)
                        | Running s4 ev4 force_publication \<Rightarrow>
                            (case laser_sensor_update s4 laser_scan env laser_index pose of
                               Fault f \<Rightarrow> Inl f
                             | Return s5 ev5 \<Rightarrow> Inr (s5, ev1 @ ev2 @ ev4 @ ev5)
                             | Running s5 ev5 resampled \<Rightarrow>
                                 (case laser_publish s5 laser_scan env resampled force_publication of
                                    Fault f \<Rightarrow> Inl f
                                  | Return s6 ev6 \<Rightarrow> Inr (s6, ev1 @ ev2 @ ev4 @ ev5 @ ev6)
                                  | Running s6 ev6 u \<Rightarrow>
                                      Inr (s6, ev1 @ ev2 @ ev4 @ ev5 @ ev6 @ [PublishPaths]))))))))"

subsection \<open>The marker callback\<close>

text \<open>
  \<^verbatim>\<open>detectionCallback\<close> (lines 1911-2257), block by block: the camera frame (lines
  1943-1950), the update test (1961-1988), the first cycle or the motion update
  (1991-2016), the sensor update with resampling (2017-2063), the publication
  (2064-2230).
\<close>

definition camera_lookup :: "AmclNode \<Rightarrow> messagedet \<Rightarrow> AmclNode" where
  "camera_lookup s msg =
     (if frame_to_camera s \<noteq> det_frame_id msg
      then s\<lparr>marker_update := True, frame_to_camera := det_frame_id msg\<rparr>
      else s)"

definition camera_gate :: "AmclNode \<Rightarrow> pf_vector_t \<Rightarrow> AmclNode \<times> pf_vector_t" where
  "camera_gate s pose =
     (if pf_init_cam s
      then (let delta = pose_delta pose (pf_odom_pose s);
                delta_update = pose_delta pose (latest_odom_pose_camera s);
                update = (exceeds_thresholds s delta_update \<or> m_force_update_cam s);
                s1 = s\<lparr>m_force_update_cam := False\<rparr>
            in (if update then s1\<lparr>marker_update := True\<rparr> else s1, delta))
      else (s, pf_vector_zero))"

definition camera_init_or_motion ::
    "AmclNode \<Rightarrow> pf_vector_t \<Rightarrow> pf_vector_t \<Rightarrow> AmclNode \<times> event list \<times> bool" where
  "camera_init_or_motion s pose delta =
     (if \<not> pf_init_cam s
      then (s\<lparr>pf_odom_pose := pose, latest_odom_pose_camera := pose, pf_init_cam := True,
               marker_update := True, resample_count_cam := 0\<rparr>,
            [], True)
      else if marker_update s
        then (s, [OdomUpdateAction pose delta], False)
      else (s, [], False))"

definition camera_sensor_update ::
    "AmclNode \<Rightarrow> Marcador list \<Rightarrow> callback_env \<Rightarrow> pf_vector_t \<Rightarrow> bool flow" where
  "camera_sensor_update s observation env pose =
     (if marker_update s
      then (let ev0 = (if observation \<noteq> [] then [MarkerUpdateSensor observation] else []);
                s1 = (if observation \<noteq> [] then s\<lparr>updated_camera := True\<rparr> else s);
                s2 = s1\<lparr>latest_odom_pose_camera := pose, pf_odom_pose := pose,
                        marker_update := False\<rparr>;
                count = resample_count_cam s2 + 1
            in if \<not> int_fits count then Fault SignedOverflow
               else if resample_interval s2 = 0 then Fault DivisionByZero
               else (let s3 = s2\<lparr>resample_count_cam := count\<rparr>;
                         ev1 = (if count smod resample_interval s3 = 0
                                then [PfUpdateResample] else []);
                         ev2 = (if \<not> m_force_update_cam s3
                                then [PublishParticleCloud (env_samples env)] else [])
                     in Running s3 (ev0 @ ev1 @ ev2) True))
      else Running s [] False)"

definition camera_publish ::
    "AmclNode \<Rightarrow> messagedet \<Rightarrow> Marcador list \<Rightarrow> callback_env \<Rightarrow> bool \<Rightarrow> bool \<Rightarrow> unit flow" where
  "camera_publish s msg observation env resampled force_publication =
     (if resampled \<or> force_publication
      then (let ev0 = (if \<not> resampled then [PfClusterStats] else []);
                h = read_hyps (env_clusters env) 0.0 None;
                max_weight = fst h;
                ev1 = snd (snd h)
            in if max_weight > 0.0
               then (case fst (snd h) of
                       None \<Rightarrow> Running s (ev0 @ ev1) ()
                     | Some hyp \<Rightarrow>
                         (let p = pose_message s (det_stamp msg) (fst hyp) (env_set_cov env);
                              ev2 = [PublishPose p]
                                 @ (if simulation s = 1
                                    then [PublishPoseError (length observation)] else [])
                                 @ (if simulation s = 0 then [PublishYaw (v2 (fst hyp))] else []);
                              s1 = s\<lparr>last_published_pose := p\<rparr>
                          in case env_odom_to_map env of
                               None \<Rightarrow> Return s1 (ev0 @ ev1 @ ev2)
                             | Some odom_to_map \<Rightarrow>
                                 (let s2 = s1\<lparr>latest_tf := odom_to_map, latest_tf_valid := True\<rparr>
                                  in if tf_broadcast s2
                                     then (let tmp_tf_stamped =
                                                 \<lparr>st_transform = Inverse (latest_tf s2),
                                                  st_stamp = det_stamp msg,
                                                  st_frame_id = global_frame_id s2,
                                                  st_child_frame_id = odom_frame_id s2\<rparr>;
                                               tmp_tf_stamped2 =
                                                 \<lparr>st_transform = Plain (latest_tf s2),
                                                  st_stamp = det_stamp msg,
                                                  st_frame_id = odom_frame_id s2,
                                                  st_child_frame_id = global_frame_id s2\<rparr>
                                           in Running (s2\<lparr>sent_first_transform := True\<rparr>)
                                                (ev0 @ ev1 @ ev2
                                                   @ [SendTransform tmp_tf_stamped,
                                                      SendTransform tmp_tf_stamped2]) ())
                                     else Running s2 (ev0 @ ev1 @ ev2) ())))
               else Running s (ev0 @ ev1 @ [ROS_ERROR ''No pose!'']) ())
      else if latest_tf_valid s
      then (let transform_expiration = det_stamp msg + transform_tolerance s;
                ev0 = (if tf_broadcast s
                       then [SendTransform
                               \<lparr>st_transform = Inverse (latest_tf s),
                                st_stamp = transform_expiration,
                                st_frame_id = global_frame_id s,
                                st_child_frame_id = odom_frame_id s\<rparr>,
                             SendTransform
                               \<lparr>st_transform = Plain (latest_tf s),
                                st_stamp = transform_expiration,
                                st_frame_id = odom_frame_id s,
                                st_child_frame_id = global_frame_id s\<rparr>]
                       else []);
                r = save_pose_if_due s (env_now env)
            in Running (fst r) (ev0 @ snd r) ())
      else Running s [] ())"

definition observation_of :: "messagedet \<Rightarrow> Marcador list" where
  "observation_of msg =
     map (\<lambda>d. (fst d, fst (snd d), fst (snd (snd d)), take 4 (snd (snd (snd d)))))
         (DetectedMarkers msg)"

definition detectionCallback ::
    "ros_lib \<Rightarrow> AmclNode \<Rightarrow> messagedet \<Rightarrow> callback_env \<Rightarrow> fault + (AmclNode \<times> event list)" where
  "detectionCallback L s msg env =
     (if cur_map s = None then Inr (s, [])
      else
        (let observation = observation_of msg;
             s1 = camera_lookup s msg
         in case getOdomPose L s1 (env_odom_pose env) of
              (s2, ev2, None) \<Rightarrow>
                Inr (s2, ev2
                       @ [ROS_ERROR ''Couldn't determine robot's pose associated with camera info''])
            | (s2, ev2, Some pose) \<Rightarrow>
                (case camera_gate s2 pose of
                   (s3, delta) \<Rightarrow>
                     (case camera_init_or_motion s3 pose delta of
                        (s4, ev4, force_publication) \<Rightarrow>
                          (case camera_sensor_update s4 observation env pose of
                             Fault f \<Rightarrow> Inl f
                           | Return s5 ev5 \<Rightarrow> Inr (s5, ev2 @ ev4 @ ev5)
                           | Running s5 ev5 resampled \<Rightarrow>
                               (case camera_publish s5 msg observation env resampled
                                       force_publication of
                                  Fault f \<Rightarrow> Inl f
                                | Return s6 ev6 \<Rightarrow> Inr (s6, ev2 @ ev4 @ ev5 @ ev6)
                                | Running s6 ev6 u \<Rightarrow>
                                    Inr (s6, ev2 @ ev4 @ ev5 @ ev6 @ [PublishPaths])))))))"

subsection \<open>The states the node can reach\<close>

text \<open>
  The members no sensor callback writes: the fusion coefficients, the range limits, the
  thresholds, the resampling interval, the transform settings, the frames, the map and
  its free-cell index.
\<close>

definition setup_of ::
    "AmclNode \<Rightarrow> (real \<times> real) \<times> (real \<times> real) \<times> (real \<times> real) \<times> int
       \<times> (ros_duration \<times> bool) \<times> (string \<times> string \<times> string) \<times> map_t option
       \<times> (int \<times> int) list \<times> int" where
  "setup_of s =
     ((marker_coeff s, laser_coeff s), (laser_min_range s, laser_max_range s),
      (d_thresh s, a_thresh s), resample_interval s,
      (transform_tolerance s, tf_broadcast s),
      (global_frame_id s, odom_frame_id s, base_frame_id s), cur_map s,
      free_space_indices s, simulation s)"

subsection \<open>Notions the properties are stated with\<close>

text \<open>
  Sensor scoring is the call of a sensor model's \<^verbatim>\<open>UpdateSensor\<close>; resampling is the call
  of \<^verbatim>\<open>pf_update_resample\<close>.
\<close>

fun is_laser_scoring :: "event \<Rightarrow> bool" where
  "is_laser_scoring (LaserUpdateSensor ldata) = True"
| "is_laser_scoring e = False"

fun is_marker_scoring :: "event \<Rightarrow> bool" where
  "is_marker_scoring (MarkerUpdateSensor observation) = True"
| "is_marker_scoring e = False"

fun is_resample :: "event \<Rightarrow> bool" where
  "is_resample PfUpdateResample = True"
| "is_resample e = False"

fun is_pose_publication :: "event \<Rightarrow> bool" where
  "is_pose_publication (PublishPose p) = True"
| "is_pose_publication e = False"

fun is_cluster_stats :: "event \<Rightarrow> bool" where
  "is_cluster_stats PfClusterStats = True"
| "is_cluster_stats e = False"

fun is_send_transform :: "event \<Rightarrow> bool" where
  "is_send_transform (SendTransform t) = True"
| "is_send_transform e = False"

text \<open>The stamps of the transforms a handler broadcasts, in the order it sends them.\<close>

fun broadcast_stamps :: "event list \<Rightarrow> ros_time list" where
  "broadcast_stamps [] = []"
| "broadcast_stamps (SendTransform t # evs) = st_stamp t # broadcast_stamps evs"
| "broadcast_stamps (e # evs) = broadcast_stamps evs"

text \<open>
  The update flag of the laser a scan comes from, as the callback finds it: a frame seen
  for the first time gets a new flag, which is set.
\<close>

definition laser_pending :: "AmclNode \<Rightarrow> LaserScan \<Rightarrow> bool" where
  "laser_pending s laser_scan =
     (case map_of (frame_to_laser s) (scan_frame_id laser_scan) of
        None \<Rightarrow> True
      | Some laser_index \<Rightarrow> lasers_update s ! laser_index)"

text \<open>
  The three laser containers fit together: a flag and a slot per laser, every index of
  the frame table below the table's size, and every flag beyond the table set.
\<close>

definition lasers_fit :: "AmclNode \<Rightarrow> bool" where
  "lasers_fit s =
     (length (lasers_vec s) = length (lasers_update s)
      \<and> length (frame_to_laser s) \<le> length (lasers_update s)
      \<and> list_all (\<lambda>fk. snd fk < length (frame_to_laser s)) (frame_to_laser s)
      \<and> list_all (\<lambda>b. b) (drop (length (frame_to_laser s)) (lasers_update s)))"

text \<open>The three laser containers, which only the laser callback and a new map write.\<close>

definition laser_tables_of ::
    "AmclNode \<Rightarrow> pf_vector_t option list \<times> bool list \<times> (string \<times> nat) list" where
  "laser_tables_of s = (lasers_vec s, lasers_update s, frame_to_laser s)"

text \<open>
  The odometric pose a callback works with, and whether it differs from the pose of a
  sensor's last update by more than the thresholds.
\<close>

definition pose_of :: "ros_lib \<Rightarrow> tf_Pose \<Rightarrow> pf_vector_t" where
  "pose_of L odom_pose = (origin_x_of odom_pose, origin_y_of odom_pose, getYaw L odom_pose)"

definition moved :: "AmclNode \<Rightarrow> pf_vector_t \<Rightarrow> pf_vector_t \<Rightarrow> bool" where
  "moved s pose last_pose = exceeds_thresholds s (pose_delta pose last_pose)"

text \<open>
  The node's states: the one the constructor builds, and every state a handler leaves.
\<close>

inductive reachable :: "ros_lib \<Rightarrow> AmclNode \<Rightarrow> bool" for L :: ros_lib where
  constructed: "reachable L (AmclNode_new L P)"
| laser: "reachable L s \<Longrightarrow> laserReceived L s laser_scan env = Inr (s', evs) \<Longrightarrow> reachable L s'"
| detection: "reachable L s \<Longrightarrow> detectionCallback L s msg env = Inr (s', evs) \<Longrightarrow> reachable L s'"
| initial_pose:
    "reachable L s \<Longrightarrow> handleInitialPoseMessage L s pose_msg tx_lookup = (s', evs) \<Longrightarrow> reachable L s'"
| map_received: "reachable L s \<Longrightarrow> mapReceived P s map_msg = Inr (s', evs) \<Longrightarrow> reachable L s'"
| set_map:
    "reachable L s \<Longrightarrow> setMapCallback L P s map_msg pose_msg tx_lookup = Inr (s', evs)
      \<Longrightarrow> reachable L s'"
| global_localization:
    "reachable L s \<Longrightarrow> globalLocalizationCallback s draws = Inr (ok, s', evs) \<Longrightarrow> reachable L s'"
| nomotion_update: "reachable L s \<Longrightarrow> nomotionUpdateCallback s = (ok, s') \<Longrightarrow> reachable L s'"
| reconfigure: "reachable L s \<Longrightarrow> reconfigureCB L s config = (s', evs) \<Longrightarrow> reachable L s'"

subsection \<open>Sample inputs\<close>

text \<open>
  Concrete inputs for the witnesses and counterexamples: a library whose \<^verbatim>\<open>resolve\<close> is
  the identity, a parameter server that holds no key (every read gives the default), a
  grid of three cells, one free, one occupied, one unknown, and a grid of one occupied
  cell; a node that has its map and has completed a cycle of the laser \<open>laser_a\<close> and
  of the camera, and the same node after a no-motion update was requested; scans of that
  laser and of another, a detection of one marker, and an empty detection; an initial pose
  with an empty frame id and one in the odometry frame. Then the odometric pose one metre
  further along x; and a node configured with a minimum laser range of 0.1, with a scan
  whose first reading is the single-precision value next to 0.1, 13421773 / 2^27.
\<close>

definition lib0 :: ros_lib where
  "lib0 = \<lparr>resolve = (\<lambda>frame. frame), getYaw = (\<lambda>t. 0), compose = (\<lambda>a b. a),
           fromSec = (\<lambda>sec. \<lfloor>sec * 1000000000\<rfloor>),
           period_of_rate = (\<lambda>rate. \<lfloor>1000000000 / rate\<rfloor>)\<rparr>"

definition params0 :: param_server where
  "params0 = \<lparr>param_double = (\<lambda>key dflt. dflt), param_int = (\<lambda>key dflt. dflt),
              param_bool = (\<lambda>key dflt. dflt), param_string = (\<lambda>key dflt. dflt)\<rparr>"

definition grid3 :: OccupancyGrid where
  "grid3 = \<lparr>grid_frame_id = ''map'', info_width = 3, info_height = 1,
            info_resolution = 1, info_origin_x = 0, info_origin_y = 0,
            data = [0, 100, 50]\<rparr>"

definition map3 :: map_t where
  "map3 = \<lparr>origin_x = 1, origin_y = 0, scale = 1, size_x = 3, size_y = 1,
           cells = [- 1, 1, 0]\<rparr>"

definition grid_occupied :: OccupancyGrid where
  "grid_occupied = \<lparr>grid_frame_id = ''map'', info_width = 1, info_height = 1,
                    info_resolution = 1, info_origin_x = 0, info_origin_y = 0,
                    data = [100]\<rparr>"

definition map_occupied :: map_t where
  "map_occupied = \<lparr>origin_x = 0, origin_y = 0, scale = 1, size_x = 1, size_y = 1,
                   cells = [1]\<rparr>"

definition node1 :: AmclNode where
  "node1 = (AmclNode_new lib0 params0)
     \<lparr>cur_map := Some map3, free_space_indices := [(0, 0)],
      lasers_vec := [Some (0, 0, 0)], lasers_update := [False],
      frame_to_laser := [(''laser_a'', 0)], frame_to_camera := ''camera'',
      pf_init_scan := True, pf_init_cam := True\<rparr>"

definition node_forced :: AmclNode where
  "node_forced = snd (nomotionUpdateCallback node1)"

definition node_fresh :: AmclNode where
  "node_fresh = (AmclNode_new lib0 params0)
     \<lparr>cur_map := Some map3, free_space_indices := [(0, 0)]\<rparr>"

definition scan_a :: LaserScan where
  "scan_a = \<lparr>scan_frame_id = ''laser_a'', scan_stamp = 1000, angle_min = 0,
             angle_increment = 1 / 100, range_min = 1 / 10, range_max = 10,
             ranges = [1 / 20, 5, 1 / 10]\<rparr>"

definition scan_b :: LaserScan where
  "scan_b = scan_a\<lparr>scan_frame_id := ''laser_b''\<rparr>"

definition det1 :: messagedet where
  "det1 = \<lparr>det_frame_id = ''camera'', det_stamp = 1000,
           DetectedMarkers = [(0, 0, 7, [(1, 1), (1, 2), (2, 2), (2, 1)])]\<rparr>"


definition env1 :: callback_env where
  "env1 = \<lparr>env_laser_pose = Some tf_identity, env_odom_pose = Some tf_identity,
           env_base_angles = Some (0, 1 / 100), env_samples = [],
           env_clusters = [Some (1, (0, 0, 0), pf_matrix_zero)],
           env_set_cov = pf_matrix_zero, env_odom_to_map = Some tf_identity,
           env_now = 2000\<rparr>"





definition initial_pose_no_frame :: PoseWithCovarianceStamped where
  "initial_pose_no_frame =
     \<lparr>msg_frame_id = [], msg_stamp = 1000,
      msg_pose = \<lparr>rotation = (0, 0, 0, 1), origin = (1, 2, 0)\<rparr>,
      msg_covariance = replicate 36 0\<rparr>"

definition initial_pose_odom :: PoseWithCovarianceStamped where
  "initial_pose_odom = initial_pose_no_frame\<lparr>msg_frame_id := ''odom''\<rparr>"

section \<open>Properties\<close>

subsection \<open>Angles\<close>

lemma atan2_range: "- pi < atan2 y x \<and> atan2 y x \<le> pi"
proof -
  have lo: "- (pi / 2) < arctan (y / x)" by (rule arctan_lbound)
  have hi: "arctan (y / x) < pi / 2" by (rule arctan_ubound)
  consider (pos) "0 < x" | (negp) "x < 0" "0 \<le> y" | (negn) "x < 0" "y < 0" | (zero) "x = 0"
    by linarith
  then show ?thesis
  proof cases
    case pos
    moreover from lo hi pi_gt_zero have "- pi < arctan (y / x) \<and> arctan (y / x) \<le> pi"
      by linarith
    ultimately show ?thesis by (simp add: atan2_def)
  next
    case negp
    then have "y / x \<le> 0" by (simp add: divide_nonneg_neg)
    then have "arctan (y / x) \<le> 0" using arctan_le_zero_iff by blast
    with lo pi_gt_zero have "- pi < arctan (y / x) + pi \<and> arctan (y / x) + pi \<le> pi"
      by linarith
    with negp show ?thesis by (simp add: atan2_def)
  next
    case negn
    then have "0 < y / x" by (simp add: divide_neg_neg)
    then have "0 < arctan (y / x)" using zero_less_arctan_iff by blast
    with hi pi_gt_zero have "- pi < arctan (y / x) - pi \<and> arctan (y / x) - pi \<le> pi"
      by linarith
    with negn show ?thesis by (simp add: atan2_def)
  next
    case zero
    moreover from pi_gt_zero have "- pi < pi / 2 \<and> pi / 2 \<le> pi
        \<and> - pi < - (pi / 2) \<and> - (pi / 2) \<le> pi \<and> - pi < 0 \<and> 0 \<le> pi"
      by linarith
    ultimately show ?thesis by (simp add: atan2_def)
  qed
qed

lemma normalize_z_range: "- pi < normalize_z z \<and> normalize_z z \<le> pi"
  unfolding normalize_z_def by (rule atan2_range)

lemma normalize_z_pi: "normalize_z pi = pi"
  by (simp add: normalize_z_def atan2_def)

lemma normalize_z_0: "normalize_z 0 = 0"
  by (simp add: normalize_z_def atan2_def)


lemma angle_diff_self: "angle_diff a a = 0"
  by (simp add: angle_diff_def Let_def)

lemma sqrt_one_plus_ratio:
  fixes x y :: real
  assumes "x \<noteq> 0"
  shows "sqrt (1 + (y / x)\<^sup>2) = sqrt (x\<^sup>2 + y\<^sup>2) / \<bar>x\<bar>"
proof -
  have "1 + (y / x)\<^sup>2 = (x\<^sup>2 + y\<^sup>2) / x\<^sup>2"
    using assms by (simp add: power_divide add_divide_distrib)
  then have "sqrt (1 + (y / x)\<^sup>2) = sqrt (x\<^sup>2 + y\<^sup>2) / sqrt (x\<^sup>2)"
    by (simp add: real_sqrt_divide)
  then show ?thesis by simp
qed

lemma sin_cos_atan2:
  fixes x y :: real
  assumes r: "x\<^sup>2 + y\<^sup>2 = 1"
  shows "sin (atan2 y x) = y \<and> cos (atan2 y x) = x"
proof -
  consider (pos) "0 < x" | (neg) "x < 0" | (zero) "x = 0"
    by linarith
  then show ?thesis
  proof cases
    case pos
    then have s: "sqrt (1 + (y / x)\<^sup>2) = 1 / x"
      using sqrt_one_plus_ratio [of x y] r by simp
    from pos show ?thesis
      by (simp add: atan2_def sin_arctan cos_arctan s)
  next
    case neg
    then have s: "sqrt (1 + (y / x)\<^sup>2) = - (1 / x)"
      using sqrt_one_plus_ratio [of x y] r by simp
    from neg show ?thesis
      by (simp add: atan2_def sin_arctan cos_arctan s)
  next
    case zero
    with r have "y\<^sup>2 = 1" by simp
    then have "y = 1 \<or> y = - 1" by (simp add: power2_eq_1_iff)
    with zero show ?thesis
      by (auto simp: atan2_def)
  qed
qed

lemma sin_cos_normalize_z: "sin (normalize_z z) = sin z \<and> cos (normalize_z z) = cos z"
  unfolding normalize_z_def
  by (rule sin_cos_atan2) (simp add: add.commute)

lemma angle_diff_cases:
  "angle_diff a b = normalize_z a - normalize_z b
   \<or> angle_diff a b = normalize_z a - normalize_z b + 2 * pi
   \<or> angle_diff a b = normalize_z a - normalize_z b - 2 * pi"
  unfolding angle_diff_def Let_def
  by (auto simp: abs_if split: if_splits)

lemma angle_diff_congruent:
  "sin (angle_diff a b) = sin (a - b) \<and> cos (angle_diff a b) = cos (a - b)"
proof -
  have d: "sin (normalize_z a - normalize_z b) = sin (a - b)
         \<and> cos (normalize_z a - normalize_z b) = cos (a - b)"
    using sin_cos_normalize_z [of a] sin_cos_normalize_z [of b]
    by (simp add: sin_diff cos_diff)
  from angle_diff_cases [of a b] show ?thesis
  proof (elim disjE)
    assume "angle_diff a b = normalize_z a - normalize_z b"
    with d show ?thesis by simp
  next
    assume "angle_diff a b = normalize_z a - normalize_z b + 2 * pi"
    with d show ?thesis by simp
  next
    assume "angle_diff a b = normalize_z a - normalize_z b - 2 * pi"
    with d show ?thesis by (simp add: sin_diff cos_diff)
  qed
qed

lemma angle_diff_bounds: "- pi \<le> angle_diff a b \<and> angle_diff a b \<le> pi"
proof -
  have A: "- pi < normalize_z a \<and> normalize_z a \<le> pi" by (rule normalize_z_range)
  have B: "- pi < normalize_z b \<and> normalize_z b \<le> pi" by (rule normalize_z_range)
  show ?thesis using A B unfolding angle_diff_def Let_def
    by (auto simp: abs_if split: if_splits)
qed

lemma angle_diff_antisym: "angle_diff a b = - angle_diff b a"
  unfolding angle_diff_def Let_def
  by (auto simp: abs_if split: if_splits)

text \<open>
  C3, as stated: \<open>angle_diff a b\<close> lies in the half-open interval \<open>(-\<pi>, \<pi>]\<close> for all
  \<open>a\<close> and \<open>b\<close>. It does not at \<open>a = \<pi>\<close>, \<open>b = 0\<close>: there \<open>d1 = \<pi>\<close> and
  \<open>d2 = -\<pi>\<close> have the same magnitude, the strict test fails and \<open>d2 = -\<pi>\<close> is returned.
\<close>

theorem angle_diff_half_open_counterexample:
  "angle_diff pi 0 = - pi \<and> \<not> (- pi < angle_diff pi 0 \<and> angle_diff pi 0 \<le> pi)"
  by (simp add: angle_diff_def normalize_z_pi normalize_z_0 Let_def)

text \<open>
  C3, amended: for all real \<open>a\<close> and \<open>b\<close>, \<open>angle_diff a b\<close> lies in the closed interval
  \<open>[-\<pi>, \<pi>]\<close>, \<open>angle_diff a b = - angle_diff b a\<close>, and it is the difference \<open>a - b\<close> up
  to whole turns: it has the sine and the cosine of \<open>a - b\<close>, as
  \<^verbatim>\<open>atan2(sin(a-b), cos(a-b))\<close> has.
\<close>

theorem angle_diff_closed_range_antisymmetric:
  "- pi \<le> angle_diff a b \<and> angle_diff a b \<le> pi
   \<and> angle_diff a b = - angle_diff b a
   \<and> sin (angle_diff a b) = sin (a - b) \<and> cos (angle_diff a b) = cos (a - b)"
  using angle_diff_bounds [of a b] angle_diff_antisym [of a b] angle_diff_congruent [of a b]
  by simp

subsection \<open>The map\<close>

lemma convertMap_grid3: "convertMap grid3 = Inr map3"
  by (simp add: convertMap_def grid3_def map3_def int_fits_def convertMap_cell_def Let_def
      signed_divide_int_def)

lemma convertMap_grid_occupied: "convertMap grid_occupied = Inr map_occupied"
  by (simp add: convertMap_def grid_occupied_def map_occupied_def int_fits_def
      convertMap_cell_def Let_def signed_divide_int_def)

lemma free_space_of_map3: "free_space_of map3 = [(0, 0)]"
  by (simp add: free_space_of_def map3_def MAP_INDEX_def upto.simps)

lemma free_space_of_map_occupied: "free_space_of map_occupied = []"
  by (simp add: free_space_of_def map_occupied_def MAP_INDEX_def upto.simps)

lemma convertMap_Inr:
  assumes "convertMap map_msg = Inr m"
  shows "size_x m = sint (info_width map_msg)"
    and "size_y m = sint (info_height map_msg)"
    and "scale m = info_resolution map_msg"
    and "origin_x m = info_origin_x map_msg + of_int (size_x m sdiv 2) * scale m"
    and "origin_y m = info_origin_y map_msg + of_int (size_y m sdiv 2) * scale m"
    and "cells m = map convertMap_cell (take (nat (size_x m * size_y m)) (data map_msg))"
    and "nat (size_x m * size_y m) \<le> length (data map_msg)"
  using assms
  by (auto simp: convertMap_def Let_def split: if_splits)

lemma sint_of_small:
  fixes w :: "32 word"
  assumes u: "uint w < 2 ^ 31"
  shows "sint w = uint w"
proof -
  have "(0::int) \<le> uint w" by simp
  moreover have "- (2 ^ 31) \<le> (0::int)" by simp
  ultimately have l: "- (2 ^ 31) \<le> uint w" by (rule order_trans [rotated])
  have "sint w = signed_take_bit 31 (uint w)" by (simp add: sint_uint)
  also have "\<dots> = uint w"
    using l u by (rule signed_take_bit_int_eq_self)
  finally show ?thesis .
qed

lemma sdiv_2_nonneg:
  fixes k :: int
  assumes "0 \<le> k"
  shows "k sdiv 2 = k div 2"
  using assms by (simp add: signed_divide_int_def sgn_if)

lemma convertMap_well_formed:
  assumes w: "uint (info_width map_msg) < 2 ^ 31"
    and h: "uint (info_height map_msg) < 2 ^ 31"
    and n: "uint (info_width map_msg) * uint (info_height map_msg) < 2 ^ 31"
    and d: "int (length (data map_msg)) = uint (info_width map_msg) * uint (info_height map_msg)"
  shows "convertMap map_msg =
     Inr \<lparr>origin_x = info_origin_x map_msg
             + of_int (uint (info_width map_msg) div 2) * info_resolution map_msg,
          origin_y = info_origin_y map_msg
             + of_int (uint (info_height map_msg) div 2) * info_resolution map_msg,
          scale = info_resolution map_msg,
          size_x = uint (info_width map_msg),
          size_y = uint (info_height map_msg),
          cells = map convertMap_cell (data map_msg)\<rparr>"
proof -
  let ?W = "uint (info_width map_msg)" and ?H = "uint (info_height map_msg)"
  have sw: "sint (info_width map_msg) = ?W" using w by (rule sint_of_small)
  have sh: "sint (info_height map_msg) = ?H" using h by (rule sint_of_small)
  have nonneg: "0 \<le> ?W * ?H" by simp
  have "- (2 ^ 31) \<le> (0::int)" by simp
  with nonneg have "- (2 ^ 31) \<le> ?W * ?H" by (rule order_trans [rotated])
  with n have fits: "int_fits (?W * ?H)" unfolding int_fits_def by simp
  have dw: "?W sdiv 2 = ?W div 2" by (rule sdiv_2_nonneg) simp
  have dh: "?H sdiv 2 = ?H div 2" by (rule sdiv_2_nonneg) simp
  have tk: "take (nat (?W * ?H)) (data map_msg) = data map_msg"
    using d by simp
  show ?thesis
    unfolding convertMap_def Let_def sw sh dw dh
    using fits d tk by simp
qed

text \<open>
  C4, as stated: the origin is the message's origin plus \<open>(size/2)\<cdot>resolution\<close>. The
  quotient in the source is that of two \<^verbatim>\<open>int\<close>s: a grid three cells wide, one metre each,
  gets its origin one metre from the message's origin, not one and a half.
\<close>

theorem convertMap_origin_counterexample:
  "convertMap grid3 = Inr map3
   \<and> origin_x map3
       \<noteq> info_origin_x grid3 + (real_of_int (uint (info_width grid3)) / 2) * info_resolution grid3"
  using convertMap_grid3 by (simp add: grid3_def map3_def)

text \<open>
  C4, amended: for every occupancy-grid message whose width, height and cell count fit an
  \<^verbatim>\<open>int\<close> and whose data holds one value per cell, map construction gives each cell the
  state \<open>-1\<close> (free) for the value 0, \<open>+1\<close> (occupied) for the value 100 and \<open>0\<close>
  (unknown) for any other value, and sets the origin, in each of x and y, to the
  message's origin plus \<open>\<lfloor>size/2\<rfloor>\<cdot>resolution\<close>, the integer quotient: the world coordinate
  of the cell with index \<open>\<lfloor>size/2\<rfloor>\<close>.
\<close>

theorem convertMap_cells_and_origin:
  assumes "uint (info_width map_msg) < 2 ^ 31"
    and "uint (info_height map_msg) < 2 ^ 31"
    and "uint (info_width map_msg) * uint (info_height map_msg) < 2 ^ 31"
    and "int (length (data map_msg)) = uint (info_width map_msg) * uint (info_height map_msg)"
  shows "\<exists>m. convertMap map_msg = Inr m
           \<and> size_x m = uint (info_width map_msg)
           \<and> size_y m = uint (info_height map_msg)
           \<and> scale m = info_resolution map_msg
           \<and> length (cells m) = length (data map_msg)
           \<and> (\<forall>i < length (data map_msg).
                 cells m ! i = (if data map_msg ! i = 0 then - 1
                                else if data map_msg ! i = 100 then 1 else 0))
           \<and> origin_x m = info_origin_x map_msg
                 + of_int (uint (info_width map_msg) div 2) * info_resolution map_msg
           \<and> origin_y m = info_origin_y map_msg
                 + of_int (uint (info_height map_msg) div 2) * info_resolution map_msg
           \<and> MAP_WXGX m (size_x m div 2) = origin_x m
           \<and> MAP_WYGY m (size_y m div 2) = origin_y m"
proof -
  have dw: "uint (info_width map_msg) sdiv 2 = uint (info_width map_msg) div 2"
    by (rule sdiv_2_nonneg) simp
  have dh: "uint (info_height map_msg) sdiv 2 = uint (info_height map_msg) div 2"
    by (rule sdiv_2_nonneg) simp
  show ?thesis
    unfolding convertMap_well_formed [OF assms]
    by (simp add: convertMap_cell_def MAP_WXGX_def MAP_WYGY_def dw dh)
qed

theorem convertMap_cells_and_origin_witness:
  "uint (info_width grid3) < 2 ^ 31
   \<and> uint (info_height grid3) < 2 ^ 31
   \<and> uint (info_width grid3) * uint (info_height grid3) < 2 ^ 31
   \<and> int (length (data grid3)) = uint (info_width grid3) * uint (info_height grid3)
   \<and> (\<exists>m. convertMap grid3 = Inr m
           \<and> size_x m = 3 \<and> size_y m = 1 \<and> scale m = 1
           \<and> cells m = [- 1, 1, 0]
           \<and> origin_x m = 1 \<and> origin_y m = 0)"
proof -
  have h1: "uint (info_width grid3) < 2 ^ 31" by (simp add: grid3_def)
  have h2: "uint (info_height grid3) < 2 ^ 31" by (simp add: grid3_def)
  have h3: "uint (info_width grid3) * uint (info_height grid3) < 2 ^ 31" by (simp add: grid3_def)
  have h4: "int (length (data grid3)) = uint (info_width grid3) * uint (info_height grid3)"
    by (simp add: grid3_def)
  from convertMap_cells_and_origin [OF h1 h2 h3 h4]
  obtain m where m: "convertMap grid3 = Inr m" "size_x m = uint (info_width grid3)"
    "size_y m = uint (info_height grid3)" "scale m = info_resolution grid3"
    by blast
  from m(1) convertMap_grid3 have "m = map3" by simp
  with m(1) have "convertMap grid3 = Inr m \<and> size_x m = 3 \<and> size_y m = 1 \<and> scale m = 1
      \<and> cells m = [- 1, 1, 0] \<and> origin_x m = 1 \<and> origin_y m = 0"
    by (simp add: map3_def)
  then have "\<exists>m. convertMap grid3 = Inr m \<and> size_x m = 3 \<and> size_y m = 1 \<and> scale m = 1
      \<and> cells m = [- 1, 1, 0] \<and> origin_x m = 1 \<and> origin_y m = 0" ..
  with h1 h2 h3 h4 show ?thesis by blast
qed

subsection \<open>The uniform pose generator\<close>

lemma MAP_INDEX_in_range:
  fixes i j sx sy :: int
  assumes "0 \<le> i" "i < sx" "0 \<le> j" "j < sy"
  shows "0 \<le> i + j * sx \<and> i + j * sx < sx * sy"
proof -
  have "j + 1 \<le> sy" using assms by simp
  then have "(j + 1) * sx \<le> sy * sx" using assms by (intro mult_right_mono) auto
  then have "i + j * sx < sx * sy" using assms by (simp add: algebra_simps)
  moreover have "0 \<le> j * sx" using assms by simp
  ultimately show ?thesis using assms by simp
qed

lemma free_space_of_iff:
  "(i, j) \<in> set (free_space_of m) \<longleftrightarrow>
     0 \<le> i \<and> i < size_x m \<and> 0 \<le> j \<and> j < size_y m \<and> cells m ! nat (MAP_INDEX m i j) = - 1"
  by (auto simp: free_space_of_def)

lemma rand_index_in_range:
  fixes u1 :: real and n :: nat
  assumes "0 < n" "0 \<le> u1" "u1 < 1"
  shows "nat \<lfloor>u1 * real n\<rfloor> < n"
proof -
  have "u1 * real n < 1 * real n" using assms by (intro mult_strict_right_mono) auto
  then have "u1 * real n < real n" by simp
  then have "\<lfloor>u1 * real n\<rfloor> < int n" by (simp add: floor_less_iff)
  moreover have "0 \<le> \<lfloor>u1 * real n\<rfloor>" using assms by simp
  ultimately show ?thesis by linarith
qed

lemma uniformPoseGenerator_in_index:
  assumes "fsi \<noteq> []" "0 \<le> u1" "u1 < 1"
  shows "\<exists>i j. (i, j) \<in> set fsi
           \<and> uniformPoseGenerator fsi m u1 u2 = Inr (MAP_WXGX m i, MAP_WYGY m j, u2 * 2 * pi - pi)"
proof -
  let ?k = "nat \<lfloor>u1 * real (length fsi)\<rfloor>"
  have k: "?k < length fsi" using assms by (intro rand_index_in_range) auto
  then have mem: "fsi ! ?k \<in> set fsi" by simp
  have "uniformPoseGenerator fsi m u1 u2
      = Inr (MAP_WXGX m (fst (fsi ! ?k)), MAP_WYGY m (snd (fsi ! ?k)), u2 * 2 * pi - pi)"
    using k by (simp add: uniformPoseGenerator_def Let_def)
  with mem show ?thesis by (metis prod.collapse)
qed

lemma uniform_yaw_range:
  fixes u2 :: real
  assumes "0 \<le> u2" "u2 < 1"
  shows "- pi \<le> u2 * 2 * pi - pi \<and> u2 * 2 * pi - pi < pi"
proof -
  have "0 \<le> u2 * (2 * pi)" using assms pi_gt_zero by simp
  moreover have "u2 * (2 * pi) < 1 * (2 * pi)"
    using assms pi_gt_zero by (intro mult_strict_right_mono) auto
  ultimately show ?thesis by (simp add: mult.assoc)
qed

lemma uniformPoseGenerator_empty: "uniformPoseGenerator [] m u1 u2 = Inl (ReadPastEnd 0 0)"
  by (simp add: uniformPoseGenerator_def)

text \<open>
  C8, as stated: the yaw of every generated pose lies in \<open>(-\<pi>, \<pi>]\<close>. The yaw is
  \<^verbatim>\<open>drand48() * 2 * M_PI - M_PI\<close> with \<^verbatim>\<open>drand48()\<close> in \<open>[0, 1)\<close>: at the value \<open>0\<close> it is
  \<open>-\<pi>\<close>, outside the interval.
\<close>

theorem uniformPoseGenerator_yaw_counterexample:
  "free_space_of map3 \<noteq> []
   \<and> uniformPoseGenerator (free_space_of map3) map3 0 0
       = Inr (MAP_WXGX map3 0, MAP_WYGY map3 0, - pi)
   \<and> \<not> (- pi < (- pi :: real))"
  by (simp add: free_space_of_map3 uniformPoseGenerator_def Let_def)

text \<open>
  C8, amended: when the free-cell index of a map built from a message is not empty, every
  pose the generator returns has \<open>(x, y)\<close> equal to the world coordinates of a cell of the
  index, a cell inside the grid whose state is free, and a yaw in \<open>[-\<pi>, \<pi>)\<close>.
\<close>

theorem uniformPoseGenerator_free_cell:
  assumes cm: "convertMap map_msg = Inr m"
    and ne: "free_space_of m \<noteq> []"
    and u1: "0 \<le> u1" "u1 < 1"
    and u2: "0 \<le> u2" "u2 < 1"
  shows "\<exists>i j. (i, j) \<in> set (free_space_of m)
           \<and> 0 \<le> i \<and> i < size_x m \<and> 0 \<le> j \<and> j < size_y m
           \<and> nat (MAP_INDEX m i j) < length (cells m)
           \<and> cells m ! nat (MAP_INDEX m i j) = - 1
           \<and> uniformPoseGenerator (free_space_of m) m u1 u2
               = Inr (MAP_WXGX m i, MAP_WYGY m j, u2 * 2 * pi - pi)
           \<and> - pi \<le> u2 * 2 * pi - pi \<and> u2 * 2 * pi - pi < pi"
proof -
  from uniformPoseGenerator_in_index [OF ne u1]
  obtain i j where ij: "(i, j) \<in> set (free_space_of m)"
    and gen: "uniformPoseGenerator (free_space_of m) m u1 u2
               = Inr (MAP_WXGX m i, MAP_WYGY m j, u2 * 2 * pi - pi)"
    by blast
  from ij have r: "0 \<le> i" "i < size_x m" "0 \<le> j" "j < size_y m"
    and free: "cells m ! nat (MAP_INDEX m i j) = - 1"
    by (simp_all add: free_space_of_iff)
  have len: "length (cells m) = nat (size_x m * size_y m)"
    using convertMap_Inr(6,7) [OF cm] by simp
  from MAP_INDEX_in_range [OF r]
  have "nat (MAP_INDEX m i j) < length (cells m)"
    unfolding len MAP_INDEX_def by linarith
  with ij r free gen uniform_yaw_range [OF u2] show ?thesis by blast
qed

theorem uniformPoseGenerator_free_cell_witness:
  "convertMap grid3 = Inr map3
   \<and> free_space_of map3 \<noteq> []
   \<and> (0::real) \<le> 1 / 2 \<and> (1::real) / 2 < 1
   \<and> (\<exists>i j. (i, j) \<in> set (free_space_of map3)
           \<and> cells map3 ! nat (MAP_INDEX map3 i j) = - 1
           \<and> uniformPoseGenerator (free_space_of map3) map3 (1 / 2) (1 / 2)
               = Inr (MAP_WXGX map3 i, MAP_WYGY map3 j, 1 / 2 * 2 * pi - pi))"
proof -
  have ne: "free_space_of map3 \<noteq> []" by (simp add: free_space_of_map3)
  have a: "(0::real) \<le> 1 / 2" and b: "(1::real) / 2 < 1" by simp_all
  from uniformPoseGenerator_free_cell [OF convertMap_grid3 ne a b a b]
  have "\<exists>i j. (i, j) \<in> set (free_space_of map3)
           \<and> cells map3 ! nat (MAP_INDEX map3 i j) = - 1
           \<and> uniformPoseGenerator (free_space_of map3) map3 (1 / 2) (1 / 2)
               = Inr (MAP_WXGX map3 i, MAP_WYGY map3 j, 1 / 2 * 2 * pi - pi)"
    by blast
  with convertMap_grid3 ne a b show ?thesis by blast
qed

subsection \<open>What the handlers leave unchanged\<close>

lemma applyInitialPose_setup:
  "cur_map (fst (applyInitialPose s)) = cur_map s
   \<and> free_space_indices (fst (applyInitialPose s)) = free_space_indices s
   \<and> marker_coeff (fst (applyInitialPose s)) = marker_coeff s
   \<and> laser_coeff (fst (applyInitialPose s)) = laser_coeff s"
  by (simp add: applyInitialPose_def split: option.splits prod.splits)

lemma handleMapMessage_Inr:
  assumes "handleMapMessage P s map_msg = Inr (s', evs)"
  shows "\<exists>m. convertMap map_msg = Inr m \<and> cur_map s' = Some m
           \<and> free_space_indices s' = free_space_of m
           \<and> marker_coeff s' = marker_coeff s \<and> laser_coeff s' = laser_coeff s"
  using assms
  by (auto simp: handleMapMessage_def Let_def applyInitialPose_setup split: sum.splits)

lemma handleMapMessage_total:
  assumes "convertMap map_msg = Inr m"
  shows "\<exists>s' evs. handleMapMessage P s map_msg = Inr (s', evs)"
  using assms by (simp add: handleMapMessage_def Let_def)

text \<open>
  C7: the generator on an empty index. A map message with no free cell (here a single
  occupied cell) is accepted and leaves the index empty; the global-localisation service
  then asks the generator for a sample, and the generator reads element \<open>0\<close> of the empty
  vector. No test guards the read and nothing is signalled.
\<close>

theorem globalLocalization_empty_index:
  "\<exists>s' evs. handleMapMessage P s grid_occupied = Inr (s', evs)
      \<and> cur_map s' = Some map_occupied
      \<and> free_space_indices s' = []
      \<and> uniformPoseGenerator (free_space_indices s') map_occupied u1 u2 = Inl (ReadPastEnd 0 0)
      \<and> globalLocalizationCallback s' (u # us) = Inl (ReadPastEnd 0 0)"
proof -
  from handleMapMessage_total [OF convertMap_grid_occupied]
  obtain s' evs where h: "handleMapMessage P s grid_occupied = Inr (s', evs)" by blast
  from handleMapMessage_Inr [OF h] convertMap_grid_occupied
  have m: "cur_map s' = Some map_occupied" and f: "free_space_indices s' = []"
    by (auto simp: free_space_of_map_occupied)
  have g: "globalLocalizationCallback s' (u # us) = Inl (ReadPastEnd 0 0)"
    by (simp add: globalLocalizationCallback_def m f uniformPoseGenerator_empty)
  from h m f g show ?thesis by (simp add: uniformPoseGenerator_empty)
qed

lemma getOdomPose_setup: "setup_of (fst (getOdomPose L s r)) = setup_of s"
  by (simp add: getOdomPose_def setup_of_def split: option.splits)

lemma laser_lookup_setup:
  "laser_lookup s laser_scan env = Running s' ev k \<Longrightarrow> setup_of s' = setup_of s"
  "laser_lookup s laser_scan env = Return s' ev \<Longrightarrow> setup_of s' = setup_of s"
  by (auto simp: laser_lookup_def setup_of_def Let_def split: option.splits if_splits)

lemma laser_gate_setup: "setup_of (fst (laser_gate s pose)) = setup_of s"
  by (simp add: laser_gate_def setup_of_def Let_def)

lemma laser_init_or_motion_setup:
  "laser_init_or_motion s k pose delta = Running s' ev b \<Longrightarrow> setup_of s' = setup_of s"
  "laser_init_or_motion s k pose delta = Return s' ev \<Longrightarrow> setup_of s' = setup_of s"
  by (auto simp: laser_init_or_motion_def setup_of_def split: if_splits)

lemma laser_sensor_update_setup:
  "laser_sensor_update s laser_scan env k pose = Running s' ev b \<Longrightarrow> setup_of s' = setup_of s"
  "laser_sensor_update s laser_scan env k pose = Return s' ev \<Longrightarrow> setup_of s' = setup_of s"
  by (auto simp: laser_sensor_update_def setup_of_def Let_def split: if_splits option.splits)



subsection \<open>The laser callback, block by block\<close>

lemma map_of_index_bound:
  assumes "list_all (\<lambda>fk. snd fk < n) tbl" "map_of tbl f = Some k"
  shows "k < n"
proof -
  from assms(2) have "(f, k) \<in> set tbl" by (rule map_of_SomeD)
  with assms(1) show ?thesis by (auto simp: list_all_iff)
qed

lemma laser_lookup_known:
  assumes "map_of (frame_to_laser s) (scan_frame_id laser_scan) = Some k"
  shows "laser_lookup s laser_scan env = Running s [] k"
  using assms by (simp add: laser_lookup_def)

lemma laser_lookup_new:
  assumes "map_of (frame_to_laser s) (scan_frame_id laser_scan) = None"
    and "lasers_fit s"
  shows "laser_lookup s laser_scan env =
     (case env_laser_pose env of
        None \<Rightarrow>
          Return (s\<lparr>lasers_vec := lasers_vec s @ [None], lasers_update := lasers_update s @ [True]\<rparr>)
            [ROS_ERROR ''Couldn't transform from %s to %s, even though the message notifier is in use'']
      | Some laser_pose \<Rightarrow>
          Running
            (s\<lparr>lasers_vec := (lasers_vec s @ [None])
                    [length (frame_to_laser s) :=
                       Some (origin_x_of laser_pose, origin_y_of laser_pose, 0)],
                lasers_update := lasers_update s @ [True],
                frame_to_laser :=
                  frame_to_laser s @ [(scan_frame_id laser_scan, length (frame_to_laser s))]\<rparr>)
            [SetLaserPose (length (frame_to_laser s))
               (origin_x_of laser_pose, origin_y_of laser_pose, 0)]
            (length (frame_to_laser s)))"
  using assms by (simp add: laser_lookup_def lasers_fit_def Let_def split: option.splits)

lemma pending_flag_new:
  assumes "lasers_fit s"
  shows "(lasers_update s @ [True]) ! length (frame_to_laser s)"
proof (cases "length (frame_to_laser s) < length (lasers_update s)")
  case True
  from assms have "list_all (\<lambda>b. b) (drop (length (frame_to_laser s)) (lasers_update s))"
    by (simp add: lasers_fit_def)
  then have a: "i < length (lasers_update s) - length (frame_to_laser s)
      \<Longrightarrow> lasers_update s ! (length (frame_to_laser s) + i)" for i
    by (simp add: list_all_length)
  from a [of 0] True have "lasers_update s ! length (frame_to_laser s)" by simp
  with True show ?thesis by (simp add: nth_append)
next
  case False
  with assms have "length (frame_to_laser s) = length (lasers_update s)"
    by (simp add: lasers_fit_def)
  then show ?thesis by (simp add: nth_append)
qed

lemma laser_lookup_Running:
  assumes "laser_lookup s laser_scan env = Running s1 ev1 k" and "lasers_fit s"
  shows "k < length (lasers_update s1)"
    and "lasers_update s1 ! k = laser_pending s laser_scan"
    and "\<not> list_ex is_laser_scoring ev1" and "\<not> list_ex is_resample ev1"
    and "\<exists>lv lu fl. s1 = s\<lparr>lasers_vec := lv, lasers_update := lu, frame_to_laser := fl\<rparr>"
proof -
  show "k < length (lasers_update s1)"
  proof (cases "map_of (frame_to_laser s) (scan_frame_id laser_scan)")
    case None
    with assms laser_lookup_new [OF None assms(2), of env] show ?thesis
      by (auto simp: lasers_fit_def split: option.splits)
  next
    case (Some k')
    from assms(2) have "list_all (\<lambda>fk. snd fk < length (frame_to_laser s)) (frame_to_laser s)"
      and le: "length (frame_to_laser s) \<le> length (lasers_update s)"
      by (simp_all add: lasers_fit_def)
    from map_of_index_bound [OF this(1) Some] le
    have "k' < length (lasers_update s)" by simp
    with assms(1) laser_lookup_known [OF Some, of env] show ?thesis by simp
  qed
  show "lasers_update s1 ! k = laser_pending s laser_scan"
  proof (cases "map_of (frame_to_laser s) (scan_frame_id laser_scan)")
    case None
    with assms laser_lookup_new [OF None assms(2), of env] pending_flag_new [OF assms(2)]
    show ?thesis by (auto simp: laser_pending_def split: option.splits)
  next
    case (Some k')
    with assms laser_lookup_known [OF Some, of env] show ?thesis
      by (auto simp: laser_pending_def)
  qed
  show "\<not> list_ex is_laser_scoring ev1" "\<not> list_ex is_resample ev1"
    using assms(1)
    by (auto simp: laser_lookup_def Let_def split: option.splits if_splits)
  show "\<exists>lv lu fl. s1 = s\<lparr>lasers_vec := lv, lasers_update := lu, frame_to_laser := fl\<rparr>"
  proof (cases "map_of (frame_to_laser s) (scan_frame_id laser_scan)")
    case None
    with assms laser_lookup_new [OF None assms(2), of env] show ?thesis
      by (auto split: option.splits)
  next
    case (Some k')
    with assms laser_lookup_known [OF Some, of env]
    have "s1 = s\<lparr>lasers_vec := lasers_vec s, lasers_update := lasers_update s,
                  frame_to_laser := frame_to_laser s\<rparr>" by simp
    then show ?thesis by blast
  qed
qed

lemma laser_lookup_no_fault:
  assumes "lasers_fit s"
  shows "laser_lookup s laser_scan env \<noteq> Fault f"
proof (cases "map_of (frame_to_laser s) (scan_frame_id laser_scan)")
  case None
  from laser_lookup_new [OF None assms, of env] show ?thesis by (simp split: option.splits)
next
  case (Some k)
  from laser_lookup_known [OF Some, of env] show ?thesis by simp
qed

lemma getOdomPose_Some:
  "getOdomPose L s (Some odom_pose) = (s\<lparr>latest_odom_pose := odom_pose\<rparr>, [], Some (pose_of L odom_pose))"
  by (simp add: getOdomPose_def pose_of_def)

lemma getOdomPose_None:
  "getOdomPose L s None = (s, [ROS_WARN ''Failed to compute odom pose, skipping scan (%s)''], None)"
  by (simp add: getOdomPose_def)

lemma getOdomPose_result:
  assumes "getOdomPose L s r = (s2, ev2, po)"
  shows "\<not> list_ex is_laser_scoring ev2" and "\<not> list_ex is_resample ev2"
    and "\<not> list_ex is_marker_scoring ev2"
    and "po = map_option (pose_of L) r"
    and "\<exists>p. s2 = s\<lparr>latest_odom_pose := p\<rparr>"
proof -
  show "\<not> list_ex is_laser_scoring ev2" "\<not> list_ex is_resample ev2"
    "\<not> list_ex is_marker_scoring ev2" "po = map_option (pose_of L) r"
    using assms by (cases r; auto simp: getOdomPose_Some getOdomPose_None)+
  show "\<exists>p. s2 = s\<lparr>latest_odom_pose := p\<rparr>"
  proof (cases r)
    case None
    with assms have "s2 = s\<lparr>latest_odom_pose := latest_odom_pose s\<rparr>"
      by (simp add: getOdomPose_None)
    then show ?thesis by blast
  next
    case (Some p)
    with assms have "s2 = s\<lparr>latest_odom_pose := p\<rparr>" by (simp add: getOdomPose_Some)
    then show ?thesis by blast
  qed
qed

lemma laser_gate_initialized:
  assumes "pf_init_scan s"
  shows "laser_gate s pose =
     (s\<lparr>m_force_update_scan := False,
         lasers_update :=
           (if moved s pose (latest_odom_pose_scan s) \<or> m_force_update_scan s
            then map (\<lambda>b. True) (lasers_update s) else lasers_update s)\<rparr>,
      pose_delta pose (pf_odom_pose s))"
  using assms by (simp add: laser_gate_def moved_def Let_def)

lemma laser_gate_uninitialized:
  assumes "\<not> pf_init_scan s"
  shows "laser_gate s pose = (s, pf_vector_zero)"
  using assms by (simp add: laser_gate_def)

lemma laser_init_or_motion_initialized:
  assumes "pf_init_scan s" "k < length (lasers_update s)"
  shows "laser_init_or_motion s k pose delta =
     Running s (if lasers_update s ! k then [OdomUpdateAction pose delta] else []) False"
  using assms by (simp add: laser_init_or_motion_def)

lemma laser_init_or_motion_first:
  assumes "\<not> pf_init_scan s"
  shows "laser_init_or_motion s k pose delta =
     Running (s\<lparr>pf_odom_pose := pose, latest_odom_pose_scan := pose, pf_init_scan := True,
                lasers_update := map (\<lambda>b. True) (lasers_update s),
                resample_count_scan := 0\<rparr>) [] True"
  using assms by (simp add: laser_init_or_motion_def)

lemma laser_init_or_motion_no_return: "laser_init_or_motion s k pose delta \<noteq> Return s' ev"
  by (simp add: laser_init_or_motion_def)

lemma laser_init_or_motion_events:
  assumes "laser_init_or_motion s k pose delta = Running s' ev fp"
  shows "\<not> list_ex is_laser_scoring ev" and "\<not> list_ex is_resample ev"
  using assms by (auto simp: laser_init_or_motion_def split: if_splits)

lemma laser_sensor_update_in_range:
  assumes "k < length (lasers_update s)"
  shows "laser_sensor_update s laser_scan env k pose =
     (if lasers_update s ! k
      then (case env_base_angles env of
              None \<Rightarrow>
                Return s [ROS_WARN ''Unable to transform min/max laser angles into base frame: %s'']
            | Some yaws \<Rightarrow>
                Running
                  (s\<lparr>updated_scan := True,
                      lasers_update := (lasers_update s)[k := False],
                      latest_odom_pose_scan := pose,
                      pf_odom_pose := pose\<rparr>)
                  ([LaserUpdateSensor
                      (laser_data s laser_scan k (fst yaws)
                         (fmod (snd yaws - fst yaws + 5 * pi) (2 * pi) - pi)),
                    PfUpdateResample]
                     @ (if \<not> m_force_update_scan s
                        then [PublishParticleCloud (env_samples env)] else []))
                  True)
      else Running s [] False)"
  using assms by (simp add: laser_sensor_update_def Let_def split: option.splits)

lemma read_hyps_events:
  "\<not> list_ex is_laser_scoring (snd (snd (read_hyps cs w b)))
   \<and> \<not> list_ex is_marker_scoring (snd (snd (read_hyps cs w b)))
   \<and> \<not> list_ex is_resample (snd (snd (read_hyps cs w b)))
   \<and> \<not> list_ex is_cluster_stats (snd (snd (read_hyps cs w b)))"
  by (induction cs w b rule: read_hyps.induct) simp_all

lemma save_pose_if_due_events:
  "\<not> list_ex is_laser_scoring (snd (save_pose_if_due s now))
   \<and> \<not> list_ex is_marker_scoring (snd (save_pose_if_due s now))
   \<and> \<not> list_ex is_resample (snd (save_pose_if_due s now))"
  by (simp add: save_pose_if_due_def)

lemma laser_publish_no_fault: "laser_publish s laser_scan env rs fp \<noteq> Fault f"
  by (simp add: laser_publish_def Let_def split: option.splits)

lemma laser_publish_events:
  assumes "laser_publish s laser_scan env rs fp = Running s' ev u
         \<or> laser_publish s laser_scan env rs fp = Return s' ev"
  shows "\<not> list_ex is_laser_scoring ev" and "\<not> list_ex is_resample ev"
  using assms read_hyps_events [of "env_clusters env" 0 None]
    save_pose_if_due_events [of s "env_now env"]
  by (auto simp: laser_publish_def Let_def split: if_splits option.splits)

lemma laserReceived_no_map:
  assumes "cur_map s = None"
  shows "laserReceived L s laser_scan env = Inr (s, [])"
  using assms by (simp add: laserReceived_def)

lemma laserReceived_cases [consumes 2, case_names no_laser_pose no_odom no_angles published]:
  assumes r: "laserReceived L s laser_scan env = Inr (s', evs)" and m: "cur_map s \<noteq> None"
  obtains
    (no_laser_pose) "laser_lookup s laser_scan env = Return s' evs"
  | (no_odom) s1 ev1 k ev2 where
      "laser_lookup s laser_scan env = Running s1 ev1 k"
      "getOdomPose L s1 (env_odom_pose env) = (s', ev2, None)"
      "evs = ev1 @ ev2 @ [ROS_ERROR ''Couldn't determine robot's pose associated with laser scan'']"
  | (no_angles) s1 ev1 k s2 ev2 pose s3 delta s4 ev4 fp ev5 where
      "laser_lookup s laser_scan env = Running s1 ev1 k"
      "getOdomPose L s1 (env_odom_pose env) = (s2, ev2, Some pose)"
      "laser_gate s2 pose = (s3, delta)"
      "laser_init_or_motion s3 k pose delta = Running s4 ev4 fp"
      "laser_sensor_update s4 laser_scan env k pose = Return s' ev5"
      "evs = ev1 @ ev2 @ ev4 @ ev5"
  | (published) s1 ev1 k s2 ev2 pose s3 delta s4 ev4 fp s5 ev5 rs ev6 where
      "laser_lookup s laser_scan env = Running s1 ev1 k"
      "getOdomPose L s1 (env_odom_pose env) = (s2, ev2, Some pose)"
      "laser_gate s2 pose = (s3, delta)"
      "laser_init_or_motion s3 k pose delta = Running s4 ev4 fp"
      "laser_sensor_update s4 laser_scan env k pose = Running s5 ev5 rs"
      "laser_publish s5 laser_scan env rs fp = Return s' ev6
         \<and> evs = ev1 @ ev2 @ ev4 @ ev5 @ ev6
       \<or> laser_publish s5 laser_scan env rs fp = Running s' ev6 ()
         \<and> evs = ev1 @ ev2 @ ev4 @ ev5 @ ev6 @ [PublishPaths]"
proof (cases "laser_lookup s laser_scan env")
  case (Fault f)
  with r m show ?thesis by (simp add: laserReceived_def)
next
  case (Return s1 ev1)
  with r m have "s1 = s'" "ev1 = evs" by (simp_all add: laserReceived_def)
  with Return no_laser_pose show ?thesis by simp
next
  case (Running s1 ev1 k)
  obtain s2 ev2 po where g: "getOdomPose L s1 (env_odom_pose env) = (s2, ev2, po)"
    by (cases "getOdomPose L s1 (env_odom_pose env)") auto
  show ?thesis
  proof (cases po)
    case None
    with r m Running g have "s2 = s'"
      "evs = ev1 @ ev2 @ [ROS_ERROR ''Couldn't determine robot's pose associated with laser scan'']"
      by (simp_all add: laserReceived_def)
    with Running g None no_odom show ?thesis by simp
  next
    case (Some pose)
    obtain s3 delta where lg: "laser_gate s2 pose = (s3, delta)"
      by (cases "laser_gate s2 pose") auto
    show ?thesis
    proof (cases "laser_init_or_motion s3 k pose delta")
      case (Fault f)
      with r m Running g Some lg show ?thesis by (simp add: laserReceived_def)
    next
      case (Return s4 ev4)
      with laser_init_or_motion_no_return show ?thesis by blast
    next
      case im: (Running s4 ev4 fp)
      show ?thesis
      proof (cases "laser_sensor_update s4 laser_scan env k pose")
        case (Fault f)
        with r m Running g Some lg im show ?thesis by (simp add: laserReceived_def)
      next
        case (Return s5 ev5)
        with r m Running g Some lg im have "s5 = s'" "evs = ev1 @ ev2 @ ev4 @ ev5"
          by (simp_all add: laserReceived_def)
        with Running g Some lg im Return no_angles show ?thesis by simp
      next
        case su: (Running s5 ev5 rs)
        show ?thesis
        proof (cases "laser_publish s5 laser_scan env rs fp")
          case (Fault f)
          with laser_publish_no_fault show ?thesis by blast
        next
          case (Return s6 ev6)
          with r m Running g Some lg im su have "s6 = s'" "evs = ev1 @ ev2 @ ev4 @ ev5 @ ev6"
            by (simp_all add: laserReceived_def)
          with Running g Some lg im su Return published show ?thesis by simp
        next
          case lp: (Running s6 ev6 u)
          with r m Running g Some lg im su
          have "s6 = s'" "evs = ev1 @ ev2 @ ev4 @ ev5 @ ev6 @ [PublishPaths]"
            by (simp_all add: laserReceived_def)
          with Running g Some lg im su lp published show ?thesis by simp
        qed
      qed
    qed
  qed
qed


lemma laserReceived_total:
  assumes fit: "lasers_fit s"
  shows "\<exists>s' evs. laserReceived L s laser_scan env = Inr (s', evs)"
proof (cases "cur_map s = None")
  case True
  then show ?thesis by (simp add: laserReceived_def)
next
  case m: False
  show ?thesis
  proof (cases "laser_lookup s laser_scan env")
    case (Fault f)
    with laser_lookup_no_fault [OF fit] show ?thesis by blast
  next
    case (Return s1 ev1)
    with m show ?thesis by (simp add: laserReceived_def)
  next
    case (Running s1 ev1 k)
    note k = laser_lookup_Running(1) [OF Running fit]
    obtain s2 ev2 po where g: "getOdomPose L s1 (env_odom_pose env) = (s2, ev2, po)"
      by (cases "getOdomPose L s1 (env_odom_pose env)") auto
    from getOdomPose_result(5) [OF g] k have k2: "k < length (lasers_update s2)" by auto
    show ?thesis
    proof (cases po)
      case None
      with m Running g show ?thesis by (simp add: laserReceived_def)
    next
      case (Some pose)
      obtain s3 delta where lg: "laser_gate s2 pose = (s3, delta)"
        by (cases "laser_gate s2 pose") auto
      from lg k2 have k3: "k < length (lasers_update s3)"
        by (auto simp: laser_gate_def Let_def split: if_splits)
      obtain s4 ev4 fp where im: "laser_init_or_motion s3 k pose delta = Running s4 ev4 fp"
        and k4: "k < length (lasers_update s4)"
        using k3 by (cases "pf_init_scan s3")
          (auto simp: laser_init_or_motion_initialized laser_init_or_motion_first)
      from laser_sensor_update_in_range [OF k4, of laser_scan env pose]
      consider (ret) s5 ev5 where "laser_sensor_update s4 laser_scan env k pose = Return s5 ev5"
        | (run) s5 ev5 rs where "laser_sensor_update s4 laser_scan env k pose = Running s5 ev5 rs"
        by (auto split: if_splits option.splits)
      then show ?thesis
      proof cases
        case ret
        with m Running g Some lg im show ?thesis by (simp add: laserReceived_def)
      next
        case run
        with m Running g Some lg im laser_publish_no_fault [of s5 laser_scan env rs fp]
        show ?thesis
          by (cases "laser_publish s5 laser_scan env rs fp") (auto simp: laserReceived_def)
      qed
    qed
  qed
qed

text \<open>
  One laser cycle on an initialised filter, up to the sensor update: the flag the sensor
  update reads is set exactly when the robot moved beyond a threshold, the force flag was
  set, or the flag was already set.
\<close>

lemma laser_cycle_flag:
  assumes i: "pf_init_scan s" and fit: "lasers_fit s"
    and l: "laser_lookup s laser_scan env = Running s1 ev1 k"
    and g: "getOdomPose L s1 (env_odom_pose env) = (s2, ev2, Some pose)"
    and lg: "laser_gate s2 pose = (s3, delta)"
    and im: "laser_init_or_motion s3 k pose delta = Running s4 ev4 fp"
  shows "k < length (lasers_update s4)"
    and "lasers_update s4 ! k
          = (moved s pose (latest_odom_pose_scan s) \<or> m_force_update_scan s
             \<or> laser_pending s laser_scan)"
    and "\<not> fp"
    and "\<not> m_force_update_scan s4"
proof -
  from laser_lookup_Running [OF l fit]
  obtain lv lu fl where k1: "k < length (lasers_update s1)"
    and p1: "lasers_update s1 ! k = laser_pending s laser_scan"
    and s1: "s1 = s\<lparr>lasers_vec := lv, lasers_update := lu, frame_to_laser := fl\<rparr>"
    by blast
  from getOdomPose_result(5) [OF g] obtain p where s2: "s2 = s1\<lparr>latest_odom_pose := p\<rparr>"
    by blast
  have i2: "pf_init_scan s2" using i s1 s2 by simp
  have mv: "moved s2 pose (latest_odom_pose_scan s2) = moved s pose (latest_odom_pose_scan s)"
    using s1 s2 by (simp add: moved_def exceeds_thresholds_def)
  have f2: "m_force_update_scan s2 = m_force_update_scan s" using s1 s2 by simp
  have lu2: "lasers_update s2 = lasers_update s1" using s2 by simp
  from lg laser_gate_initialized [OF i2, of pose]
  have s3: "s3 = s2\<lparr>m_force_update_scan := False,
         lasers_update :=
           (if moved s2 pose (latest_odom_pose_scan s2) \<or> m_force_update_scan s2
            then map (\<lambda>b. True) (lasers_update s2) else lasers_update s2)\<rparr>"
    by simp
  have i3: "pf_init_scan s3" using s3 i2 by simp
  have k3: "k < length (lasers_update s3)" using s3 k1 lu2 by simp
  from im laser_init_or_motion_initialized [OF i3 k3, of pose delta]
  have s4: "s4 = s3" and fp: "fp = False" by simp_all
  show "k < length (lasers_update s4)" using s4 k3 by simp
  show "\<not> fp" using fp by simp
  show "\<not> m_force_update_scan s4" using s4 s3 by simp
  show "lasers_update s4 ! k
          = (moved s pose (latest_odom_pose_scan s) \<or> m_force_update_scan s
             \<or> laser_pending s laser_scan)"
    using s4 s3 k1 lu2 p1 mv f2 by auto
qed


lemma is_marker_scoring_iff:
  "list_ex is_marker_scoring evs \<longleftrightarrow> (\<exists>obs. MarkerUpdateSensor obs \<in> set evs)"
proof (induction evs)
  case Nil
  show ?case by simp
next
  case (Cons e evs)
  then show ?case by (cases e) auto
qed

lemma is_resample_iff: "list_ex is_resample evs \<longleftrightarrow> PfUpdateResample \<in> set evs"
proof (induction evs)
  case Nil
  show ?case by simp
next
  case (Cons e evs)
  then show ?case by (cases e) auto
qed

lemma laser_lookup_events:
  "laser_lookup s laser_scan env = Running s1 ev1 k
     \<Longrightarrow> \<not> list_ex is_laser_scoring ev1 \<and> \<not> list_ex is_resample ev1"
  "laser_lookup s laser_scan env = Return s1 ev1
     \<Longrightarrow> \<not> list_ex is_laser_scoring ev1 \<and> \<not> list_ex is_resample ev1"
  by (auto simp: laser_lookup_def Let_def split: option.splits if_splits)

lemma laser_sensor_update_events:
  "laser_sensor_update s laser_scan env k pose = Return s' ev
     \<Longrightarrow> \<not> list_ex is_laser_scoring ev \<and> \<not> list_ex is_resample ev"
  "laser_sensor_update s laser_scan env k pose = Running s' ev rs
     \<Longrightarrow> (list_ex is_laser_scoring ev \<longleftrightarrow> rs) \<and> (list_ex is_resample ev \<longleftrightarrow> rs)"
  by (auto simp: laser_sensor_update_def Let_def split: if_splits option.splits)



text \<open>
  Whatever the state: a laser callback that returns scores exactly when it resamples, and
  the data it scores with are the scan's, clamped.
\<close>

lemma laserReceived_scoring_resamples:
  assumes r: "laserReceived L s laser_scan env = Inr (s', evs)"
  shows "list_ex is_laser_scoring evs \<longleftrightarrow> list_ex is_resample evs"
proof (cases "cur_map s = None")
  case True
  with r show ?thesis by (simp add: laserReceived_def)
next
  case False
  from r False show ?thesis
  proof (cases rule: laserReceived_cases)
    case no_laser_pose
    from laser_lookup_events(2) [OF this] show ?thesis by simp
  next
    case (no_odom s1 ev1 k ev2)
    from laser_lookup_events(1) [OF no_odom(1)] getOdomPose_result(1,2) [OF no_odom(2)]
    show ?thesis unfolding no_odom(3) by simp
  next
    case (no_angles s1 ev1 k s2 ev2 pose s3 delta s4 ev4 fp ev5)
    from laser_lookup_events(1) [OF no_angles(1)] getOdomPose_result(1,2) [OF no_angles(2)]
      laser_init_or_motion_events [OF no_angles(4)] laser_sensor_update_events(1) [OF no_angles(5)]
    show ?thesis unfolding no_angles(6) by simp
  next
    case (published s1 ev1 k s2 ev2 pose s3 delta s4 ev4 fp s5 ev5 rs ev6)
    from published(6) have n6: "\<not> list_ex is_laser_scoring ev6" "\<not> list_ex is_resample ev6"
      using laser_publish_events by blast+
    note n = laser_lookup_events(1) [OF published(1)] getOdomPose_result(1,2) [OF published(2)]
      laser_init_or_motion_events [OF published(4)] laser_sensor_update_events(2) [OF published(5)]
    from published(6) show ?thesis
    proof (elim disjE conjE)
      assume "evs = ev1 @ ev2 @ ev4 @ ev5 @ ev6"
      with n n6 show ?thesis by simp
    next
      assume "evs = ev1 @ ev2 @ ev4 @ ev5 @ ev6 @ [PublishPaths]"
      with n n6 show ?thesis by simp
    qed
  qed
qed


text \<open>
  On an initialised filter, with the poses at hand: the callback returns, and it scores
  exactly when the flag is set after the update test and the scan's angles transform.
\<close>

lemma laser_scoring_iff:
  assumes m: "cur_map s \<noteq> None" and i: "pf_init_scan s" and fit: "lasers_fit s"
    and o: "env_odom_pose env = Some odom_pose"
    and lp: "map_of (frame_to_laser s) (scan_frame_id laser_scan) \<noteq> None
             \<or> env_laser_pose env \<noteq> None"
  shows "\<exists>s' evs. laserReceived L s laser_scan env = Inr (s', evs)
           \<and> (list_ex is_laser_scoring evs \<longleftrightarrow>
                (moved s (pose_of L odom_pose) (latest_odom_pose_scan s)
                 \<or> m_force_update_scan s \<or> laser_pending s laser_scan)
                \<and> env_base_angles env \<noteq> None)"
proof -
  from laserReceived_total [OF fit, of L laser_scan env]
  obtain s' evs where r: "laserReceived L s laser_scan env = Inr (s', evs)" by blast
  let ?flag = "moved s (pose_of L odom_pose) (latest_odom_pose_scan s)
                 \<or> m_force_update_scan s \<or> laser_pending s laser_scan"
  have "list_ex is_laser_scoring evs \<longleftrightarrow> ?flag \<and> env_base_angles env \<noteq> None"
    using r m
  proof (cases rule: laserReceived_cases)
    case no_laser_pose
    show ?thesis
    proof (cases "map_of (frame_to_laser s) (scan_frame_id laser_scan)")
      case None
      with lp laser_lookup_new [OF None fit, of env] no_laser_pose show ?thesis by auto
    next
      case (Some k)
      with laser_lookup_known [OF Some, of env] no_laser_pose show ?thesis by simp
    qed
  next
    case (no_odom s1 ev1 k ev2)
    with o show ?thesis by (simp add: getOdomPose_Some)
  next
    case (no_angles s1 ev1 k s2 ev2 pose s3 delta s4 ev4 fp ev5)
    from no_angles(2) o have p: "pose = pose_of L odom_pose" by (simp add: getOdomPose_Some)
    note c = laser_cycle_flag [OF i fit no_angles(1,2,3,4)]
    from laser_sensor_update_in_range [OF c(1), of laser_scan env pose] no_angles(5)
    have "env_base_angles env = None" by (auto split: if_splits option.splits)
    moreover have "\<not> list_ex is_laser_scoring evs"
      using laser_lookup_events(1) [OF no_angles(1)]
        getOdomPose_result(1) [OF no_angles(2)] laser_init_or_motion_events(1) [OF no_angles(4)]
        laser_sensor_update_events(1) [OF no_angles(5)]
      unfolding no_angles(6) by simp
    ultimately show ?thesis by simp
  next
    case (published s1 ev1 k s2 ev2 pose s3 delta s4 ev4 fp s5 ev5 rs ev6)
    from published(2) o have p: "pose = pose_of L odom_pose" by (simp add: getOdomPose_Some)
    note c = laser_cycle_flag [OF i fit published(1,2,3,4)]
    from laser_sensor_update_in_range [OF c(1), of laser_scan env pose] published(5)
    have rs: "rs \<longleftrightarrow> lasers_update s4 ! k \<and> env_base_angles env \<noteq> None"
      by (auto split: if_splits option.splits)
    from published(6) have n6: "\<not> list_ex is_laser_scoring ev6"
      using laser_publish_events by blast
    note n = laser_lookup_events(1) [OF published(1)]
        getOdomPose_result(1) [OF published(2)] laser_init_or_motion_events(1) [OF published(4)]
        laser_sensor_update_events(2) [OF published(5)]
    from published(6) have "list_ex is_laser_scoring evs \<longleftrightarrow> rs"
    proof (elim disjE conjE)
      assume "evs = ev1 @ ev2 @ ev4 @ ev5 @ ev6"
      with n n6 show ?thesis by simp
    next
      assume "evs = ev1 @ ev2 @ ev4 @ ev5 @ ev6 @ [PublishPaths]"
      with n n6 show ?thesis by simp
    qed
    with rs c(2) p show ?thesis by simp
  qed
  with r show ?thesis by blast
qed

subsection \<open>The marker callback, block by block\<close>

lemma is_pose_publication_iff:
  "list_ex is_pose_publication evs \<longleftrightarrow> (\<exists>p. PublishPose p \<in> set evs)"
proof (induction evs)
  case Nil
  show ?case by simp
next
  case (Cons e evs)
  then show ?case by (cases e) auto
qed

lemma smod_eq_0_iff_dvd:
  fixes a b :: int
  shows "a smod b = 0 \<longleftrightarrow> b dvd a"
proof -
  have "a smod b = 0 \<longleftrightarrow> a = 0 \<or> \<bar>a\<bar> mod \<bar>b\<bar> = 0"
    by (auto simp: smod_int_alt_def sgn_if)
  also have "\<dots> \<longleftrightarrow> \<bar>b\<bar> dvd \<bar>a\<bar>" by (auto simp: dvd_eq_mod_eq_0)
  finally show ?thesis by simp
qed

lemma camera_lookup_eq:
  "camera_lookup s msg =
     s\<lparr>marker_update := (marker_update s \<or> frame_to_camera s \<noteq> det_frame_id msg),
        frame_to_camera := det_frame_id msg\<rparr>"
  by (simp add: camera_lookup_def)

lemma camera_gate_initialized:
  assumes "pf_init_cam s"
  shows "camera_gate s pose =
     (s\<lparr>m_force_update_cam := False,
         marker_update :=
           (moved s pose (latest_odom_pose_camera s) \<or> m_force_update_cam s \<or> marker_update s)\<rparr>,
      pose_delta pose (pf_odom_pose s))"
  using assms by (simp add: camera_gate_def moved_def Let_def)

lemma camera_gate_uninitialized:
  assumes "\<not> pf_init_cam s"
  shows "camera_gate s pose = (s, pf_vector_zero)"
  using assms by (simp add: camera_gate_def)

lemma camera_init_or_motion_initialized:
  assumes "pf_init_cam s"
  shows "camera_init_or_motion s pose delta =
     (s, if marker_update s then [OdomUpdateAction pose delta] else [], False)"
  using assms by (simp add: camera_init_or_motion_def)

lemma camera_init_or_motion_first:
  assumes "\<not> pf_init_cam s"
  shows "camera_init_or_motion s pose delta =
     (s\<lparr>pf_odom_pose := pose, latest_odom_pose_camera := pose, pf_init_cam := True,
         marker_update := True, resample_count_cam := 0\<rparr>, [], True)"
  using assms by (simp add: camera_init_or_motion_def)

lemma camera_init_or_motion_events:
  assumes "camera_init_or_motion s pose delta = (s', ev, fp)"
  shows "\<not> list_ex is_marker_scoring ev" and "\<not> list_ex is_resample ev"
    and "\<not> list_ex is_cluster_stats ev" and "\<not> list_ex is_pose_publication ev"
  using assms by (auto simp: camera_init_or_motion_def split: if_splits)

lemma camera_sensor_update_skip:
  assumes "\<not> marker_update s"
  shows "camera_sensor_update s observation env pose = Running s [] False"
  using assms by (simp add: camera_sensor_update_def)

lemma camera_sensor_update_run:
  assumes "marker_update s" and "int_fits (resample_count_cam s + 1)"
    and "resample_interval s \<noteq> 0"
  shows "camera_sensor_update s observation env pose =
     Running
       (s\<lparr>updated_camera := (updated_camera s \<or> observation \<noteq> []),
           latest_odom_pose_camera := pose, pf_odom_pose := pose, marker_update := False,
           resample_count_cam := resample_count_cam s + 1\<rparr>)
       ((if observation \<noteq> [] then [MarkerUpdateSensor observation] else [])
          @ (if resample_interval s dvd resample_count_cam s + 1 then [PfUpdateResample] else [])
          @ (if \<not> m_force_update_cam s then [PublishParticleCloud (env_samples env)] else []))
       True"
  using assms by (simp add: camera_sensor_update_def Let_def smod_eq_0_iff_dvd)

lemma camera_sensor_update_no_return:
  "camera_sensor_update s observation env pose \<noteq> Return s' ev"
  by (simp add: camera_sensor_update_def Let_def)

lemma camera_publish_no_fault: "camera_publish s msg observation env rs fp \<noteq> Fault f"
  by (simp add: camera_publish_def Let_def split: option.splits)

lemma save_pose_if_due_events':
  "\<not> list_ex is_cluster_stats (snd (save_pose_if_due s now))
   \<and> \<not> list_ex is_pose_publication (snd (save_pose_if_due s now))"
  by (simp add: save_pose_if_due_def)

lemma camera_publish_events:
  assumes "camera_publish s msg observation env rs fp = Running s' ev u
         \<or> camera_publish s msg observation env rs fp = Return s' ev"
  shows "\<not> list_ex is_marker_scoring ev" and "\<not> list_ex is_resample ev"
    and "rs \<Longrightarrow> \<not> list_ex is_cluster_stats ev"
  using assms read_hyps_events [of "env_clusters env" 0 None]
    save_pose_if_due_events [of s "env_now env"] save_pose_if_due_events' [of s "env_now env"]
  by (auto simp: camera_publish_def Let_def split: if_splits option.splits)

lemma read_hyps_best_gen:
  "b \<noteq> None \<or> w < fst (read_hyps cs w b) \<Longrightarrow> fst (snd (read_hyps cs w b)) \<noteq> None"
proof (induction cs w b rule: read_hyps.induct)
  case (1 max_weight best)
  then show ?case by simp
next
  case (2 cs max_weight best)
  then show ?case by simp
next
  case (3 weight pose_mean pose_cov cs max_weight best)
  show ?case
  proof (cases "weight > max_weight")
    case True
    with "3.IH"(1) show ?thesis by simp
  next
    case False
    with "3.IH"(2) "3.prems" show ?thesis by simp
  qed
qed

lemma read_hyps_best:
  "fst (read_hyps cs w None) > w \<Longrightarrow> fst (snd (read_hyps cs w None)) \<noteq> None"
  using read_hyps_best_gen [of None w cs] by simp

lemma read_hyps_mono: "w \<le> fst (read_hyps cs w b)"
  by (induction cs w b rule: read_hyps.induct) (auto split: if_splits)

lemma read_hyps_pose_events:
  "\<not> list_ex is_pose_publication (snd (snd (read_hyps cs w b)))"
  by (induction cs w b rule: read_hyps.induct) simp_all

lemma camera_publish_pose:
  assumes "camera_publish s msg observation env True fp = Running s' ev u
         \<or> camera_publish s msg observation env True fp = Return s' ev"
  shows "list_ex is_pose_publication ev \<longleftrightarrow> 0 < fst (read_hyps (env_clusters env) 0 None)"
  using assms read_hyps_best [where cs = "env_clusters env" and w = 0]
    read_hyps_pose_events [of "env_clusters env" 0 None]
  by (auto simp: camera_publish_def Let_def split: if_splits option.splits)

lemma camera_sensor_update_setup:
  "camera_sensor_update s observation env pose = Running s' ev b \<Longrightarrow> setup_of s' = setup_of s"
  by (auto simp: camera_sensor_update_def setup_of_def Let_def split: if_splits)


lemma camera_front_setup:
  "setup_of (camera_lookup s msg) = setup_of s"
  "setup_of (fst (camera_gate s pose)) = setup_of s"
  "setup_of (fst (camera_init_or_motion s pose delta)) = setup_of s"
  by (simp_all add: camera_lookup_def camera_gate_def camera_init_or_motion_def setup_of_def Let_def)

lemma observation_of_empty: "observation_of msg = [] \<longleftrightarrow> DetectedMarkers msg = []"
  by (simp add: observation_of_def)

lemma detectionCallback_cases [consumes 2, case_names no_odom published]:
  assumes r: "detectionCallback L s msg env = Inr (s', evs)" and m: "cur_map s \<noteq> None"
  obtains
    (no_odom) ev2 where
      "getOdomPose L (camera_lookup s msg) (env_odom_pose env) = (s', ev2, None)"
      "evs = ev2 @ [ROS_ERROR ''Couldn't determine robot's pose associated with camera info'']"
  | (published) s2 ev2 pose s3 delta s4 ev4 fp s5 ev5 rs ev6 where
      "getOdomPose L (camera_lookup s msg) (env_odom_pose env) = (s2, ev2, Some pose)"
      "camera_gate s2 pose = (s3, delta)"
      "camera_init_or_motion s3 pose delta = (s4, ev4, fp)"
      "camera_sensor_update s4 (observation_of msg) env pose = Running s5 ev5 rs"
      "camera_publish s5 msg (observation_of msg) env rs fp = Return s' ev6
         \<and> evs = ev2 @ ev4 @ ev5 @ ev6
       \<or> camera_publish s5 msg (observation_of msg) env rs fp = Running s' ev6 ()
         \<and> evs = ev2 @ ev4 @ ev5 @ ev6 @ [PublishPaths]"
proof -
  obtain s2 ev2 po where g: "getOdomPose L (camera_lookup s msg) (env_odom_pose env) = (s2, ev2, po)"
    by (cases "getOdomPose L (camera_lookup s msg) (env_odom_pose env)") auto
  show ?thesis
  proof (cases po)
    case None
    with r m g have "s2 = s'"
      "evs = ev2 @ [ROS_ERROR ''Couldn't determine robot's pose associated with camera info'']"
      by (simp_all add: detectionCallback_def Let_def)
    with g None no_odom show ?thesis by simp
  next
    case (Some pose)
    obtain s3 delta where cg: "camera_gate s2 pose = (s3, delta)"
      by (cases "camera_gate s2 pose") auto
    obtain s4 ev4 fp where im: "camera_init_or_motion s3 pose delta = (s4, ev4, fp)"
      by (cases "camera_init_or_motion s3 pose delta") auto
    show ?thesis
    proof (cases "camera_sensor_update s4 (observation_of msg) env pose")
      case (Fault f)
      with r m g Some cg im show ?thesis
        by (simp add: detectionCallback_def Let_def observation_of_def)
    next
      case (Return s5 ev5)
      with camera_sensor_update_no_return show ?thesis by blast
    next
      case su: (Running s5 ev5 rs)
      show ?thesis
      proof (cases "camera_publish s5 msg (observation_of msg) env rs fp")
        case (Fault f)
        with camera_publish_no_fault show ?thesis by blast
      next
        case (Return s6 ev6)
        with r m g Some cg im su have "s6 = s'" "evs = ev2 @ ev4 @ ev5 @ ev6"
          by (simp_all add: detectionCallback_def Let_def observation_of_def)
        with g Some cg im su Return published show ?thesis by simp
      next
        case cp: (Running s6 ev6 u)
        with r m g Some cg im su
        have "s6 = s'" "evs = ev2 @ ev4 @ ev5 @ ev6 @ [PublishPaths]"
          by (simp_all add: detectionCallback_def Let_def observation_of_def)
        with g Some cg im su cp published show ?thesis by simp
      qed
    qed
  qed
qed

lemma is_send_transform_iff:
  "list_ex is_send_transform evs \<longleftrightarrow> (\<exists>t. SendTransform t \<in> set evs)"
proof (induction evs)
  case Nil
  show ?case by simp
next
  case (Cons e evs)
  then show ?case by (cases e) auto
qed

lemma camera_publish_count:
  "camera_publish s msg observation env r fp = Running s' ev u
     \<Longrightarrow> resample_count_cam s' = resample_count_cam s"
  "camera_publish s msg observation env r fp = Return s' ev
     \<Longrightarrow> resample_count_cam s' = resample_count_cam s"
  by (auto simp: camera_publish_def save_pose_if_due_def Let_def split: if_splits option.splits)

text \<open>
  One marker callback with the map and the odometric pose at hand, up to the publication.
  The cycle runs on the first observation, and afterwards when the robot moved beyond a
  threshold, the force flag was set, the update flag was already set or the camera frame
  changed. \<open>count\<close> is the cycle count the increment starts from: the first cycle resets
  it.
\<close>

lemma detectionCallback_stages:
  fixes s :: AmclNode and msg :: messagedet and env :: callback_env and L :: ros_lib
  defines "pose \<equiv> pose_of L (the (env_odom_pose env))"
  defines "cycle \<equiv> (\<not> pf_init_cam s \<or> moved s pose (latest_odom_pose_camera s)
                      \<or> m_force_update_cam s \<or> marker_update s
                      \<or> frame_to_camera s \<noteq> det_frame_id msg)"
  defines "count \<equiv> (if pf_init_cam s then resample_count_cam s else 0)"
  assumes m: "cur_map s \<noteq> None" and o: "env_odom_pose env \<noteq> None"
    and ri: "resample_interval s \<noteq> 0" and cf: "int_fits (count + 1)"
  shows "\<exists>s5 ev fp s' ev6 evs.
           detectionCallback L s msg env = Inr (s', evs)
           \<and> (camera_publish s5 msg (observation_of msg) env cycle fp = Return s' ev6
                 \<and> evs = ev @ ev6
               \<or> camera_publish s5 msg (observation_of msg) env cycle fp = Running s' ev6 ()
                 \<and> evs = ev @ ev6 @ [PublishPaths])
           \<and> (list_ex is_marker_scoring ev \<longleftrightarrow> cycle \<and> DetectedMarkers msg \<noteq> [])
           \<and> (list_ex is_resample ev \<longleftrightarrow> cycle \<and> resample_interval s dvd count + 1)
           \<and> \<not> list_ex is_cluster_stats ev \<and> \<not> list_ex is_pose_publication ev
           \<and> \<not> list_ex is_send_transform ev
           \<and> resample_count_cam s5 = (if cycle then count + 1 else resample_count_cam s)
           \<and> setup_of s5 = setup_of s
           \<and> latest_tf_valid s5 = latest_tf_valid s \<and> latest_tf s5 = latest_tf s
           \<and> (fp \<longrightarrow> cycle)"
proof -
  from o obtain odom_pose where op: "env_odom_pose env = Some odom_pose" by blast
  then have pose: "pose = pose_of L odom_pose" by (simp add: pose_def)
  let ?s1 = "camera_lookup s msg"
  let ?s2 = "?s1\<lparr>latest_odom_pose := odom_pose\<rparr>"
  let ?obs = "observation_of msg"
  have g: "getOdomPose L ?s1 (env_odom_pose env) = (?s2, [], Some pose)"
    by (simp add: op getOdomPose_Some pose)
  obtain s3 delta where cg: "camera_gate ?s2 pose = (s3, delta)"
    by (cases "camera_gate ?s2 pose") auto
  obtain s4 ev4 fp where im: "camera_init_or_motion s3 pose delta = (s4, ev4, fp)"
    by (cases "camera_init_or_motion s3 pose delta") auto
  have mv: "moved ?s2 pose (latest_odom_pose_camera ?s2) = moved s pose (latest_odom_pose_camera s)"
    by (simp add: camera_lookup_eq moved_def exceeds_thresholds_def)
  have s4: "marker_update s4 = cycle \<and> resample_count_cam s4 = count
      \<and> resample_interval s4 = resample_interval s
      \<and> latest_tf_valid s4 = latest_tf_valid s \<and> latest_tf s4 = latest_tf s
      \<and> (fp \<longrightarrow> cycle) \<and> \<not> list_ex is_send_transform ev4"
  proof (cases "pf_init_cam s")
    case True
    then have i2: "pf_init_cam ?s2" by (simp add: camera_lookup_eq)
    from cg camera_gate_initialized [OF i2, of pose]
    have s3: "s3 = ?s2\<lparr>m_force_update_cam := False,
         marker_update :=
           (moved ?s2 pose (latest_odom_pose_camera ?s2) \<or> m_force_update_cam ?s2
            \<or> marker_update ?s2)\<rparr>"
      by simp
    then have i3: "pf_init_cam s3" using i2 by simp
    from im camera_init_or_motion_initialized [OF i3, of pose delta]
    have "s4 = s3" "\<not> fp" "\<not> list_ex is_send_transform ev4" by (auto split: if_splits)
    with s3 mv True show ?thesis
      by (auto simp: camera_lookup_eq cycle_def count_def)
  next
    case False
    then have i2: "\<not> pf_init_cam ?s2" by (simp add: camera_lookup_eq)
    from cg camera_gate_uninitialized [OF i2, of pose] have s3: "s3 = ?s2" by simp
    then have i3: "\<not> pf_init_cam s3" using i2 by simp
    from im camera_init_or_motion_first [OF i3, of pose delta] s3 False show ?thesis
      by (auto simp: camera_lookup_eq cycle_def count_def)
  qed
  have su4: "setup_of s4 = setup_of s"
    using camera_front_setup(1) [of s msg] camera_front_setup(2) [of ?s2 pose] cg
      camera_front_setup(3) [of s3 pose delta] im
    by (simp add: setup_of_def)
  note e4 = camera_init_or_motion_events [OF im]
  have cnt: "\<not> cycle \<Longrightarrow> count = resample_count_cam s" by (auto simp: cycle_def count_def)
  obtain s5 ev5 where su: "camera_sensor_update s4 ?obs env pose = Running s5 ev5 cycle"
    and e5: "list_ex is_marker_scoring ev5 \<longleftrightarrow> cycle \<and> DetectedMarkers msg \<noteq> []"
      "list_ex is_resample ev5 \<longleftrightarrow> cycle \<and> resample_interval s dvd count + 1"
      "\<not> list_ex is_cluster_stats ev5" "\<not> list_ex is_pose_publication ev5"
      "\<not> list_ex is_send_transform ev5"
      "resample_count_cam s5 = (if cycle then count + 1 else resample_count_cam s)"
      "latest_tf_valid s5 = latest_tf_valid s" "latest_tf s5 = latest_tf s"
  proof (cases cycle)
    case True
    with s4 have mu: "marker_update s4" and c: "int_fits (resample_count_cam s4 + 1)"
      and r: "resample_interval s4 \<noteq> 0"
      using cf ri by simp_all
    from camera_sensor_update_run [OF mu c r, of ?obs env pose] s4 True that show ?thesis
      by (simp add: observation_of_empty)
  next
    case False
    with s4 have mu: "\<not> marker_update s4" by simp
    from camera_sensor_update_skip [OF mu, of ?obs env pose] s4 False cnt that show ?thesis
      by simp
  qed
  from camera_sensor_update_setup [OF su] su4 have su5: "setup_of s5 = setup_of s" by simp
  from m have nm: "(cur_map s = None) = False" by simp
  let ?ev = "ev4 @ ev5"
  have ev: "(list_ex is_marker_scoring ?ev \<longleftrightarrow> cycle \<and> DetectedMarkers msg \<noteq> [])
      \<and> (list_ex is_resample ?ev \<longleftrightarrow> cycle \<and> resample_interval s dvd count + 1)
      \<and> \<not> list_ex is_cluster_stats ?ev \<and> \<not> list_ex is_pose_publication ?ev
      \<and> \<not> list_ex is_send_transform ?ev"
    using e4 e5 s4 by simp
  consider (ret) s6 ev6 where "camera_publish s5 msg ?obs env cycle fp = Return s6 ev6"
    | (run) s6 ev6 where "camera_publish s5 msg ?obs env cycle fp = Running s6 ev6 ()"
    using camera_publish_no_fault [of s5 msg ?obs env cycle fp]
    by (cases "camera_publish s5 msg ?obs env cycle fp") auto
  then show ?thesis
  proof cases
    case ret
    then have d: "detectionCallback L s msg env = Inr (s6, ?ev @ ev6)"
      using g cg im su by (simp add: detectionCallback_def Let_def nm)
    show ?thesis
      using d ret ev e5(6,7,8) su5 s4 by blast
  next
    case run
    then have d: "detectionCallback L s msg env = Inr (s6, ?ev @ ev6 @ [PublishPaths])"
      using g cg im su by (simp add: detectionCallback_def Let_def nm)
    show ?thesis
      using d run ev e5(6,7,8) su5 s4 by blast
  qed
qed

lemma detectionCallback_cycle:
  fixes s :: AmclNode and msg :: messagedet and env :: callback_env and L :: ros_lib
  defines "pose \<equiv> pose_of L (the (env_odom_pose env))"
  defines "cycle \<equiv> (\<not> pf_init_cam s \<or> moved s pose (latest_odom_pose_camera s)
                      \<or> m_force_update_cam s \<or> marker_update s
                      \<or> frame_to_camera s \<noteq> det_frame_id msg)"
  defines "count \<equiv> (if pf_init_cam s then resample_count_cam s else 0)"
  assumes m: "cur_map s \<noteq> None" and o: "env_odom_pose env \<noteq> None"
    and ri: "resample_interval s \<noteq> 0" and cf: "int_fits (count + 1)"
  shows "\<exists>s' evs. detectionCallback L s msg env = Inr (s', evs)
           \<and> (list_ex is_marker_scoring evs \<longleftrightarrow> cycle \<and> DetectedMarkers msg \<noteq> [])
           \<and> (list_ex is_resample evs \<longleftrightarrow> cycle \<and> resample_interval s dvd count + 1)
           \<and> (if cycle
               then \<not> list_ex is_cluster_stats evs
                    \<and> (list_ex is_pose_publication evs
                         \<longleftrightarrow> 0 < fst (read_hyps (env_clusters env) 0 None))
                    \<and> resample_count_cam s' = count + 1
               else resample_count_cam s' = resample_count_cam s)"
proof -
  from detectionCallback_stages [OF m o ri cf [unfolded count_def], of L msg]
  obtain s5 ev fp s' ev6 evs where d: "detectionCallback L s msg env = Inr (s', evs)"
    and p: "camera_publish s5 msg (observation_of msg) env cycle fp = Return s' ev6
                 \<and> evs = ev @ ev6
               \<or> camera_publish s5 msg (observation_of msg) env cycle fp = Running s' ev6 ()
                 \<and> evs = ev @ ev6 @ [PublishPaths]"
    and e: "list_ex is_marker_scoring ev \<longleftrightarrow> cycle \<and> DetectedMarkers msg \<noteq> []"
      "list_ex is_resample ev \<longleftrightarrow> cycle \<and> resample_interval s dvd count + 1"
      "\<not> list_ex is_cluster_stats ev" "\<not> list_ex is_pose_publication ev"
    and c5: "resample_count_cam s5 = (if cycle then count + 1 else resample_count_cam s)"
    unfolding pose_def cycle_def count_def by blast
  from p have p': "camera_publish s5 msg (observation_of msg) env cycle fp = Running s' ev6 ()
      \<or> camera_publish s5 msg (observation_of msg) env cycle fp = Return s' ev6"
    by blast
  note e6 = camera_publish_events [OF p']
  from p have c': "resample_count_cam s' = resample_count_cam s5"
    using camera_publish_count by blast
  have pp: "cycle \<Longrightarrow> list_ex is_pose_publication ev6
      \<longleftrightarrow> 0 < fst (read_hyps (env_clusters env) 0 None)"
    using camera_publish_pose [of s5 msg "observation_of msg" env fp s' ev6] p' by simp
  from p have evs: "evs = ev @ ev6 \<or> evs = ev @ ev6 @ [PublishPaths]" by blast
  have "(list_ex is_marker_scoring evs \<longleftrightarrow> cycle \<and> DetectedMarkers msg \<noteq> [])
           \<and> (list_ex is_resample evs \<longleftrightarrow> cycle \<and> resample_interval s dvd count + 1)
           \<and> (if cycle
               then \<not> list_ex is_cluster_stats evs
                    \<and> (list_ex is_pose_publication evs
                         \<longleftrightarrow> 0 < fst (read_hyps (env_clusters env) 0 None))
                    \<and> resample_count_cam s' = count + 1
               else resample_count_cam s' = resample_count_cam s)"
    using evs
  proof
    assume "evs = ev @ ev6"
    with e e6 pp c' c5 show ?thesis by (cases cycle) simp_all
  next
    assume "evs = ev @ ev6 @ [PublishPaths]"
    with e e6 pp c' c5 show ?thesis by (cases cycle) simp_all
  qed
  with d show ?thesis by blast
qed

subsection \<open>The fusion coefficients\<close>


lemma setup_coeffs:
  assumes "setup_of s' = setup_of s"
  shows "marker_coeff s' = marker_coeff s" and "laser_coeff s' = laser_coeff s"
  using assms by (simp_all add: setup_of_def)












subsection \<open>The sample node\<close>

lemma node1_fields:
  "cur_map node1 = Some map3" "pf_init_scan node1" "pf_init_cam node1"
  "lasers_update node1 = [False]" "frame_to_laser node1 = [(''laser_a'', 0)]"
  "lasers_vec node1 = [Some (0, 0, 0)]"
  "d_thresh node1 = 1 / 5" "a_thresh node1 = pi / 6"
  "\<not> m_force_update_scan node1" "\<not> m_force_update_cam node1" "\<not> marker_update node1"
  "frame_to_camera node1 = ''camera''" "resample_interval node1 = 2"
  "resample_count_cam node1 = 0"
  "latest_odom_pose_scan node1 = (0, 0, 0)" "latest_odom_pose_camera node1 = (0, 0, 0)"
  "tf_broadcast node1" "transform_tolerance node1 = 100000000"
  "global_frame_id node1 = ''map''" "odom_frame_id node1 = ''odom''"
  "laser_min_range node1 = - 1" "laser_max_range node1 = - 1"
  by (simp_all add: node1_def AmclNode_new_def params0_def lib0_def pf_vector_zero_def)

lemma node_forced_eq:
  "node_forced = node1\<lparr>m_force_update_scan := True, m_force_update_cam := True\<rparr>"
  by (simp add: node_forced_def nomotionUpdateCallback_def)

lemma lasers_fit_node1: "lasers_fit node1"
  by (simp add: lasers_fit_def node1_fields)

lemma pose_of_identity: "pose_of lib0 tf_identity = (0, 0, 0)"
  by (simp add: pose_of_def lib0_def tf_identity_def origin_x_of_def origin_y_of_def)

lemma not_moved_node1: "\<not> moved node1 (0, 0, 0) (0, 0, 0)"
  by (simp add: moved_def exceeds_thresholds_def pose_delta_def v0_def v1_def v2_def
      angle_diff_self node1_fields)

lemma not_moved_node_forced: "\<not> moved node_forced (0, 0, 0) (0, 0, 0)"
  using not_moved_node1 by (simp add: moved_def exceeds_thresholds_def node_forced_eq)

lemma env1_fields:
  "env_odom_pose env1 = Some tf_identity" "env_laser_pose env1 = Some tf_identity"
  "env_base_angles env1 = Some (0, 1 / 100)" "env_odom_to_map env1 = Some tf_identity"
  "fst (read_hyps (env_clusters env1) 0 None) = 1"
  by (simp_all add: env1_def)

lemma scan_fields:
  "scan_frame_id scan_a = ''laser_a''" "scan_frame_id scan_b = ''laser_b''"
  "ranges scan_b = [1 / 20, 5, 1 / 10]" "range_min scan_b = 1 / 10" "range_max scan_b = 10"
  by (simp_all add: scan_a_def scan_b_def)

lemma pending_node1:
  "\<not> laser_pending node1 scan_a" "laser_pending node1 scan_b"
  by (simp_all add: laser_pending_def node1_fields scan_fields)

lemma int_fits_1: "int_fits 1"
  by (simp add: int_fits_def)

subsection \<open>When a sensor is scored\<close>

lemma laser_scan_b_scored:
  "\<exists>s' evs. laserReceived lib0 node1 scan_b env1 = Inr (s', evs) \<and> list_ex is_laser_scoring evs"
proof -
  have m: "cur_map node1 \<noteq> None" by (simp add: node1_fields)
  have lp: "map_of (frame_to_laser node1) (scan_frame_id scan_b) \<noteq> None
             \<or> env_laser_pose env1 \<noteq> None"
    by (simp add: env1_fields)
  from laser_scoring_iff [OF m node1_fields(2) lasers_fit_node1 env1_fields(1) lp, of lib0]
  show ?thesis by (simp add: pending_node1 env1_fields)
qed

lemma laser_scan_a_skipped:
  "\<exists>s' evs. laserReceived lib0 node1 scan_a env1 = Inr (s', evs) \<and> \<not> list_ex is_laser_scoring evs"
proof -
  have m: "cur_map node1 \<noteq> None" by (simp add: node1_fields)
  have lp: "map_of (frame_to_laser node1) (scan_frame_id scan_a) \<noteq> None
             \<or> env_laser_pose env1 \<noteq> None"
    by (simp add: env1_fields)
  from laser_scoring_iff [OF m node1_fields(2) lasers_fit_node1 env1_fields(1) lp, of lib0]
  show ?thesis
    by (simp add: pending_node1 env1_fields pose_of_identity node1_fields not_moved_node1)
qed








subsection \<open>Resampling\<close>

lemma camera_forced_cycle:
  "\<exists>s' evs. detectionCallback lib0 node_forced det1 env1 = Inr (s', evs)
      \<and> \<not> list_ex is_resample evs \<and> list_ex is_pose_publication evs
      \<and> \<not> list_ex is_cluster_stats evs \<and> resample_count_cam s' = 1"
proof -
  have m: "cur_map node_forced \<noteq> None" by (simp add: node_forced_eq node1_fields)
  have o: "env_odom_pose env1 \<noteq> None" by (simp add: env1_fields)
  have ri: "resample_interval node_forced \<noteq> 0" by (simp add: node_forced_eq node1_fields)
  have cf: "int_fits ((if pf_init_cam node_forced then resample_count_cam node_forced else 0) + 1)"
    by (simp add: node_forced_eq node1_fields int_fits_1)
  from detectionCallback_cycle [OF m o ri cf, of lib0 det1]
  obtain s' evs where "detectionCallback lib0 node_forced det1 env1 = Inr (s', evs)"
    "\<not> list_ex is_resample evs" "list_ex is_pose_publication evs"
    "\<not> list_ex is_cluster_stats evs" "resample_count_cam s' = 1"
    by (auto simp: node_forced_eq node1_fields env1_fields)
  then show ?thesis by blast
qed

text \<open>
  C2: a laser callback resamples in every cycle in which it updates, and in no other; a
  marker callback whose cycle runs resamples exactly when the incremented cycle count is
  divisible by \<open>resample_interval\<close>, while the block hands on the flag \<open>resampled\<close> set
  in every such cycle: the cluster statistics are not recomputed and the pose is
  published whenever a cluster has positive weight, whether resampling took place or
  not. The count starts from zero in the cycle that initialises the filter for the
  camera.
\<close>

theorem resampling_per_sensor:
  "(laserReceived L s laser_scan env = Inr (s', evs)
      \<longrightarrow> (list_ex is_laser_scoring evs \<longleftrightarrow> list_ex is_resample evs))
   \<and> (marker_update s \<and> int_fits (resample_count_cam s + 1) \<and> resample_interval s \<noteq> 0
      \<longrightarrow> (\<exists>s5 ev5. camera_sensor_update s observation env pose = Running s5 ev5 True
             \<and> (list_ex is_resample ev5
                  \<longleftrightarrow> resample_interval s dvd resample_count_cam s + 1)))
   \<and> (cur_map s \<noteq> None \<and> env_odom_pose env = Some odom_pose
      \<and> resample_interval s \<noteq> 0
      \<and> int_fits ((if pf_init_cam s then resample_count_cam s else 0) + 1)
      \<and> (\<not> pf_init_cam s \<or> moved s (pose_of L odom_pose) (latest_odom_pose_camera s)
          \<or> m_force_update_cam s \<or> marker_update s
          \<or> frame_to_camera s \<noteq> det_frame_id msg)
      \<longrightarrow> (\<exists>s'' evs'. detectionCallback L s msg env = Inr (s'', evs')
             \<and> (list_ex is_resample evs'
                  \<longleftrightarrow> resample_interval s
                        dvd (if pf_init_cam s then resample_count_cam s else 0) + 1)
             \<and> resample_count_cam s'' = (if pf_init_cam s then resample_count_cam s else 0) + 1
             \<and> \<not> list_ex is_cluster_stats evs'
             \<and> (list_ex is_pose_publication evs'
                  \<longleftrightarrow> 0 < fst (read_hyps (env_clusters env) 0 None))))"
proof (intro conjI impI)
  assume "laserReceived L s laser_scan env = Inr (s', evs)"
  then show "list_ex is_laser_scoring evs \<longleftrightarrow> list_ex is_resample evs"
    by (rule laserReceived_scoring_resamples)
next
  assume "marker_update s \<and> int_fits (resample_count_cam s + 1) \<and> resample_interval s \<noteq> 0"
  then have a: "marker_update s" "int_fits (resample_count_cam s + 1)" "resample_interval s \<noteq> 0"
    by simp_all
  show "\<exists>s5 ev5. camera_sensor_update s observation env pose = Running s5 ev5 True
             \<and> (list_ex is_resample ev5
                  \<longleftrightarrow> resample_interval s dvd resample_count_cam s + 1)"
    unfolding camera_sensor_update_run [OF a] by simp
next
  assume a: "cur_map s \<noteq> None \<and> env_odom_pose env = Some odom_pose
      \<and> resample_interval s \<noteq> 0
      \<and> int_fits ((if pf_init_cam s then resample_count_cam s else 0) + 1)
      \<and> (\<not> pf_init_cam s \<or> moved s (pose_of L odom_pose) (latest_odom_pose_camera s)
          \<or> m_force_update_cam s \<or> marker_update s
          \<or> frame_to_camera s \<noteq> det_frame_id msg)"
  then have m: "cur_map s \<noteq> None" and o: "env_odom_pose env \<noteq> None"
    and ri: "resample_interval s \<noteq> 0"
    and cf: "int_fits ((if pf_init_cam s then resample_count_cam s else 0) + 1)"
    and p: "pose_of L (the (env_odom_pose env)) = pose_of L odom_pose"
    by simp_all
  from a have c: "\<not> pf_init_cam s
          \<or> moved s (pose_of L (the (env_odom_pose env))) (latest_odom_pose_camera s)
          \<or> m_force_update_cam s \<or> marker_update s
          \<or> frame_to_camera s \<noteq> det_frame_id msg"
    unfolding p by blast
  from detectionCallback_cycle [OF m o ri cf, of L msg] c
  show "\<exists>s'' evs'. detectionCallback L s msg env = Inr (s'', evs')
             \<and> (list_ex is_resample evs'
                  \<longleftrightarrow> resample_interval s
                        dvd (if pf_init_cam s then resample_count_cam s else 0) + 1)
             \<and> resample_count_cam s'' = (if pf_init_cam s then resample_count_cam s else 0) + 1
             \<and> \<not> list_ex is_cluster_stats evs'
             \<and> (list_ex is_pose_publication evs'
                  \<longleftrightarrow> 0 < fst (read_hyps (env_clusters env) 0 None))"
    by (simp only: c if_True simp_thms) blast
qed

theorem resampling_per_sensor_witness:
  "(\<exists>s' evs. laserReceived lib0 node1 scan_b env1 = Inr (s', evs)
       \<and> list_ex is_laser_scoring evs \<and> list_ex is_resample evs)
   \<and> cur_map node_forced \<noteq> None \<and> env_odom_pose env1 = Some tf_identity
   \<and> resample_interval node_forced = 2
   \<and> int_fits ((if pf_init_cam node_forced then resample_count_cam node_forced else 0) + 1)
   \<and> m_force_update_cam node_forced
   \<and> (\<exists>s'' evs'. detectionCallback lib0 node_forced det1 env1 = Inr (s'', evs')
         \<and> \<not> list_ex is_resample evs' \<and> resample_count_cam s'' = 1
         \<and> list_ex is_pose_publication evs')"
proof -
  from laser_scan_b_scored obtain s' evs
    where l: "laserReceived lib0 node1 scan_b env1 = Inr (s', evs)" "list_ex is_laser_scoring evs"
    by blast
  from resampling_per_sensor [of lib0 node1 scan_b env1 s' evs] l
  have "list_ex is_resample evs" by simp
  with l have a: "\<exists>s' evs. laserReceived lib0 node1 scan_b env1 = Inr (s', evs)
       \<and> list_ex is_laser_scoring evs \<and> list_ex is_resample evs"
    by blast
  have h: "cur_map node_forced \<noteq> None" "env_odom_pose env1 = Some tf_identity"
    "resample_interval node_forced = 2"
    "int_fits ((if pf_init_cam node_forced then resample_count_cam node_forced else 0) + 1)"
    "m_force_update_cam node_forced"
    by (simp_all add: node_forced_eq node1_fields env1_fields int_fits_1)
  from camera_forced_cycle have b: "\<exists>s'' evs'. detectionCallback lib0 node_forced det1 env1 = Inr (s'', evs')
         \<and> \<not> list_ex is_resample evs' \<and> resample_count_cam s'' = 1
         \<and> list_ex is_pose_publication evs'"
    by blast
  from a h b show ?thesis by blast
qed

subsection \<open>The cast to single precision\<close>



lemma round_half_even_error: "\<bar>of_int (round_half_even q) - q\<bar> \<le> 1 / 2"
proof -
  have "of_int \<lfloor>q\<rfloor> \<le> q" "q < of_int \<lfloor>q\<rfloor> + 1" by linarith+
  then show ?thesis by (auto simp: round_half_even_def Let_def)
qed

text \<open>The cast is off by at most half a unit in the last place.\<close>

lemma float_cast_error:
  assumes "float_cast x = Some f"
  shows "\<bar>f - x\<bar> \<le> 2 powi (float_exponent x - 23) / 2"
proof -
  define ulp :: real where "ulp = 2 powi (float_exponent x - 23)"
  have u: "0 < ulp" by (simp add: ulp_def)
  from assms have f: "f = of_int (round_half_even (x / ulp)) * ulp"
    by (simp add: float_cast_def Let_def ulp_def split: if_splits)
  from u have "f - x = (of_int (round_half_even (x / ulp)) - x / ulp) * ulp"
    by (simp add: f field_simps)
  then have "\<bar>f - x\<bar> = \<bar>of_int (round_half_even (x / ulp)) - x / ulp\<bar> * ulp"
    using u by (simp add: abs_mult)
  also have "\<dots> \<le> 1 / 2 * ulp"
    using round_half_even_error [of "x / ulp"] u by (intro mult_right_mono) simp_all
  finally show ?thesis by (simp add: ulp_def)
qed


subsection \<open>The ranges handed to the laser model\<close>









subsection \<open>The stamp of the broadcast transform\<close>

lemma broadcast_stamps_append:
  "broadcast_stamps (xs @ ys) = broadcast_stamps xs @ broadcast_stamps ys"
proof (induction xs)
  case Nil
  show ?case by simp
next
  case (Cons e xs)
  then show ?case by (cases e) simp_all
qed

lemma broadcast_stamps_none:
  "\<not> list_ex is_send_transform evs \<Longrightarrow> broadcast_stamps evs = []"
proof (induction evs)
  case Nil
  show ?case by simp
next
  case (Cons e evs)
  then show ?case by (cases e) simp_all
qed

lemma read_hyps_no_broadcast: "broadcast_stamps (snd (snd (read_hyps cs w b))) = []"
  by (induction cs w b rule: read_hyps.induct) simp_all

lemma save_pose_no_broadcast: "broadcast_stamps (snd (save_pose_if_due s now)) = []"
  by (simp add: save_pose_if_due_def)

lemma camera_publish_update_stamps:
  assumes "rs \<or> fp"
    and "camera_publish s msg observation env rs fp = Running s' ev u
       \<or> camera_publish s msg observation env rs fp = Return s' ev"
  shows "list_all (\<lambda>t. t = det_stamp msg) (broadcast_stamps ev)"
  using assms read_hyps_no_broadcast [of "env_clusters env" 0 None]
  by (auto simp: camera_publish_def Let_def broadcast_stamps_append
      split: if_splits option.splits)

lemma camera_publish_update_broadcast:
  assumes "rs \<or> fp" and "0 < fst (read_hyps (env_clusters env) 0 None)"
    and "env_odom_to_map env = Some t" and "tf_broadcast s"
  shows "\<exists>s' ev. camera_publish s msg observation env rs fp = Running s' ev ()
           \<and> broadcast_stamps ev = [det_stamp msg, det_stamp msg]"
proof -
  from read_hyps_best [OF assms(2)] obtain hyp
    where h: "fst (snd (read_hyps (env_clusters env) 0 None)) = Some hyp" by blast
  show ?thesis
    using assms h read_hyps_no_broadcast [of "env_clusters env" 0 None]
    by (auto simp: camera_publish_def Let_def broadcast_stamps_append)
qed

lemma camera_publish_republish_stamps:
  assumes "\<not> rs" "\<not> fp"
    and "camera_publish s msg observation env rs fp = Running s' ev u
       \<or> camera_publish s msg observation env rs fp = Return s' ev"
  shows "list_all (\<lambda>t. t = det_stamp msg + transform_tolerance s) (broadcast_stamps ev)"
  using assms save_pose_no_broadcast [of s "env_now env"]
  by (auto simp: camera_publish_def Let_def broadcast_stamps_append split: if_splits)

lemma laser_publish_stamps:
  assumes "laser_publish s laser_scan env rs fp = Running s' ev u
         \<or> laser_publish s laser_scan env rs fp = Return s' ev"
  shows "list_all (\<lambda>t. t = scan_stamp laser_scan + transform_tolerance s) (broadcast_stamps ev)"
  using assms read_hyps_no_broadcast [of "env_clusters env" 0 None]
    save_pose_no_broadcast [of s "env_now env"]
  by (auto simp: laser_publish_def Let_def broadcast_stamps_append
      split: if_splits option.splits)

lemma laser_publish_broadcast:
  assumes "rs \<or> fp" and "0 < fst (read_hyps (env_clusters env) 0 None)"
    and "env_odom_to_map env = Some t" and "tf_broadcast s"
  shows "\<exists>s' ev. laser_publish s laser_scan env rs fp = Running s' ev ()
           \<and> broadcast_stamps ev = [scan_stamp laser_scan + transform_tolerance s]"
proof -
  from read_hyps_best [OF assms(2)] obtain hyp
    where h: "fst (snd (read_hyps (env_clusters env) 0 None)) = Some hyp" by blast
  show ?thesis
    using assms h read_hyps_no_broadcast [of "env_clusters env" 0 None]
    by (auto simp: laser_publish_def Let_def broadcast_stamps_append)
qed

lemma laser_front_no_broadcast:
  "laser_lookup s laser_scan env = Running s1 ev1 k \<Longrightarrow> broadcast_stamps ev1 = []"
  "laser_lookup s laser_scan env = Return s1 ev1 \<Longrightarrow> broadcast_stamps ev1 = []"
  "getOdomPose L s r = (s2, ev2, po) \<Longrightarrow> broadcast_stamps ev2 = []"
  "laser_init_or_motion s k pose delta = Running s4 ev4 fp \<Longrightarrow> broadcast_stamps ev4 = []"
  "laser_sensor_update s laser_scan env k pose = Return s5 ev5 \<Longrightarrow> broadcast_stamps ev5 = []"
  "laser_sensor_update s laser_scan env k pose = Running s5 ev5 rs \<Longrightarrow> broadcast_stamps ev5 = []"
  by (auto simp: laser_lookup_def getOdomPose_def laser_init_or_motion_def
      laser_sensor_update_def Let_def split: option.splits if_splits)

text \<open>
  The laser callback stamps every transform it broadcasts with the scan's stamp plus the
  tolerance, in a cycle that updates and in one that republishes.
\<close>

lemma laserReceived_stamps:
  assumes r: "laserReceived L s laser_scan env = Inr (s', evs)"
  shows "list_all (\<lambda>t. t = scan_stamp laser_scan + transform_tolerance s) (broadcast_stamps evs)"
proof (cases "cur_map s = None")
  case True
  with r show ?thesis by (simp add: laserReceived_def)
next
  case False
  from r False show ?thesis
  proof (cases rule: laserReceived_cases)
    case no_laser_pose
    from laser_front_no_broadcast(2) [OF this] show ?thesis by simp
  next
    case (no_odom s1 ev1 k ev2)
    from laser_front_no_broadcast(1) [OF no_odom(1)] laser_front_no_broadcast(3) [OF no_odom(2)]
    show ?thesis unfolding no_odom(3) by (simp add: broadcast_stamps_append)
  next
    case (no_angles s1 ev1 k s2 ev2 pose s3 delta s4 ev4 fp ev5)
    from laser_front_no_broadcast(1) [OF no_angles(1)] laser_front_no_broadcast(3) [OF no_angles(2)]
      laser_front_no_broadcast(4) [OF no_angles(4)] laser_front_no_broadcast(5) [OF no_angles(5)]
    show ?thesis unfolding no_angles(6) by (simp add: broadcast_stamps_append)
  next
    case (published s1 ev1 k s2 ev2 pose s3 delta s4 ev4 fp s5 ev5 rs ev6)
    from getOdomPose_setup [of L s1 "env_odom_pose env"] published(2)
    have "setup_of s2 = setup_of s1" by simp
    moreover from laser_gate_setup [of s2 pose] published(3)
    have "setup_of s3 = setup_of s2" by simp
    ultimately have "setup_of s5 = setup_of s"
      using laser_lookup_setup(1) [OF published(1)] laser_init_or_motion_setup(1) [OF published(4)]
        laser_sensor_update_setup(1) [OF published(5)]
      by simp
    then have tol: "transform_tolerance s5 = transform_tolerance s" by (simp add: setup_of_def)
    from published(6) have "list_all (\<lambda>t. t = scan_stamp laser_scan + transform_tolerance s5)
        (broadcast_stamps ev6)"
      using laser_publish_stamps by blast
    with tol have s6: "list_all (\<lambda>t. t = scan_stamp laser_scan + transform_tolerance s)
        (broadcast_stamps ev6)" by simp
    note n = laser_front_no_broadcast(1) [OF published(1)]
      laser_front_no_broadcast(3) [OF published(2)]
      laser_front_no_broadcast(4) [OF published(4)] laser_front_no_broadcast(6) [OF published(5)]
    from published(6) show ?thesis
    proof (elim disjE conjE)
      assume "evs = ev1 @ ev2 @ ev4 @ ev5 @ ev6"
      with n s6 show ?thesis by (simp add: broadcast_stamps_append)
    next
      assume "evs = ev1 @ ev2 @ ev4 @ ev5 @ ev6 @ [PublishPaths]"
      with n s6 show ?thesis by (simp add: broadcast_stamps_append)
    qed
  qed
qed

text \<open>
  The marker callback stamps the transforms it republishes the same way, but in a cycle
  that updates it stamps them with the observation's stamp alone.
\<close>

lemma detectionCallback_stamps:
  fixes s :: AmclNode and msg :: messagedet and env :: callback_env and L :: ros_lib
  defines "cycle \<equiv> (\<not> pf_init_cam s
                      \<or> moved s (pose_of L (the (env_odom_pose env))) (latest_odom_pose_camera s)
                      \<or> m_force_update_cam s \<or> marker_update s
                      \<or> frame_to_camera s \<noteq> det_frame_id msg)"
  assumes m: "cur_map s \<noteq> None" and o: "env_odom_pose env \<noteq> None"
    and ri: "resample_interval s \<noteq> 0"
    and cf: "int_fits ((if pf_init_cam s then resample_count_cam s else 0) + 1)"
  shows "\<exists>s' evs. detectionCallback L s msg env = Inr (s', evs)
           \<and> list_all (\<lambda>t. t = (if cycle then det_stamp msg
                                  else det_stamp msg + transform_tolerance s))
                (broadcast_stamps evs)
           \<and> (if cycle \<and> tf_broadcast s \<and> env_odom_to_map env \<noteq> None
                  \<and> 0 < fst (read_hyps (env_clusters env) 0 None)
               then broadcast_stamps evs = [det_stamp msg, det_stamp msg]
               else True)"
proof -
  from detectionCallback_stages [OF m o ri cf, of L msg]
  obtain s5 ev fp s' ev6 evs where d: "detectionCallback L s msg env = Inr (s', evs)"
    and p: "camera_publish s5 msg (observation_of msg) env cycle fp = Return s' ev6
                 \<and> evs = ev @ ev6
               \<or> camera_publish s5 msg (observation_of msg) env cycle fp = Running s' ev6 ()
                 \<and> evs = ev @ ev6 @ [PublishPaths]"
    and e: "\<not> list_ex is_send_transform ev"
    and su: "setup_of s5 = setup_of s"
    and fp: "fp \<longrightarrow> cycle"
    unfolding cycle_def by blast
  from su have tol: "transform_tolerance s5 = transform_tolerance s"
    and tb: "tf_broadcast s5 = tf_broadcast s"
    by (simp_all add: setup_of_def)
  from p have p': "camera_publish s5 msg (observation_of msg) env cycle fp = Running s' ev6 ()
      \<or> camera_publish s5 msg (observation_of msg) env cycle fp = Return s' ev6"
    by blast
  from p have evs: "broadcast_stamps evs = broadcast_stamps ev6"
    using broadcast_stamps_none [OF e] by (auto simp: broadcast_stamps_append)
  have a: "list_all (\<lambda>t. t = (if cycle then det_stamp msg
                                  else det_stamp msg + transform_tolerance s))
                (broadcast_stamps ev6)"
  proof (cases cycle)
    case True
    with camera_publish_update_stamps [OF _ p'] show ?thesis by simp
  next
    case False
    with fp have "\<not> fp" by simp
    from camera_publish_republish_stamps [OF False this p'] tol False show ?thesis by simp
  qed
  have b: "broadcast_stamps ev6 = [det_stamp msg, det_stamp msg]"
    if c: "cycle" "tf_broadcast s" "env_odom_to_map env \<noteq> None"
      "0 < fst (read_hyps (env_clusters env) 0 None)"
  proof -
    from c(3) obtain t where t: "env_odom_to_map env = Some t" by blast
    from c(1) have "cycle \<or> fp" by simp
    from camera_publish_update_broadcast [OF this c(4) t, of s5 msg "observation_of msg"] c(2) tb
    obtain s'' ev'' where "camera_publish s5 msg (observation_of msg) env cycle fp = Running s'' ev'' ()"
      "broadcast_stamps ev'' = [det_stamp msg, det_stamp msg]"
      by auto
    with p' show ?thesis by auto
  qed
  from d evs a b show ?thesis by auto
qed

lemma laserReceived_scored_broadcast:
  assumes r: "laserReceived L s laser_scan env = Inr (s', evs)"
    and sc: "list_ex is_laser_scoring evs"
    and w: "0 < fst (read_hyps (env_clusters env) 0 None)"
    and t: "env_odom_to_map env = Some t" and tb: "tf_broadcast s"
  shows "broadcast_stamps evs = [scan_stamp laser_scan + transform_tolerance s]"
proof (cases "cur_map s = None")
  case True
  with r sc show ?thesis by (simp add: laserReceived_def)
next
  case False
  from r False show ?thesis
  proof (cases rule: laserReceived_cases)
    case no_laser_pose
    from laser_lookup_events(2) [OF this] sc show ?thesis by simp
  next
    case (no_odom s1 ev1 k ev2)
    from laser_lookup_events(1) [OF no_odom(1)] getOdomPose_result(1) [OF no_odom(2)] sc
    show ?thesis unfolding no_odom(3) by simp
  next
    case (no_angles s1 ev1 k s2 ev2 pose s3 delta s4 ev4 fp ev5)
    from laser_lookup_events(1) [OF no_angles(1)] getOdomPose_result(1) [OF no_angles(2)]
      laser_init_or_motion_events [OF no_angles(4)] laser_sensor_update_events(1) [OF no_angles(5)] sc
    show ?thesis unfolding no_angles(6) by simp
  next
    case (published s1 ev1 k s2 ev2 pose s3 delta s4 ev4 fp s5 ev5 rs ev6)
    from published(6) have n6: "\<not> list_ex is_laser_scoring ev6"
      using laser_publish_events by blast
    note n = laser_lookup_events(1) [OF published(1)] getOdomPose_result(1) [OF published(2)]
      laser_init_or_motion_events(1) [OF published(4)] laser_sensor_update_events(2) [OF published(5)]
    from published(6) sc n n6 have rs: "rs" by (elim disjE conjE) simp_all
    from getOdomPose_setup [of L s1 "env_odom_pose env"] published(2)
    have "setup_of s2 = setup_of s1" by simp
    moreover from laser_gate_setup [of s2 pose] published(3)
    have "setup_of s3 = setup_of s2" by simp
    ultimately have "setup_of s5 = setup_of s"
      using laser_lookup_setup(1) [OF published(1)] laser_init_or_motion_setup(1) [OF published(4)]
        laser_sensor_update_setup(1) [OF published(5)]
      by simp
    then have tol: "transform_tolerance s5 = transform_tolerance s"
      and tb5: "tf_broadcast s5" using tb by (simp_all add: setup_of_def)
    from rs have "rs \<or> fp" by simp
    from laser_publish_broadcast [OF this w t tb5, of laser_scan] tol
    obtain s6 ev6' where lp: "laser_publish s5 laser_scan env rs fp = Running s6 ev6' ()"
      and b: "broadcast_stamps ev6' = [scan_stamp laser_scan + transform_tolerance s]"
      by auto
    from published(6) lp have evs: "evs = ev1 @ ev2 @ ev4 @ ev5 @ ev6' @ [PublishPaths]" by auto
    note f = laser_front_no_broadcast(1) [OF published(1)]
      laser_front_no_broadcast(3) [OF published(2)]
      laser_front_no_broadcast(4) [OF published(4)] laser_front_no_broadcast(6) [OF published(5)]
    show ?thesis unfolding evs using f b by (simp add: broadcast_stamps_append)
  qed
qed

text \<open>
  C5: the stamp of the transform in a marker cycle that updates. A no-motion update is
  requested on a node that has completed a cycle of each sensor; the next detection
  runs a cycle and the best cluster has positive weight. The two transforms the callback
  broadcasts carry the detection's stamp, 1000, although the tolerance is 100000000: the
  source computes the expiry and then passes the plain stamp. A scan in the same
  situation is broadcast with the expiry, stamp plus tolerance.
\<close>

theorem marker_update_broadcast_stamp:
  "\<not> isl (detectionCallback lib0 node_forced det1 env1)
   \<and> broadcast_stamps (snd (projr (detectionCallback lib0 node_forced det1 env1))) = [1000, 1000]
   \<and> det_stamp det1 + transform_tolerance node_forced = 100001000
   \<and> \<not> isl (laserReceived lib0 node1 scan_b env1)
   \<and> broadcast_stamps (snd (projr (laserReceived lib0 node1 scan_b env1))) = [100001000]
   \<and> scan_stamp scan_b + transform_tolerance node1 = 100001000"
proof -
  have m: "cur_map node_forced \<noteq> None" by (simp add: node_forced_eq node1_fields)
  have o: "env_odom_pose env1 \<noteq> None" by (simp add: env1_fields)
  have ri: "resample_interval node_forced \<noteq> 0" by (simp add: node_forced_eq node1_fields)
  have cf: "int_fits ((if pf_init_cam node_forced then resample_count_cam node_forced else 0) + 1)"
    by (simp add: node_forced_eq node1_fields int_fits_1)
  from detectionCallback_stamps [OF m o ri cf, of lib0 det1]
  obtain s' evs where c: "detectionCallback lib0 node_forced det1 env1 = Inr (s', evs)"
    "broadcast_stamps evs = [det_stamp det1, det_stamp det1]"
    by (auto simp: node_forced_eq node1_fields env1_fields)
  from laser_scan_b_scored obtain s'' evs'
    where l: "laserReceived lib0 node1 scan_b env1 = Inr (s'', evs')"
      "list_ex is_laser_scoring evs'"
    by blast
  have w: "0 < fst (read_hyps (env_clusters env1) 0 None)" by (simp add: env1_fields)
  from laserReceived_scored_broadcast [OF l w env1_fields(4) node1_fields(17)]
  have b: "broadcast_stamps evs' = [scan_stamp scan_b + transform_tolerance node1]" .
  from c l b show ?thesis
    by (simp add: det1_def scan_b_def scan_a_def node_forced_eq node1_fields)
qed

subsection \<open>Initial poses\<close>

lemma applyInitialPose_with_map:
  assumes "cur_map s \<noteq> None" and "initial_pose_hyp s = Some (pf_pose_mean, pf_pose_cov)"
  shows "applyInitialPose s =
     (s\<lparr>pf_init := False, pf_init_scan := False, pf_init_cam := False, initial_pose_hyp := None\<rparr>,
      [PfInit pf_pose_mean pf_pose_cov])"
  using assms by (simp add: applyInitialPose_def)

lemma handleInitialPoseMessage_other_frame:
  assumes "msg_frame_id msg \<noteq> []"
    and "resolve L (msg_frame_id msg) \<noteq> resolve L (global_frame_id s)"
  shows "handleInitialPoseMessage L s msg tx_lookup =
     (s, [ROS_WARN ''Ignoring initial pose in frame; initial poses must be in the global frame''])"
  using assms by (simp add: handleInitialPoseMessage_def)

lemma handleInitialPoseMessage_no_frame:
  assumes "msg_frame_id msg = []"
  shows "handleInitialPoseMessage L s msg tx_lookup =
     (fst (acceptInitialPose L s msg tx_lookup),
      ROS_WARN ''Received initial pose with empty frame_id.  You should always supply a frame_id.''
        # snd (acceptInitialPose L s msg tx_lookup))"
  using assms by (simp add: handleInitialPoseMessage_def Let_def)

lemma acceptInitialPose_with_map:
  assumes "cur_map s \<noteq> None"
  shows "fst (acceptInitialPose L s msg tx_lookup) =
           s\<lparr>pose_ini := compose L (msg_pose msg)
                             (case tx_lookup of Some t \<Rightarrow> t | None \<Rightarrow> tf_identity),
               pf_init := False, pf_init_scan := False, pf_init_cam := False,
               initial_pose_hyp := None\<rparr>
         \<and> (\<exists>pf_pose_mean pf_pose_cov.
               PfInit pf_pose_mean pf_pose_cov \<in> set (snd (acceptInitialPose L s msg tx_lookup)))"
  using assms by (auto simp: acceptInitialPose_def Let_def applyInitialPose_def)

text \<open>
  C6, as stated: every initial pose whose frame is not the global frame is dropped. One
  with an empty frame id is not: the handler logs a warning and goes on, and with a map
  loaded the filter is initialised anew from the message. Here the global frame is
  \<open>map\<close>, the filter is initialised for the laser before the message and not after it.
\<close>

theorem initial_pose_empty_frame_counterexample:
  "msg_frame_id initial_pose_no_frame \<noteq> global_frame_id node1
   \<and> resolve lib0 (msg_frame_id initial_pose_no_frame) \<noteq> resolve lib0 (global_frame_id node1)
   \<and> snd (handleInitialPoseMessage lib0 node1 initial_pose_no_frame None)
       = [ROS_WARN ''Received initial pose with empty frame_id.  You should always supply a frame_id.'',
          PfInit (1, 2, 0) ((0, 0, 0), (0, 0, 0), (0, 0, 0))]
   \<and> pf_init_scan node1
   \<and> \<not> pf_init_scan (fst (handleInitialPoseMessage lib0 node1 initial_pose_no_frame None))"
  by (simp add: handleInitialPoseMessage_def acceptInitialPose_def applyInitialPose_def Let_def
      initial_pose_no_frame_def node1_def AmclNode_new_def params0_def lib0_def
      origin_x_of_def origin_y_of_def)

text \<open>
  C6, amended: every injected initial-pose message whose frame id is not empty and does
  not resolve to the frame the global frame id resolves to is dropped with a logged
  warning, and handling it leaves the node's state, and with it the particle filter,
  unchanged. A message with an empty frame id is warned about and then handled as one in
  the global frame; with a map loaded it initialises the filter anew.
\<close>

theorem initial_pose_frame_mismatch:
  "(msg_frame_id msg \<noteq> [] \<and> resolve L (msg_frame_id msg) \<noteq> resolve L (global_frame_id s)
      \<longrightarrow> handleInitialPoseMessage L s msg tx_lookup =
            (s, [ROS_WARN ''Ignoring initial pose in frame; initial poses must be in the global frame'']))
   \<and> (msg_frame_id msg = []
      \<longrightarrow> handleInitialPoseMessage L s msg tx_lookup =
            (fst (acceptInitialPose L s msg tx_lookup),
             ROS_WARN ''Received initial pose with empty frame_id.  You should always supply a frame_id.''
               # snd (acceptInitialPose L s msg tx_lookup)))
   \<and> (cur_map s \<noteq> None
      \<longrightarrow> fst (acceptInitialPose L s msg tx_lookup) =
            s\<lparr>pose_ini := compose L (msg_pose msg)
                              (case tx_lookup of Some t \<Rightarrow> t | None \<Rightarrow> tf_identity),
                pf_init := False, pf_init_scan := False, pf_init_cam := False,
                initial_pose_hyp := None\<rparr>
          \<and> (\<exists>pf_pose_mean pf_pose_cov.
               PfInit pf_pose_mean pf_pose_cov \<in> set (snd (acceptInitialPose L s msg tx_lookup))))"
  using handleInitialPoseMessage_other_frame [of msg L s tx_lookup]
    handleInitialPoseMessage_no_frame [of msg L s tx_lookup]
    acceptInitialPose_with_map [of s L msg tx_lookup]
  by blast

theorem initial_pose_frame_mismatch_witness:
  "msg_frame_id initial_pose_odom \<noteq> []
   \<and> resolve lib0 (msg_frame_id initial_pose_odom) \<noteq> resolve lib0 (global_frame_id node1)
   \<and> handleInitialPoseMessage lib0 node1 initial_pose_odom None =
       (node1, [ROS_WARN ''Ignoring initial pose in frame; initial poses must be in the global frame''])
   \<and> msg_frame_id initial_pose_no_frame = []
   \<and> cur_map node1 \<noteq> None
   \<and> fst (handleInitialPoseMessage lib0 node1 initial_pose_no_frame None)
       = fst (acceptInitialPose lib0 node1 initial_pose_no_frame None)
   \<and> \<not> pf_init_scan (fst (handleInitialPoseMessage lib0 node1 initial_pose_no_frame None))"
proof -
  have h: "msg_frame_id initial_pose_odom \<noteq> []"
    "resolve lib0 (msg_frame_id initial_pose_odom) \<noteq> resolve lib0 (global_frame_id node1)"
    "msg_frame_id initial_pose_no_frame = []" "cur_map node1 \<noteq> None"
    by (simp_all add: initial_pose_odom_def initial_pose_no_frame_def lib0_def node1_fields)
  from initial_pose_frame_mismatch [of initial_pose_odom lib0 node1 None] h(1,2)
  have a: "handleInitialPoseMessage lib0 node1 initial_pose_odom None =
       (node1, [ROS_WARN ''Ignoring initial pose in frame; initial poses must be in the global frame''])"
    by blast
  from initial_pose_frame_mismatch [of initial_pose_no_frame lib0 node1 None] h(3)
  have b: "fst (handleInitialPoseMessage lib0 node1 initial_pose_no_frame None)
       = fst (acceptInitialPose lib0 node1 initial_pose_no_frame None)"
    by simp
  from initial_pose_frame_mismatch [of initial_pose_no_frame lib0 node1 None] h(4)
  have "\<not> pf_init_scan (fst (acceptInitialPose lib0 node1 initial_pose_no_frame None))"
    by simp
  with h a b show ?thesis by simp
qed

subsection \<open>The laser containers fit together in every state\<close>

lemma lasers_fit_tables:
  assumes "laser_tables_of s' = laser_tables_of s" and "lasers_fit s"
  shows "lasers_fit s'"
  using assms by (simp add: laser_tables_of_def lasers_fit_def)

lemma laser_lookup_fit:
  assumes fit: "lasers_fit s"
  shows "laser_lookup s laser_scan env = Running s1 ev k
           \<Longrightarrow> lasers_fit s1 \<and> k < length (frame_to_laser s1)"
    and "laser_lookup s laser_scan env = Return s1 ev \<Longrightarrow> lasers_fit s1"
proof -
  let ?n = "length (frame_to_laser s)"
  from fit have len: "length (lasers_vec s) = length (lasers_update s)"
    and le: "?n \<le> length (lasers_update s)"
    and idx: "list_all (\<lambda>fk. snd fk < ?n) (frame_to_laser s)"
    and flags: "list_all (\<lambda>b. b) (drop ?n (lasers_update s))"
    by (simp_all add: lasers_fit_def)
  from idx have idx': "list_all (\<lambda>fk. snd fk < Suc ?n) (frame_to_laser s)"
    by (auto simp: list_all_iff)
  have "set (drop (Suc ?n) (lasers_update s)) \<subseteq> set (drop ?n (lasers_update s))"
    by (rule set_drop_subset_set_drop) simp
  with flags have flags': "list_all (\<lambda>b. b) (drop (Suc ?n) (lasers_update s))"
    by (auto simp: list_all_iff)
  show "lasers_fit s1 \<and> k < length (frame_to_laser s1)"
    if r: "laser_lookup s laser_scan env = Running s1 ev k"
  proof (cases "map_of (frame_to_laser s) (scan_frame_id laser_scan)")
    case None
    have one: "list_all (\<lambda>b. b) (drop m [True])" for m by (cases m) simp_all
    from r laser_lookup_new [OF None fit, of env] len le idx' flags' one show ?thesis
      by (auto simp: lasers_fit_def split: option.splits)
  next
    case (Some k')
    from r laser_lookup_known [OF Some, of env] have "s1 = s" "k = k'" by simp_all
    with fit map_of_index_bound [OF idx Some] show ?thesis by simp
  qed
  show "lasers_fit s1" if r: "laser_lookup s laser_scan env = Return s1 ev"
  proof (cases "map_of (frame_to_laser s) (scan_frame_id laser_scan)")
    case None
    have "set (drop (length (frame_to_laser s)) (lasers_update s @ [True]))
        \<subseteq> set (drop (length (frame_to_laser s)) (lasers_update s)) \<union> {True}"
      by (auto dest: in_set_dropD)
    with flags have "list_all (\<lambda>b. b) (drop (length (frame_to_laser s)) (lasers_update s @ [True]))"
      unfolding list_all_iff by blast
    with r laser_lookup_new [OF None fit, of env] len le idx show ?thesis
      by (auto simp: lasers_fit_def simp del: drop_append split: option.splits)
  next
    case (Some k')
    from r laser_lookup_known [OF Some, of env] show ?thesis by simp
  qed
qed

lemma getOdomPose_tables:
  "laser_tables_of (fst (getOdomPose L s r)) = laser_tables_of s"
  by (simp add: getOdomPose_def laser_tables_of_def split: option.splits)

lemma all_set_flags: "list_all (\<lambda>b. b) (drop n (map (\<lambda>b. True) flags))"
  by (simp add: list_all_iff drop_map)

lemma laser_gate_fit:
  assumes "lasers_fit s"
  shows "lasers_fit (fst (laser_gate s pose))"
    and "frame_to_laser (fst (laser_gate s pose)) = frame_to_laser s"
  using assms by (simp_all add: laser_gate_def lasers_fit_def Let_def all_set_flags)

lemma laser_init_or_motion_fit:
  assumes fit: "lasers_fit s" and r: "laser_init_or_motion s k pose delta = Running s' ev fp"
  shows "lasers_fit s'" and "frame_to_laser s' = frame_to_laser s"
proof -
  have "lasers_fit s' \<and> frame_to_laser s' = frame_to_laser s"
  proof (cases "pf_init_scan s")
    case False
    with r have "s' = s\<lparr>pf_odom_pose := pose, latest_odom_pose_scan := pose, pf_init_scan := True,
                lasers_update := map (\<lambda>b. True) (lasers_update s),
                resample_count_scan := 0\<rparr>"
      by (simp add: laser_init_or_motion_def)
    with fit show ?thesis by (simp add: lasers_fit_def all_set_flags)
  next
    case True
    with r have "s' = s" by (simp add: laser_init_or_motion_def split: if_splits)
    with fit show ?thesis by simp
  qed
  then show "lasers_fit s'" and "frame_to_laser s' = frame_to_laser s" by simp_all
qed

lemma laser_sensor_update_fit:
  assumes fit: "lasers_fit s" and k: "k < length (frame_to_laser s)"
  shows "laser_sensor_update s laser_scan env k pose = Running s' ev rs \<Longrightarrow> lasers_fit s'"
    and "laser_sensor_update s laser_scan env k pose = Return s' ev \<Longrightarrow> lasers_fit s'"
proof -
  from k have d: "drop (length (frame_to_laser s)) ((lasers_update s)[k := False])
      = drop (length (frame_to_laser s)) (lasers_update s)"
    by (rule drop_update_cancel)
  from fit d have u: "lasers_fit (s\<lparr>updated_scan := True,
                              lasers_update := (lasers_update s)[k := False],
                              latest_odom_pose_scan := pose,
                              pf_odom_pose := pose\<rparr>)"
    by (simp add: lasers_fit_def)
  show "lasers_fit s'" if r: "laser_sensor_update s laser_scan env k pose = Running s' ev rs"
  proof (cases "lasers_update s ! k \<and> env_base_angles env \<noteq> None")
    case True
    with r have "s' = s\<lparr>updated_scan := True,
                              lasers_update := (lasers_update s)[k := False],
                              latest_odom_pose_scan := pose,
                              pf_odom_pose := pose\<rparr>"
      by (auto simp: laser_sensor_update_def Let_def split: if_splits)
    with u show ?thesis by simp
  next
    case False
    with r have "s' = s"
      by (auto simp: laser_sensor_update_def Let_def split: if_splits option.splits)
    with fit show ?thesis by simp
  qed
  show "lasers_fit s'" if r: "laser_sensor_update s laser_scan env k pose = Return s' ev"
  proof -
    from r have "s' = s"
      by (auto simp: laser_sensor_update_def Let_def split: if_splits option.splits)
    with fit show ?thesis by simp
  qed
qed

lemma save_pose_if_due_tables:
  "laser_tables_of (fst (save_pose_if_due s now)) = laser_tables_of s"
  by (simp add: save_pose_if_due_def laser_tables_of_def)

lemma laser_publish_tables:
  "laser_publish s laser_scan env r fp = Running s' ev u
     \<Longrightarrow> laser_tables_of s' = laser_tables_of s"
  "laser_publish s laser_scan env r fp = Return s' ev
     \<Longrightarrow> laser_tables_of s' = laser_tables_of s"
  by (auto simp: laser_publish_def save_pose_if_due_def laser_tables_of_def Let_def
      split: if_splits option.splits)

lemma laserReceived_fit:
  assumes fit: "lasers_fit s" and r: "laserReceived L s laser_scan env = Inr (s', evs)"
  shows "lasers_fit s'"
proof (cases "cur_map s = None")
  case True
  with r fit show ?thesis by (simp add: laserReceived_def)
next
  case False
  from r False show ?thesis
  proof (cases rule: laserReceived_cases)
    case no_laser_pose
    then show ?thesis by (rule laser_lookup_fit(2) [OF fit])
  next
    case (no_odom s1 ev1 k ev2)
    from getOdomPose_tables [of L s1 "env_odom_pose env"] no_odom(2)
    have "laser_tables_of s' = laser_tables_of s1" by simp
    with laser_lookup_fit(1) [OF fit no_odom(1)] show ?thesis
      by (blast intro: lasers_fit_tables)
  next
    case (no_angles s1 ev1 k s2 ev2 pose s3 delta s4 ev4 fp ev5)
    note f1 = laser_lookup_fit(1) [OF fit no_angles(1)]
    from getOdomPose_tables [of L s1 "env_odom_pose env"] no_angles(2)
    have t2: "laser_tables_of s2 = laser_tables_of s1" by simp
    with f1 have f2: "lasers_fit s2" and k2: "k < length (frame_to_laser s2)"
      by (simp_all add: lasers_fit_def laser_tables_of_def)
    from laser_gate_fit [OF f2, of pose] no_angles(3) k2
    have f3: "lasers_fit s3" and k3: "k < length (frame_to_laser s3)" by simp_all
    from laser_init_or_motion_fit [OF f3 no_angles(4)] k3
    have f4: "lasers_fit s4" and k4: "k < length (frame_to_laser s4)" by simp_all
    from laser_sensor_update_fit(2) [OF f4 k4 no_angles(5)] show ?thesis .
  next
    case (published s1 ev1 k s2 ev2 pose s3 delta s4 ev4 fp s5 ev5 rs ev6)
    note f1 = laser_lookup_fit(1) [OF fit published(1)]
    from getOdomPose_tables [of L s1 "env_odom_pose env"] published(2)
    have t2: "laser_tables_of s2 = laser_tables_of s1" by simp
    with f1 have f2: "lasers_fit s2" and k2: "k < length (frame_to_laser s2)"
      by (simp_all add: lasers_fit_def laser_tables_of_def)
    from laser_gate_fit [OF f2, of pose] published(3) k2
    have f3: "lasers_fit s3" and k3: "k < length (frame_to_laser s3)" by simp_all
    from laser_init_or_motion_fit [OF f3 published(4)] k3
    have f4: "lasers_fit s4" and k4: "k < length (frame_to_laser s4)" by simp_all
    from laser_sensor_update_fit(1) [OF f4 k4 published(5)] have f5: "lasers_fit s5" .
    from published(6) have "laser_tables_of s' = laser_tables_of s5"
      using laser_publish_tables by blast
    then show ?thesis using f5 by (rule lasers_fit_tables)
  qed
qed

lemma camera_front_tables:
  "laser_tables_of (camera_lookup s msg) = laser_tables_of s"
  "laser_tables_of (fst (camera_gate s pose)) = laser_tables_of s"
  "laser_tables_of (fst (camera_init_or_motion s pose delta)) = laser_tables_of s"
  by (simp_all add: camera_lookup_def camera_gate_def camera_init_or_motion_def
      laser_tables_of_def Let_def)

lemma camera_sensor_update_tables:
  "camera_sensor_update s observation env pose = Running s' ev b
     \<Longrightarrow> laser_tables_of s' = laser_tables_of s"
  by (auto simp: camera_sensor_update_def laser_tables_of_def Let_def split: if_splits)

lemma camera_publish_tables:
  "camera_publish s msg observation env r fp = Running s' ev u
     \<Longrightarrow> laser_tables_of s' = laser_tables_of s"
  "camera_publish s msg observation env r fp = Return s' ev
     \<Longrightarrow> laser_tables_of s' = laser_tables_of s"
  by (auto simp: camera_publish_def save_pose_if_due_def laser_tables_of_def Let_def
      split: if_splits option.splits)

lemma detectionCallback_tables:
  assumes r: "detectionCallback L s msg env = Inr (s', evs)"
  shows "laser_tables_of s' = laser_tables_of s"
proof (cases "cur_map s = None")
  case True
  with r show ?thesis by (simp add: detectionCallback_def)
next
  case False
  from r False show ?thesis
  proof (cases rule: detectionCallback_cases)
    case (no_odom ev2)
    from getOdomPose_tables [of L "camera_lookup s msg" "env_odom_pose env"] no_odom(1)
    show ?thesis by (simp add: camera_front_tables)
  next
    case (published s2 ev2 pose s3 delta s4 ev4 fp s5 ev5 rs ev6)
    from getOdomPose_tables [of L "camera_lookup s msg" "env_odom_pose env"] published(1)
    have "laser_tables_of s2 = laser_tables_of s" by (simp add: camera_front_tables)
    moreover from camera_front_tables(2) [of s2 pose] published(2)
    have "laser_tables_of s3 = laser_tables_of s2" by simp
    moreover from camera_front_tables(3) [of s3 pose delta] published(3)
    have "laser_tables_of s4 = laser_tables_of s3" by simp
    moreover note camera_sensor_update_tables [OF published(4)]
    moreover from published(5) have "laser_tables_of s' = laser_tables_of s5"
      using camera_publish_tables by blast
    ultimately show ?thesis by simp
  qed
qed

lemma applyInitialPose_tables:
  "laser_tables_of (fst (applyInitialPose s)) = laser_tables_of s"
  by (simp add: applyInitialPose_def laser_tables_of_def split: option.splits prod.splits)

lemma handleInitialPoseMessage_tables:
  "laser_tables_of (fst (handleInitialPoseMessage L s msg tx)) = laser_tables_of s"
  by (simp add: handleInitialPoseMessage_def acceptInitialPose_def Let_def
      applyInitialPose_tables)
    (simp add: laser_tables_of_def)

lemma handleMapMessage_fit:
  assumes "handleMapMessage P s map_msg = Inr (s', evs)"
  shows "lasers_fit s'"
proof -
  from assms have "laser_tables_of s' = ([], [], [])"
    using applyInitialPose_tables
    by (auto simp: handleMapMessage_def Let_def laser_tables_of_def split: sum.splits)
  then show ?thesis by (simp add: laser_tables_of_def lasers_fit_def)
qed

lemma reconfigureCB_tables:
  "laser_tables_of (fst (reconfigureCB L s config)) = laser_tables_of s"
  by (simp add: reconfigureCB_def Let_def laser_tables_of_def)

text \<open>
  The constructor leaves the three containers empty, a new map empties them, the laser
  callback keeps them fitting, and no other handler writes them.
\<close>

lemma reachable_lasers_fit:
  assumes "reachable L s"
  shows "lasers_fit s"
  using assms
proof (induction rule: reachable.induct)
  case (constructed P)
  show ?case by (simp add: AmclNode_new_def lasers_fit_def)
next
  case (laser s laser_scan env s' evs)
  from laserReceived_fit [OF laser.IH laser.hyps(2)] show ?case .
next
  case (detection s msg env s' evs)
  from detectionCallback_tables [OF detection.hyps(2)] detection.IH show ?case
    by (rule lasers_fit_tables)
next
  case (initial_pose s pose_msg tx_lookup s' evs)
  from initial_pose.hyps(2) have "s' = fst (handleInitialPoseMessage L s pose_msg tx_lookup)"
    by simp
  with handleInitialPoseMessage_tables [of L s pose_msg tx_lookup]
  have "laser_tables_of s' = laser_tables_of s" by simp
  then show ?case using initial_pose.IH by (rule lasers_fit_tables)
next
  case (map_received s P map_msg s' evs)
  show ?case
  proof (cases "first_map_only s \<and> first_map_received s")
    case True
    with map_received show ?thesis by (simp add: mapReceived_def)
  next
    case False
    with map_received.hyps(2) obtain s1 where h: "handleMapMessage P s map_msg = Inr (s1, evs)"
      and s': "s' = s1\<lparr>first_map_received := True\<rparr>"
      by (auto simp: mapReceived_def split: sum.splits)
    from handleMapMessage_fit [OF h] s' show ?thesis by (simp add: lasers_fit_def)
  qed
next
  case (set_map s P map_msg pose_msg tx_lookup s' evs)
  from set_map.hyps(2) obtain s1 ev1 where h: "handleMapMessage P s map_msg = Inr (s1, ev1)"
    and s': "s' = fst (handleInitialPoseMessage L s1 pose_msg tx_lookup)"
    by (auto simp: setMapCallback_def Let_def split: sum.splits)
  from handleInitialPoseMessage_tables [of L s1 pose_msg tx_lookup] s'
  have "laser_tables_of s' = laser_tables_of s1" by simp
  then show ?case using handleMapMessage_fit [OF h] by (rule lasers_fit_tables)
next
  case (global_localization s draws ok s' evs)
  then show ?case
    by (auto simp: globalLocalizationCallback_def lasers_fit_def split: option.splits sum.splits)
next
  case (nomotion_update s ok s')
  then show ?case by (auto simp: nomotionUpdateCallback_def lasers_fit_def)
next
  case (reconfigure s config s' evs)
  from reconfigure.hyps(2) have "s' = fst (reconfigureCB L s config)" by simp
  with reconfigureCB_tables [of L s config]
  have "laser_tables_of s' = laser_tables_of s" by simp
  then show ?case using reconfigure.IH by (rule lasers_fit_tables)
qed

end
